(* ===== verification/CPoll_Prelude.thy ===== *)
theory CPoll_Prelude
  imports Main "HOL-Library.Word"
begin

text \<open>
  Shared vocabulary of the development: the result of running a piece of the C++ code
  (a value with the new state, an exception, a fault, or no return at all), sequencing of
  such results, and C's 32 bit \<open>int\<close> as an integer whose wrap-around is written out
  (the library is compiled with \<open>-fwrapv\<close>, see src/Makefile.in).
\<close>

section \<open>Results of code\<close>

text \<open>
  Exceptions that the code throws, lets pass through, or that user code throws.
  \<open>Fault\<close> is not an exception: a failed \<open>assert\<close>, or undefined behaviour by
  access through a pointer to an object that no longer exists.
\<close>

datatype exn =
    Logic_error string
  | CPoll_exception string int
  | UNIX_exception string int
  | FileNotFound_exception string int
  | Bad_function_call
  | Out_of_range string
  | Bad_alloc
  | Abort_exception
  | Cancel_exception
  | User_exception nat

text \<open>
  What the C++ standard leaves undefined, and a failed \<open>assert\<close>. Two ways in which the event loop could
  go wrong have a fault of their own: a notification whose object is gone, and an index outside the
  array of notifications.
\<close>

datatype fault = Assertion_failed | Bad_pointer | Stale_notification | Out_of_bounds

datatype ('a, 'm) outcome =
    Ret 'a 'm
  | Throw exn 'm
  | Fault fault

text \<open>\<open>None\<close>: the code does not return.\<close>

type_synonym ('a, 'm) result = "('a, 'm) outcome option"

definition obind :: "('a, 'm) result \<Rightarrow> ('a \<Rightarrow> 'm \<Rightarrow> ('b, 'm) result) \<Rightarrow> ('b, 'm) result" where
  "obind x k = Option.bind x (\<lambda>out. case out of
      Ret a m \<Rightarrow> k a m
    | Throw e m \<Rightarrow> Some (Throw e m)
    | Fault f \<Rightarrow> Some (Fault f))"

abbreviation ret :: "'a \<Rightarrow> 'm \<Rightarrow> ('a, 'm) result" where
  "ret a m \<equiv> Some (Ret a m)"

lemma obind_simps [simp]:
  "obind None k = None"
  "obind (Some (Ret a m)) k = k a m"
  "obind (Some (Throw e m)) k = Some (Throw e m)"
  "obind (Some (Fault f)) k = Some (Fault f)"
  by (simp_all add: obind_def)

lemma obind_ret_right [simp]: "obind x ret = x"
  by (cases x) (auto simp: obind_def split: outcome.splits)

lemma obind_assoc: "obind (obind x k) l = obind x (\<lambda>a m. obind (k a m) l)"
  by (cases x) (auto simp: obind_def split: outcome.splits)

lemma obind_cong [fundef_cong]:
  assumes "x = y" and "\<And>a m. y = Some (Ret a m) \<Longrightarrow> k a m = l a m"
  shows "obind x k = obind y l"
  using assms by (cases y) (auto simp: obind_def split: outcome.splits)

lemma obind_eq_RetE:
  assumes "obind x k = Some (Ret b m')"
  obtains a m where "x = Some (Ret a m)" and "k a m = Some (Ret b m')"
  using assms by (cases x) (auto simp: obind_def split: outcome.splits)

lemma obind_mono [partial_function_mono]:
  assumes "mono_option B" and "\<And>a m. mono_option (\<lambda>f. C a m f)"
  shows "mono_option (\<lambda>f. obind (B f) (\<lambda>a m. C a m f))"
  unfolding obind_def
proof (rule bind_mono [OF assms(1)])
  fix y
  show "mono_option (\<lambda>f. case y of Ret a m \<Rightarrow> C a m f
      | Throw e m \<Rightarrow> Some (Throw e m) | Fault g \<Rightarrow> Some (Fault g))"
    by (cases y) (simp_all add: assms(2) option.const_mono)
qed

section \<open>C integers\<close>

text \<open>\<open>s32 x\<close> is the \<open>int\<close> with the low 32 bits of \<open>x\<close>, in two's complement.\<close>

definition s32 :: "int \<Rightarrow> int" where
  "s32 x = (x + 2147483648) mod 4294967296 - 2147483648"

definition in_s32 :: "int \<Rightarrow> bool" where
  "in_s32 x \<longleftrightarrow> - 2147483648 \<le> x \<and> x < 2147483648"

lemma s32_id [simp]: "in_s32 x \<Longrightarrow> s32 x = x"
  by (simp add: s32_def in_s32_def)

lemma s32_range: "in_s32 (s32 x)"
proof -
  have "0 \<le> (x + 2147483648) mod 4294967296" and "(x + 2147483648) mod 4294967296 < 4294967296"
    by simp_all
  then show ?thesis by (simp add: s32_def in_s32_def)
qed

lemma in_s32_between: "0 \<le> x \<Longrightarrow> x \<le> y \<Longrightarrow> in_s32 y \<Longrightarrow> in_s32 x"
  by (simp add: in_s32_def)

section \<open>Byte memory\<close>

type_synonym addr = int
type_synonym byte = "8 word"

text \<open>\<open>store_bytes mem a bs\<close> is memory after \<open>bs\<close> has been written from address \<open>a\<close> on.\<close>

definition store_bytes :: "(addr \<Rightarrow> byte) \<Rightarrow> addr \<Rightarrow> byte list \<Rightarrow> addr \<Rightarrow> byte" where
  "store_bytes mem a bs = (\<lambda>x. if a \<le> x \<and> x < a + int (length bs) then bs ! nat (x - a) else mem x)"

definition load_bytes :: "(addr \<Rightarrow> byte) \<Rightarrow> addr \<Rightarrow> nat \<Rightarrow> byte list" where
  "load_bytes mem a n = map (\<lambda>i. mem (a + int i)) [0..<n]"

lemma store_bytes_Nil [simp]: "store_bytes mem a [] = mem"
  by (rule ext) (auto simp: store_bytes_def)

lemma store_bytes_append:
  "store_bytes (store_bytes mem a xs) (a + int (length xs)) ys = store_bytes mem a (xs @ ys)"
  by (rule ext) (auto simp: store_bytes_def nth_append nat_diff_distrib nat_less_iff
      intro!: arg_cong [where f = "nth ys"])

lemma length_load_bytes [simp]: "length (load_bytes mem a n) = n"
  by (simp add: load_bytes_def)

lemma load_store_bytes: "load_bytes (store_bytes mem a bs) a (length bs) = bs"
  by (rule nth_equalityI) (simp_all add: load_bytes_def store_bytes_def)

lemma load_bytes_add:
  "load_bytes mem a (m + n) = load_bytes mem a m @ load_bytes mem (a + int m) n"
  by (rule nth_equalityI) (auto simp: load_bytes_def nth_append)

lemma take_load_bytes: "k \<le> n \<Longrightarrow> take k (load_bytes mem a n) = load_bytes mem a k"
  by (rule nth_equalityI) (simp_all add: load_bytes_def)

end
