(* ===== verification/CPoll_Address.thy ===== *)
theory CPoll_Address
  imports CPoll_Prelude
begin

text \<open>
  src/ipaddress.C and src/include/cpoll-ng/ipaddress.H: byte order, IPv4 address arithmetic,
  and the three classes of \<open>EndPoint\<close> with their conversion to and from \<open>sockaddr\<close>.
  Byte order is a parameter \<open>le\<close> (little endian); the theorems hold for both.
\<close>

unbundle bit_operations_syntax

section \<open>Byte order\<close>

text \<open>\<open>byte_of i x\<close> is byte \<open>i\<close> of \<open>x\<close>, counted from the least significant one.\<close>

abbreviation byte_of :: "nat \<Rightarrow> 'a::len word \<Rightarrow> 'a word" where
  "byte_of i x \<equiv> take_bit 8 (drop_bit (8 * i) x)"

definition byteswap16 :: "16 word \<Rightarrow> 16 word" where
  "byteswap16 x = push_bit 8 (byte_of 0 x) OR byte_of 1 x"

definition byteswap32 :: "32 word \<Rightarrow> 32 word" where
  "byteswap32 x = push_bit 24 (byte_of 0 x) OR push_bit 16 (byte_of 1 x) OR
     push_bit 8 (byte_of 2 x) OR byte_of 3 x"

definition htons :: "bool \<Rightarrow> 16 word \<Rightarrow> 16 word" where
  "htons le x = (if le then byteswap16 x else x)"

definition htonl :: "bool \<Rightarrow> 32 word \<Rightarrow> 32 word" where
  "htonl le x = (if le then byteswap32 x else x)"

text \<open>\<open>ntohs\<close> and \<open>ntohl\<close> are the same functions.\<close>

abbreviation ntohs :: "bool \<Rightarrow> 16 word \<Rightarrow> 16 word" where "ntohs \<equiv> htons"
abbreviation ntohl :: "bool \<Rightarrow> 32 word \<Rightarrow> 32 word" where "ntohl \<equiv> htonl"

text \<open>\<open>ntohll\<close>: the halves are converted and exchanged on a little endian machine.\<close>

definition ntohll :: "bool \<Rightarrow> 64 word \<Rightarrow> 64 word" where
  "ntohll le v =
     (if le then
        (let high_part = htonl le (ucast (drop_bit 32 v));
             low_part = htonl le (ucast (v AND 0xFFFFFFFF))
         in push_bit 32 (ucast low_part) OR ucast high_part)
      else v)"

lemma bit_byteswap16:
  "bit (byteswap16 x) n \<longleftrightarrow> (if n < 8 then bit x (n + 8) else n < 16 \<and> bit x (n - 8))"
  by (auto simp: byteswap16_def bit_simps algebra_simps)

lemma bit_byteswap32:
  "bit (byteswap32 x) n \<longleftrightarrow>
     (if n < 8 then bit x (n + 24) else if n < 16 then bit x (n + 8)
      else if n < 24 then bit x (n - 8) else n < 32 \<and> bit x (n - 24))"
  by (auto simp: byteswap32_def bit_simps algebra_simps)

lemma byteswap16_byteswap16 [simp]: "byteswap16 (byteswap16 x) = x"
  by (rule bit_word_eqI) (auto simp: bit_byteswap16)

lemma byteswap32_byteswap32 [simp]: "byteswap32 (byteswap32 x) = x"
  by (rule bit_word_eqI) (auto simp: bit_byteswap32)

lemma htons_htons [simp]: "htons le (htons le x) = x"
  by (simp add: htons_def)

lemma htonl_htonl [simp]: "htonl le (htonl le x) = x"
  by (simp add: htonl_def)

lemma htonl_inject [simp]: "htonl le x = htonl le y \<longleftrightarrow> x = y"
  by (metis htonl_htonl)

lemma mask_32: "(0xFFFFFFFF :: 64 word) = mask 32"
  by (simp add: mask_eq_exp_minus_1)

lemma ntohll_True:
  "ntohll True v = push_bit 32 (ucast (byteswap32 (ucast v))) OR ucast (byteswap32 (ucast (drop_bit 32 v)))"
proof -
  have "(ucast (v AND 0xFFFFFFFF) :: 32 word) = ucast v"
    by (rule bit_word_eqI) (simp add: mask_32 bit_simps)
  then show ?thesis by (simp add: ntohll_def htonl_def Let_def)
qed

lemma bit_ntohll:
  "bit (ntohll True v) n \<longleftrightarrow>
     (if n < 8 then bit v (n + 56) else if n < 16 then bit v (n + 40)
      else if n < 24 then bit v (n + 24) else if n < 32 then bit v (n + 8)
      else if n < 40 then bit v (n - 8) else if n < 48 then bit v (n - 24)
      else if n < 56 then bit v (n - 40) else n < 64 \<and> bit v (n - 56))"
proof -
  have hi: "bit (ntohll True v) n \<longleftrightarrow> bit (byteswap32 (ucast (drop_bit 32 v))) n" if "n < 32"
    using that by (simp add: ntohll_True bit_simps)
  have lo: "bit (ntohll True v) n \<longleftrightarrow> n < 64 \<and> bit (byteswap32 (ucast v)) (n - 32)" if "32 \<le> n"
    using that bit_imp_le_length [of "byteswap32 (ucast (drop_bit 32 v))" n]
    by (auto simp: ntohll_True bit_simps)
  show ?thesis
  proof (cases "n < 32")
    case True
    then show ?thesis unfolding hi [OF True] bit_byteswap32
      by (simp add: bit_unsigned_iff bit_drop_bit_eq add.commute) arith
  next
    case False
    then have e: "n - 32 + 24 = n - 8" "n - 32 + 8 = n - 24" "n - 32 - 8 = n - 40" "n - 32 - 24 = n - 56"
      by simp_all
    show ?thesis using False lo unfolding bit_byteswap32 e by (simp add: bit_unsigned_iff) arith
  qed
qed

lemma ntohll_ntohll [simp]: "ntohll le (ntohll le v) = v"
proof (cases le)
  case True
  show ?thesis
    by (rule bit_word_eqI) (use True in \<open>auto simp: bit_ntohll\<close>)
qed (simp add: ntohll_def)

section \<open>IPv4 addresses\<close>

text \<open>\<open>struct IPAddress\<close> holds \<open>s_addr\<close>, in network byte order.\<close>

type_synonym IPAddress = "32 word"

definition IPAddress_lt :: "bool \<Rightarrow> IPAddress \<Rightarrow> IPAddress \<Rightarrow> bool" where
  "IPAddress_lt le a b \<longleftrightarrow> ntohl le a < ntohl le b"

definition IPAddress_gt :: "bool \<Rightarrow> IPAddress \<Rightarrow> IPAddress \<Rightarrow> bool" where
  "IPAddress_gt le a b \<longleftrightarrow> ntohl le a > ntohl le b"

definition IPAddress_le :: "bool \<Rightarrow> IPAddress \<Rightarrow> IPAddress \<Rightarrow> bool" where
  "IPAddress_le le a b \<longleftrightarrow> ntohl le a \<le> ntohl le b"

definition IPAddress_ge :: "bool \<Rightarrow> IPAddress \<Rightarrow> IPAddress \<Rightarrow> bool" where
  "IPAddress_ge le a b \<longleftrightarrow> ntohl le a \<ge> ntohl le b"

definition IPAddress_eq :: "IPAddress \<Rightarrow> IPAddress \<Rightarrow> bool" where
  "IPAddress_eq a b \<longleftrightarrow> a = b"

definition IPAddress_add :: "bool \<Rightarrow> IPAddress \<Rightarrow> IPAddress \<Rightarrow> IPAddress" where
  "IPAddress_add le a b = htonl le (ntohl le a + ntohl le b)"

definition IPAddress_sub :: "bool \<Rightarrow> IPAddress \<Rightarrow> IPAddress \<Rightarrow> IPAddress" where
  "IPAddress_sub le a b = htonl le (ntohl le a - ntohl le b)"

definition IPAddress_add_int :: "bool \<Rightarrow> IPAddress \<Rightarrow> int \<Rightarrow> IPAddress" where
  "IPAddress_add_int le a i = htonl le (ntohl le a + word_of_int i)"

definition IPAddress_sub_int :: "bool \<Rightarrow> IPAddress \<Rightarrow> int \<Rightarrow> IPAddress" where
  "IPAddress_sub_int le a i = htonl le (ntohl le a - word_of_int i)"

lemmas IPAddress_defs = IPAddress_lt_def IPAddress_gt_def IPAddress_le_def IPAddress_ge_def
  IPAddress_eq_def IPAddress_add_def IPAddress_sub_def IPAddress_add_int_def IPAddress_sub_int_def

text \<open>Text form. \<open>inet_ntop\<close> fails when the text with its null byte does not fit.\<close>

fun dec_digits :: "nat \<Rightarrow> string" where
  "dec_digits n = (if n < 10 then [char_of (48 + n)] else dec_digits (n div 10) @ [char_of (48 + n mod 10)])"

declare dec_digits.simps [simp del]

definition dotted :: "32 word \<Rightarrow> string" where
  "dotted x = dec_digits (unat (byte_of 3 x)) @ ''.'' @ dec_digits (unat (byte_of 2 x)) @ ''.'' @
     dec_digits (unat (byte_of 1 x)) @ ''.'' @ dec_digits (unat (byte_of 0 x))"

definition INET_ADDRSTRLEN :: nat where "INET_ADDRSTRLEN = 16"
definition INET6_ADDRSTRLEN :: nat where "INET6_ADDRSTRLEN = 46"

definition inet_ntop4 :: "bool \<Rightarrow> IPAddress \<Rightarrow> nat \<Rightarrow> string option" where
  "inet_ntop4 le a sz = (let s = dotted (ntohl le a) in if length s + 1 \<le> sz then Some s else None)"

text \<open>\<open>IPAddress::toStr\<close>; \<open>err\<close> is the exception that \<open>CPollException()\<close> makes from \<open>errno\<close>.\<close>

definition IPAddress_toStr :: "bool \<Rightarrow> exn \<Rightarrow> IPAddress \<Rightarrow> exn + string" where
  "IPAddress_toStr le err a = (case inet_ntop4 le a INET_ADDRSTRLEN of None \<Rightarrow> Inl err | Some s \<Rightarrow> Inr s)"

text \<open>
  \<open>IPv6Address::toStr\<close>. The text that \<open>inet_ntop\<close> makes of the address is a parameter; it is
  told that the buffer has \<open>INET6_ADDRSTRLEN\<close> bytes, but \<open>tmp\<close> has \<open>INET_ADDRSTRLEN\<close>.
  The outer \<open>None\<close> is a write past the end of \<open>tmp\<close>.
\<close>

definition IPv6Address_toStr :: "(128 word \<Rightarrow> string) \<Rightarrow> exn \<Rightarrow> 128 word \<Rightarrow> (exn + string) option" where
  "IPv6Address_toStr ntop6 err a =
     (let s = ntop6 a in
      if length s + 1 \<le> INET6_ADDRSTRLEN
      then (if length s + 1 \<le> INET_ADDRSTRLEN then Some (Inr s) else None)
      else Some (Inl err))"

lemma length_dec_digits_byte: "n < 256 \<Longrightarrow> length (dec_digits n) \<le> 3"
  by (subst dec_digits.simps, simp, subst dec_digits.simps, simp, subst dec_digits.simps, simp)

lemma unat_byte_less: "unat (byte_of i (x :: 32 word)) < 256"
  using take_bit_nat_less_exp [of 8 "unat (drop_bit (8 * i) x)"] by (simp add: unsigned_take_bit_eq)

lemma length_dotted: "length (dotted x) \<le> 15"
  using length_dec_digits_byte [OF unat_byte_less [of 0 x]] length_dec_digits_byte [OF unat_byte_less [of 1 x]]
    length_dec_digits_byte [OF unat_byte_less [of 2 x]] length_dec_digits_byte [OF unat_byte_less [of 3 x]]
  unfolding dotted_def length_append by simp

section \<open>Socket addresses\<close>

definition AF_UNIX :: int where "AF_UNIX = 1"
definition AF_INET :: int where "AF_INET = 2"
definition AF_INET6 :: int where "AF_INET6 = 10"

lemmas af_defs = AF_UNIX_def AF_INET_def AF_INET6_def

record sockaddr_in =
  sin_family :: int
  sin_port :: "16 word"
  sin_addr :: IPAddress

record sockaddr_in6 =
  sin6_family :: int
  sin6_port :: "16 word"
  sin6_addr :: "128 word"
  sin6_flowinfo :: "32 word"
  sin6_scope_id :: "32 word"

text \<open>\<open>sun_path\<close> is the bytes of the array that the holder of the address provides.\<close>

record sockaddr_un =
  sun_family :: int
  sun_path :: string

datatype sockaddr =
    Sockaddr_in sockaddr_in
  | Sockaddr_in6 sockaddr_in6
  | Sockaddr_un sockaddr_un
  | Sockaddr_other int

fun sa_family :: "sockaddr \<Rightarrow> int" where
  "sa_family (Sockaddr_in a) = sin_family a"
| "sa_family (Sockaddr_in6 a) = sin6_family a"
| "sa_family (Sockaddr_un a) = sun_family a"
| "sa_family (Sockaddr_other f) = f"

section \<open>Endpoints\<close>

record IPEndPoint =
  ip_addressFamily :: int
  ip_address :: IPAddress
  ip_port :: "16 word"

record IPv6EndPoint =
  ip6_addressFamily :: int
  ip6_address :: "128 word"
  ip6_port :: "16 word"
  ip6_flowInfo :: "32 word"
  ip6_scopeID :: "32 word"

record UNIXEndPoint =
  un_addressFamily :: int
  un_name :: string

text \<open>
  The setters return \<open>None\<close> for undefined behaviour (an address whose family does not fit
  its layout, a path without a null byte), else an exception or the new object.
\<close>

definition wrong_family :: "string \<Rightarrow> string \<Rightarrow> exn" where
  "wrong_family cls fam = CPoll_exception (''attemting to set the address of an '' @ cls @
     '' to a sockaddr that is not '' @ fam) 0"

definition clone_message :: exn where
  "clone_message = CPoll_exception
     ''attempting to clone an EndPoint to another EndPoint with a different addressFamily'' 0"

definition IPEndPoint_make :: "IPAddress \<Rightarrow> 16 word \<Rightarrow> IPEndPoint" where
  "IPEndPoint_make a p = \<lparr>ip_addressFamily = AF_INET, ip_address = a, ip_port = p\<rparr>"

definition IPEndPoint_set_addr :: "bool \<Rightarrow> sockaddr_in \<Rightarrow> IPEndPoint \<Rightarrow> IPEndPoint" where
  "IPEndPoint_set_addr le a e = e\<lparr>ip_addressFamily := AF_INET, ip_address := sin_addr a,
     ip_port := ntohs le (sin_port a)\<rparr>"

definition IPEndPoint_setSockAddr :: "bool \<Rightarrow> sockaddr \<Rightarrow> IPEndPoint \<Rightarrow> (exn + IPEndPoint) option" where
  "IPEndPoint_setSockAddr le a e =
     (if sa_family a \<noteq> AF_INET then Some (Inl (wrong_family ''IPEndPoint'' ''AF_INET''))
      else case a of Sockaddr_in b \<Rightarrow> Some (Inr (IPEndPoint_set_addr le b e)) | _ \<Rightarrow> None)"

definition IPEndPoint_getSockAddr :: "bool \<Rightarrow> IPEndPoint \<Rightarrow> sockaddr" where
  "IPEndPoint_getSockAddr le e = Sockaddr_in
     \<lparr>sin_family = AF_INET, sin_port = htons le (ip_port e), sin_addr = ip_address e\<rparr>"

definition IPEndPoint_clone :: "IPEndPoint \<Rightarrow> IPEndPoint \<Rightarrow> exn + IPEndPoint" where
  "IPEndPoint_clone e to =
     (if ip_addressFamily to \<noteq> ip_addressFamily e then Inl clone_message
      else Inr (to\<lparr>ip_address := ip_address e, ip_port := ip_port e\<rparr>))"

definition IPEndPoint_toStr :: "bool \<Rightarrow> exn \<Rightarrow> IPEndPoint \<Rightarrow> exn + string" where
  "IPEndPoint_toStr le err e = (case IPAddress_toStr le err (ip_address e) of
      Inl x \<Rightarrow> Inl x | Inr s \<Rightarrow> Inr (s @ '':'' @ dec_digits (unat (ip_port e))))"

definition IPv6EndPoint_make :: "128 word \<Rightarrow> 16 word \<Rightarrow> 32 word \<Rightarrow> 32 word \<Rightarrow> IPv6EndPoint" where
  "IPv6EndPoint_make a p fl sc = \<lparr>ip6_addressFamily = AF_INET6, ip6_address = a, ip6_port = p,
     ip6_flowInfo = fl, ip6_scopeID = sc\<rparr>"

definition IPv6EndPoint_set_addr :: "bool \<Rightarrow> sockaddr_in6 \<Rightarrow> IPv6EndPoint \<Rightarrow> IPv6EndPoint" where
  "IPv6EndPoint_set_addr le a e = e\<lparr>ip6_addressFamily := AF_INET6, ip6_address := sin6_addr a,
     ip6_port := ntohs le (sin6_port a), ip6_flowInfo := sin6_flowinfo a, ip6_scopeID := sin6_scope_id a\<rparr>"

definition IPv6EndPoint_setSockAddr ::
  "bool \<Rightarrow> sockaddr \<Rightarrow> IPv6EndPoint \<Rightarrow> (exn + IPv6EndPoint) option" where
  "IPv6EndPoint_setSockAddr le a e =
     (if sa_family a \<noteq> AF_INET6 then Some (Inl (wrong_family ''IPv6EndPoint'' ''AF_INET6''))
      else case a of Sockaddr_in6 b \<Rightarrow> Some (Inr (IPv6EndPoint_set_addr le b e)) | _ \<Rightarrow> None)"

definition IPv6EndPoint_getSockAddr :: "bool \<Rightarrow> IPv6EndPoint \<Rightarrow> sockaddr" where
  "IPv6EndPoint_getSockAddr le e = Sockaddr_in6
     \<lparr>sin6_family = AF_INET6, sin6_port = htons le (ip6_port e), sin6_addr = ip6_address e,
      sin6_flowinfo = ip6_flowInfo e, sin6_scope_id = ip6_scopeID e\<rparr>"

definition IPv6EndPoint_clone :: "IPv6EndPoint \<Rightarrow> IPv6EndPoint \<Rightarrow> exn + IPv6EndPoint" where
  "IPv6EndPoint_clone e to =
     (if ip6_addressFamily to \<noteq> ip6_addressFamily e then Inl clone_message
      else Inr (to\<lparr>ip6_address := ip6_address e, ip6_port := ip6_port e,
                   ip6_flowInfo := ip6_flowInfo e, ip6_scopeID := ip6_scopeID e\<rparr>))"

definition IPv6EndPoint_toStr ::
  "(128 word \<Rightarrow> string) \<Rightarrow> exn \<Rightarrow> IPv6EndPoint \<Rightarrow> (exn + string) option" where
  "IPv6EndPoint_toStr ntop6 err e = map_option (map_sum id (\<lambda>s.
      ''['' @ s @ '']:'' @ dec_digits (unat (ip6_port e)))) (IPv6Address_toStr ntop6 err (ip6_address e))"

text \<open>
  A path on a UNIX socket. \<open>cstring\<close> reads a null-terminated string; \<open>strncpy\<close> copies up to
  the first null byte and fills the rest of the \<open>n\<close> bytes with null bytes.
\<close>

definition cstring :: "string \<Rightarrow> string option" where
  "cstring s = (if CHR 0x00 \<in> set s then Some (takeWhile (\<lambda>c. c \<noteq> CHR 0x00) s) else None)"

definition strncpy :: "string \<Rightarrow> nat \<Rightarrow> string" where
  "strncpy s n = (let t = takeWhile (\<lambda>c. c \<noteq> CHR 0x00) (take n s)
                  in t @ replicate (n - length t) (CHR 0x00))"

definition UNIXEndPoint_make :: "string \<Rightarrow> UNIXEndPoint" where
  "UNIXEndPoint_make s = \<lparr>un_addressFamily = AF_UNIX, un_name = s\<rparr>"

definition UNIXEndPoint_set_addr :: "sockaddr_un \<Rightarrow> UNIXEndPoint \<Rightarrow> UNIXEndPoint option" where
  "UNIXEndPoint_set_addr a e = map_option (\<lambda>s. e\<lparr>un_addressFamily := AF_UNIX, un_name := s\<rparr>)
     (cstring (sun_path a))"

definition UNIXEndPoint_setSockAddr :: "sockaddr \<Rightarrow> UNIXEndPoint \<Rightarrow> (exn + UNIXEndPoint) option" where
  "UNIXEndPoint_setSockAddr a e =
     (if sa_family a \<noteq> AF_UNIX then Some (Inl (wrong_family ''UNIXEndPoint'' ''AF_UNIX''))
      else case a of Sockaddr_un b \<Rightarrow> map_option Inr (UNIXEndPoint_set_addr b e) | _ \<Rightarrow> None)"

text \<open>The bytes written to \<open>sun_path\<close>: \<open>strncpy\<close> of the name's length and a null byte.\<close>

definition UNIXEndPoint_getSockAddr :: "UNIXEndPoint \<Rightarrow> sockaddr" where
  "UNIXEndPoint_getSockAddr e = Sockaddr_un \<lparr>sun_family = AF_UNIX,
     sun_path = strncpy (un_name e) (length (un_name e)) @ [CHR 0x00]\<rparr>"

definition UNIXEndPoint_clone :: "UNIXEndPoint \<Rightarrow> UNIXEndPoint \<Rightarrow> exn + UNIXEndPoint" where
  "UNIXEndPoint_clone e to =
     (if un_addressFamily to \<noteq> un_addressFamily e then Inl clone_message
      else Inr (to\<lparr>un_name := un_name e\<rparr>))"

definition UNIXEndPoint_toStr :: "UNIXEndPoint \<Rightarrow> string" where
  "UNIXEndPoint_toStr e = un_name e"

section \<open>The contract of the three classes\<close>

text \<open>
  \<open>ok\<close> is the class invariant; \<open>getA\<close> and \<open>setA\<close> are the conversions to and from \<open>sockaddr\<close>.
\<close>

locale endpoint_codec =
  fixes getA :: "'e \<Rightarrow> sockaddr" and setA :: "sockaddr \<Rightarrow> 'e \<Rightarrow> (exn + 'e) option"
    and cloneE :: "'e \<Rightarrow> 'e \<Rightarrow> exn + 'e" and family :: "'e \<Rightarrow> int" and fam :: int and ok :: "'e \<Rightarrow> bool"
  assumes get_family: "sa_family (getA e) = fam"
    and ok_family: "ok e \<Longrightarrow> family e = fam"
    and set_get: "ok e \<Longrightarrow> setA (getA e) e' = Some (Inr e)"
    and set_ok: "setA a e = Some (Inr e') \<Longrightarrow> ok e'"
    and set_other: "sa_family a \<noteq> fam \<Longrightarrow> \<exists>x. setA a e = Some (Inl x)"
    and clone_same: "ok e \<Longrightarrow> ok e' \<Longrightarrow> cloneE e e' = Inr e"
    and clone_other: "family e \<noteq> family e' \<Longrightarrow> cloneE e e' = Inl clone_message"
begin

lemma get_inject: "ok e \<Longrightarrow> ok e' \<Longrightarrow> getA e = getA e' \<Longrightarrow> e = e'"
  by (metis set_get option.inject sum.inject(2))

lemma clone_via_sockaddr: "ok e \<Longrightarrow> ok e' \<Longrightarrow> setA (getA e) e' = Some (cloneE e e')"
  by (simp add: set_get clone_same)

lemma set_stable: "setA a e = Some (Inr e1) \<Longrightarrow> setA (getA e1) e2 = Some (Inr e1)"
  by (simp add: set_get set_ok)

end

definition IPEndPoint_ok :: "IPEndPoint \<Rightarrow> bool" where
  "IPEndPoint_ok e \<longleftrightarrow> ip_addressFamily e = AF_INET"

definition IPv6EndPoint_ok :: "IPv6EndPoint \<Rightarrow> bool" where
  "IPv6EndPoint_ok e \<longleftrightarrow> ip6_addressFamily e = AF_INET6"

definition UNIXEndPoint_ok :: "UNIXEndPoint \<Rightarrow> bool" where
  "UNIXEndPoint_ok e \<longleftrightarrow> un_addressFamily e = AF_UNIX \<and> CHR 0x00 \<notin> set (un_name e)"

lemma takeWhile_no_null: "CHR 0x00 \<notin> set s \<Longrightarrow> takeWhile (\<lambda>c. c \<noteq> CHR 0x00) s = s"
  by (auto simp: takeWhile_eq_all_conv)

lemma takeWhile_null: "takeWhile (\<lambda>c. c \<noteq> CHR 0x00) (s @ [CHR 0x00]) = takeWhile (\<lambda>c. c \<noteq> CHR 0x00) s"
  by (induction s) auto

lemma length_strncpy [simp]: "length (strncpy s n) = n"
proof -
  have "length (takeWhile (\<lambda>c. c \<noteq> CHR 0x00) (take n s)) \<le> n"
    by (rule order.trans [OF length_takeWhile_le]) simp
  then show ?thesis by (simp add: strncpy_def Let_def)
qed

lemma strncpy_no_null: "CHR 0x00 \<notin> set s \<Longrightarrow> strncpy s (length s) = s"
  by (simp add: strncpy_def takeWhile_no_null)

interpretation ip_codec: endpoint_codec "IPEndPoint_getSockAddr le" "IPEndPoint_setSockAddr le"
    IPEndPoint_clone ip_addressFamily AF_INET IPEndPoint_ok for le
  by unfold_locales
    (auto simp: IPEndPoint_getSockAddr_def IPEndPoint_setSockAddr_def IPEndPoint_set_addr_def
      IPEndPoint_clone_def IPEndPoint_ok_def split: sockaddr.splits if_splits)

interpretation ip6_codec: endpoint_codec "IPv6EndPoint_getSockAddr le" "IPv6EndPoint_setSockAddr le"
    IPv6EndPoint_clone ip6_addressFamily AF_INET6 IPv6EndPoint_ok for le
  by unfold_locales
    (auto simp: IPv6EndPoint_getSockAddr_def IPv6EndPoint_setSockAddr_def IPv6EndPoint_set_addr_def
      IPv6EndPoint_clone_def IPv6EndPoint_ok_def split: sockaddr.splits if_splits)

interpretation un_codec: endpoint_codec UNIXEndPoint_getSockAddr UNIXEndPoint_setSockAddr
    UNIXEndPoint_clone un_addressFamily AF_UNIX UNIXEndPoint_ok
  by unfold_locales
    (auto simp: UNIXEndPoint_getSockAddr_def UNIXEndPoint_setSockAddr_def UNIXEndPoint_set_addr_def
      UNIXEndPoint_clone_def UNIXEndPoint_ok_def cstring_def strncpy_no_null takeWhile_no_null
      takeWhile_null split: sockaddr.splits if_splits dest: set_takeWhileD)

section \<open>EndPoint\<close>

text \<open>An object of a class derived from \<open>EndPoint\<close>; the constructor is its dynamic class.\<close>

datatype EndPoint =
    EP_IP IPEndPoint
  | EP_IPv6 IPv6EndPoint
  | EP_UNIX UNIXEndPoint

fun EndPoint_addressFamily :: "EndPoint \<Rightarrow> int" where
  "EndPoint_addressFamily (EP_IP e) = ip_addressFamily e"
| "EndPoint_addressFamily (EP_IPv6 e) = ip6_addressFamily e"
| "EndPoint_addressFamily (EP_UNIX e) = un_addressFamily e"

fun EndPoint_ok :: "EndPoint \<Rightarrow> bool" where
  "EndPoint_ok (EP_IP e) = IPEndPoint_ok e"
| "EndPoint_ok (EP_IPv6 e) = IPv6EndPoint_ok e"
| "EndPoint_ok (EP_UNIX e) = UNIXEndPoint_ok e"

fun EndPoint_getSockAddr :: "bool \<Rightarrow> EndPoint \<Rightarrow> sockaddr" where
  "EndPoint_getSockAddr le (EP_IP e) = IPEndPoint_getSockAddr le e"
| "EndPoint_getSockAddr le (EP_IPv6 e) = IPv6EndPoint_getSockAddr le e"
| "EndPoint_getSockAddr le (EP_UNIX e) = UNIXEndPoint_getSockAddr e"

fun EndPoint_setSockAddr :: "bool \<Rightarrow> sockaddr \<Rightarrow> EndPoint \<Rightarrow> (exn + EndPoint) option" where
  "EndPoint_setSockAddr le a (EP_IP e) = map_option (map_sum id EP_IP) (IPEndPoint_setSockAddr le a e)"
| "EndPoint_setSockAddr le a (EP_IPv6 e) = map_option (map_sum id EP_IPv6) (IPv6EndPoint_setSockAddr le a e)"
| "EndPoint_setSockAddr le a (EP_UNIX e) = map_option (map_sum id EP_UNIX) (UNIXEndPoint_setSockAddr a e)"

text \<open>\<open>sizeof(sockaddr_in)\<close> is 16, \<open>sizeof(sockaddr_in6)\<close> 28, \<open>sizeof(sa_family_t)\<close> 2.\<close>

definition IPEndPoint_getSockAddrSize :: "IPEndPoint \<Rightarrow> int" where
  [simp]: "IPEndPoint_getSockAddrSize e = 16"

definition IPv6EndPoint_getSockAddrSize :: "IPv6EndPoint \<Rightarrow> int" where
  [simp]: "IPv6EndPoint_getSockAddrSize e = 28"

definition UNIXEndPoint_getSockAddrSize :: "UNIXEndPoint \<Rightarrow> int" where
  [simp]: "UNIXEndPoint_getSockAddrSize e = 2 + int (length (un_name e)) + 1"

fun EndPoint_getSockAddrSize :: "EndPoint \<Rightarrow> int" where
  "EndPoint_getSockAddrSize (EP_IP e) = IPEndPoint_getSockAddrSize e"
| "EndPoint_getSockAddrSize (EP_IPv6 e) = IPv6EndPoint_getSockAddrSize e"
| "EndPoint_getSockAddrSize (EP_UNIX e) = UNIXEndPoint_getSockAddrSize e"

text \<open>The number of bytes of an address, up to the end of what has been written to it.\<close>

fun sockaddr_extent :: "sockaddr \<Rightarrow> int" where
  "sockaddr_extent (Sockaddr_in a) = 16"
| "sockaddr_extent (Sockaddr_in6 a) = 28"
| "sockaddr_extent (Sockaddr_un a) = 2 + int (length (sun_path a))"
| "sockaddr_extent (Sockaddr_other f) = 2"

text \<open>
  The constructors without arguments leave the members but \<open>addressFamily\<close> and the \<open>string\<close>
  indeterminate: the parameter \<open>g\<close>. Those from a \<open>sockaddr\<close> call \<open>set_addr\<close>, which sets every member.
\<close>

definition IPEndPoint_new :: "128 word \<Rightarrow> IPEndPoint" where
  [simp]: "IPEndPoint_new g = \<lparr>ip_addressFamily = AF_INET, ip_address = ucast g, ip_port = ucast g\<rparr>"

definition IPv6EndPoint_new :: "128 word \<Rightarrow> IPv6EndPoint" where
  [simp]: "IPv6EndPoint_new g = \<lparr>ip6_addressFamily = AF_INET6, ip6_address = g, ip6_port = ucast g,
     ip6_flowInfo = ucast g, ip6_scopeID = ucast g\<rparr>"

definition UNIXEndPoint_new :: "UNIXEndPoint" where
  [simp]: "UNIXEndPoint_new = \<lparr>un_addressFamily = AF_UNIX, un_name = []\<rparr>"

definition IPEndPoint_of_addr :: "bool \<Rightarrow> sockaddr_in \<Rightarrow> IPEndPoint" where
  [simp]: "IPEndPoint_of_addr le a = IPEndPoint_set_addr le a (IPEndPoint_new 0)"

definition IPv6EndPoint_of_addr :: "bool \<Rightarrow> sockaddr_in6 \<Rightarrow> IPv6EndPoint" where
  [simp]: "IPv6EndPoint_of_addr le a = IPv6EndPoint_set_addr le a (IPv6EndPoint_new 0)"

definition UNIXEndPoint_of_addr :: "sockaddr_un \<Rightarrow> UNIXEndPoint option" where
  [simp]: "UNIXEndPoint_of_addr a = UNIXEndPoint_set_addr a UNIXEndPoint_new"

text \<open>Nothing is left of what the members were before.\<close>

lemma of_addr_members:
  "IPEndPoint_set_addr le a e = IPEndPoint_of_addr le a"
  "IPv6EndPoint_set_addr le b e6 = IPv6EndPoint_of_addr le b"
  "UNIXEndPoint_set_addr c u = UNIXEndPoint_of_addr c"
  by (simp_all add: IPEndPoint_set_addr_def IPv6EndPoint_set_addr_def UNIXEndPoint_set_addr_def)
    (cases u, simp)

text \<open>
  \<open>fromSockAddr\<close> and \<open>create\<close>: \<open>nullptr\<close>, the inner \<open>None\<close>, for a family that the library
  does not know.
\<close>

definition EndPoint_fromSockAddr :: "bool \<Rightarrow> sockaddr \<Rightarrow> EndPoint option option" where
  "EndPoint_fromSockAddr le a =
     (if sa_family a = AF_INET then
        (case a of Sockaddr_in b \<Rightarrow>
           Some (Some (EP_IP (IPEndPoint_of_addr le b))) | _ \<Rightarrow> None)
      else if sa_family a = AF_INET6 then
        (case a of Sockaddr_in6 b \<Rightarrow>
           Some (Some (EP_IPv6 (IPv6EndPoint_of_addr le b))) | _ \<Rightarrow> None)
      else if sa_family a = AF_UNIX then
        (case a of Sockaddr_un b \<Rightarrow>
           map_option (\<lambda>e. Some (EP_UNIX e)) (UNIXEndPoint_of_addr b) | _ \<Rightarrow> None)
      else Some None)"

definition EndPoint_create :: "128 word \<Rightarrow> int \<Rightarrow> EndPoint option" where
  "EndPoint_create g fam =
     (if fam = AF_INET then Some (EP_IP (IPEndPoint_new g))
      else if fam = AF_INET6 then Some (EP_IPv6 (IPv6EndPoint_new g))
      else if fam = AF_UNIX then Some (EP_UNIX UNIXEndPoint_new)
      else None)"

text \<open>
  \<open>lookupHost\<close>: the answer of \<open>getaddrinfo\<close> is a parameter, a status and the list of addresses.
  The outer \<open>None\<close> is undefined behaviour in one of the conversions.
\<close>

fun sequence_options :: "'a option list \<Rightarrow> 'a list option" where
  "sequence_options [] = Some []"
| "sequence_options (None # xs) = None"
| "sequence_options (Some x # xs) = map_option ((#) x) (sequence_options xs)"

definition EndPoint_lookupHost ::
  "bool \<Rightarrow> (int \<Rightarrow> string) \<Rightarrow> int \<times> sockaddr list \<Rightarrow> (exn + EndPoint option list) option" where
  "EndPoint_lookupHost le gai_strerror answer =
     (if fst answer \<noteq> 0 then Some (Inl (CPoll_exception (gai_strerror (fst answer)) 0))
      else map_option Inr (sequence_options (map (EndPoint_fromSockAddr le) (snd answer))))"

lemma fromSockAddr_getSockAddr:
  "EndPoint_ok e \<Longrightarrow> EndPoint_fromSockAddr le (EndPoint_getSockAddr le e) = Some (Some e)"
  by (cases e)
    (simp_all add: EndPoint_fromSockAddr_def IPEndPoint_getSockAddr_def IPv6EndPoint_getSockAddr_def
      UNIXEndPoint_getSockAddr_def IPEndPoint_set_addr_def IPv6EndPoint_set_addr_def
      UNIXEndPoint_set_addr_def UNIXEndPoint_make_def IPEndPoint_make_def IPv6EndPoint_make_def
      IPEndPoint_ok_def IPv6EndPoint_ok_def UNIXEndPoint_ok_def cstring_def strncpy_no_null
      takeWhile_no_null takeWhile_null af_defs)

lemma getSockAddr_extent: "sockaddr_extent (EndPoint_getSockAddr le e) = EndPoint_getSockAddrSize e"
  by (cases e) (simp_all add: IPEndPoint_getSockAddr_def IPv6EndPoint_getSockAddr_def
      UNIXEndPoint_getSockAddr_def)

end
