(* ===== verification/CPoll_Machine.thy ===== *)
theory CPoll_Machine
  imports CPoll_Address
begin

text \<open>
  The data of src/include/cpoll-ng/cpoll.H and the machine it lives in: the objects derived
  from \<open>FD\<close> by address, \<open>errno\<close>, the arrays of \<open>iovec\<close> in the user's memory, and the rest
  of the world (the kernel, all other memory, the user's own state) as a type variable.
  The kernel and the user's callbacks are parameters, bundled in a record \<open>env\<close>.
\<close>

section \<open>Operations\<close>

datatype Operations =
    Op_none
  | Op_read | Op_write | Op_send | Op_recv | Op_readv | Op_writev | Op_sendFileFrom | Op_wait
  | Op_readAll | Op_writeAll | Op_sendAll | Op_recvAll | Op_readvAll | Op_writevAll
  | Op_sendTo | Op_recvFrom
  | Op_accept | Op_connect | Op_close | Op_lastItem

text \<open>The enumerators' values: \<open>none = 0, read = 1\<close> and then consecutive.\<close>

fun op_code :: "Operations \<Rightarrow> nat" where
  "op_code Op_none = 0"
| "op_code Op_read = 1"
| "op_code Op_write = 2"
| "op_code Op_send = 3"
| "op_code Op_recv = 4"
| "op_code Op_readv = 5"
| "op_code Op_writev = 6"
| "op_code Op_sendFileFrom = 7"
| "op_code Op_wait = 8"
| "op_code Op_readAll = 9"
| "op_code Op_writeAll = 10"
| "op_code Op_sendAll = 11"
| "op_code Op_recvAll = 12"
| "op_code Op_readvAll = 13"
| "op_code Op_writevAll = 14"
| "op_code Op_sendTo = 15"
| "op_code Op_recvFrom = 16"
| "op_code Op_accept = 17"
| "op_code Op_connect = 18"
| "op_code Op_close = 19"
| "op_code Op_lastItem = 20"

lemma op_code_inj: "op_code a = op_code b \<Longrightarrow> a = b"
  by (cases a; cases b) simp_all

text \<open>The code compares operations with \<open>>=\<close> and \<open><=\<close>; the order is that of the values.\<close>

instantiation Operations :: linorder
begin

definition less_eq_Operations :: "Operations \<Rightarrow> Operations \<Rightarrow> bool" where
  "less_eq_Operations a b \<longleftrightarrow> op_code a \<le> op_code b"

definition less_Operations :: "Operations \<Rightarrow> Operations \<Rightarrow> bool" where
  "less_Operations a b \<longleftrightarrow> op_code a < op_code b"

instance
  by standard (auto simp: less_eq_Operations_def less_Operations_def intro: op_code_inj)

end

text \<open>The three groups that \<open>doOperation\<close> and \<open>handleHup\<close> distinguish by their range.\<close>

abbreviation is_ordinary :: "Operations \<Rightarrow> bool" where
  "is_ordinary opr \<equiv> Op_read \<le> opr \<and> opr \<le> Op_wait"

abbreviation is_all :: "Operations \<Rightarrow> bool" where
  "is_all opr \<equiv> Op_readAll \<le> opr \<and> opr \<le> Op_writevAll"

lemma is_ordinary_cases:
  "is_ordinary opr \<longleftrightarrow>
     opr \<in> {Op_read, Op_write, Op_send, Op_recv, Op_readv, Op_writev, Op_sendFileFrom, Op_wait}"
  by (cases opr) (simp_all add: less_eq_Operations_def)

lemma is_all_cases:
  "is_all opr \<longleftrightarrow>
     opr \<in> {Op_readAll, Op_writeAll, Op_sendAll, Op_recvAll, Op_readvAll, Op_writevAll}"
  by (cases opr) (simp_all add: less_eq_Operations_def)

section \<open>Objects\<close>

type_synonym ptr = nat

text \<open>\<open>struct iovec\<close>, and the members of the union \<open>OperationInfo::info\<close> that live code uses.\<close>

record iovec =
  iov_base :: addr
  iov_len :: int

record rw_info =
  rw_buf :: addr
  rw_len :: int
  rw_lenDone :: int
  rw_flags :: int

record rwv_info =
  rwv_iov :: addr
  rwv_iovcnt :: int
  rwv_lenTotal :: int
  rwv_lenDone :: int

record sendfile_info =
  sf_offset :: int
  sf_fd :: int
  sf_len :: int

text \<open>
  \<open>struct OperationInfo\<close>. The callback is an identifier of user code; an empty
  \<open>std::function\<close> is \<open>None\<close>. The union's members are kept apart: no code reads a member
  other than the one written last, except the stale \<open>flags\<close> of \<open>recvAll\<close> and \<open>sendAll\<close>.
\<close>

record 'cb OperationInfo =
  op_cb :: "'cb option"
  readWrite :: rw_info
  readWriteV :: rwv_info
  sendFile :: sendfile_info
  operation :: Operations
  repeating :: bool
  skipSynchronousAttempt :: bool

text \<open>\<open>pendingOps[0]\<close> is the reading slot, \<open>pendingOps[1]\<close> the writing slot.\<close>

datatype slot = Rd | Wr

record 'cb File =
  fd :: int
  pendingOps :: "slot \<Rightarrow> 'cb OperationInfo"

record timespec =
  tv_sec :: int
  tv_nsec :: int

record 'cb Timer =
  timer_fd :: int
  timer_cb :: "'cb option"
  interval :: timespec

record epoll_event =
  ev_events :: "32 word"
  ev_ptr :: ptr

record EPoll =
  epoll_fd :: int
  currCycleNotifications :: "epoll_event list"
  currCycleNotificationsCount :: int

text \<open>The dynamic class of an object decides which \<open>dispatch\<close> a virtual call runs.\<close>

datatype 'cb fd_object =
    File_object "'cb File"
  | Socket_object "'cb File"
  | Timer_object "'cb Timer"
  | EPoll_object EPoll

record ('w, 'cb) machine =
  heap :: "ptr \<Rightarrow> 'cb fd_object option"
  errno :: int
  iovs :: "addr \<Rightarrow> iovec"
  world :: 'w

section \<open>Kernel and user code\<close>

datatype syscall =
    Sys_read int addr int
  | Sys_write int addr int
  | Sys_readv int "iovec list"
  | Sys_writev int "iovec list"
  | Sys_send int addr int int
  | Sys_recv int addr int int
  | Sys_sendfile int int "int option" int
  | Sys_accept int
  | Sys_accept4 int int
  | Sys_poll_out int
  | Sys_close int
  | Sys_open string int int
  | Sys_fcntl_getfl int
  | Sys_fcntl_setfl int "32 word"
  | Sys_epoll_create int
  | Sys_epoll_add int int "32 word" ptr
  | Sys_epoll_del int int
  | Sys_timerfd_create int int
  | Sys_timerfd_settime int timespec timespec
  | Sys_sigaction int bool
  | Sys_socket int int int
  | Sys_bind int sockaddr int
  | Sys_connect int sockaddr int
  | Sys_listen int int
  | Sys_shutdown int int
  | Sys_setsockopt int int
  | Sys_sendto int addr int int sockaddr int

text \<open>
  \<open>sys\<close> gives a call's result, the value it leaves in \<open>errno\<close> if it sets it, and the new
  world. The next five are calls with an output besides the result: the events of
  \<open>epoll_wait\<close>, the \<open>SO_ERROR\<close> value, the expiration count of a timer, its setting, and the
  local or peer address. \<open>host_answer\<close> is the answer of \<open>getaddrinfo\<close>.
  \<open>usr\<close> is the body of the user's callbacks: it may do anything to the machine, also
  call back into the library, delete objects, throw, or not return.
\<close>

record ('w, 'cb) env =
  sys :: "syscall \<Rightarrow> 'w \<Rightarrow> (int \<times> int option) \<times> 'w"
  sys_epoll_wait :: "int \<Rightarrow> int \<Rightarrow> int \<Rightarrow> 'w \<Rightarrow> (int \<times> int option \<times> epoll_event list) \<times> 'w"
  sys_so_error :: "int \<Rightarrow> 'w \<Rightarrow> (int \<times> int option \<times> int) \<times> 'w"
  sys_timer_read :: "int \<Rightarrow> 'w \<Rightarrow> (int \<times> int option \<times> int) \<times> 'w"
  sys_timer_gettime :: "int \<Rightarrow> 'w \<Rightarrow> (int \<times> int option \<times> timespec) \<times> 'w"
  sys_sockname :: "bool \<Rightarrow> int \<Rightarrow> 'w \<Rightarrow> (int \<times> int option \<times> sockaddr \<times> int) \<times> 'w"
  sys_recvfrom :: "int \<Rightarrow> addr \<Rightarrow> int \<Rightarrow> int \<Rightarrow> int \<Rightarrow> 'w \<Rightarrow> (int \<times> int option \<times> sockaddr) \<times> 'w"
  host_answer :: "string \<Rightarrow> string \<Rightarrow> int \<Rightarrow> int \<Rightarrow> int \<Rightarrow> 'w \<Rightarrow> (int \<times> sockaddr list) \<times> 'w"
  little_endian :: bool
  uninitialised :: "128 word"
  strerror :: "int \<Rightarrow> string"
  gai_strerror :: "int \<Rightarrow> string"
  usr :: "'cb \<Rightarrow> int \<Rightarrow> ('w, 'cb) machine \<Rightarrow> (unit, ('w, 'cb) machine) result"

definition set_errno :: "int option \<Rightarrow> ('w, 'cb) machine \<Rightarrow> ('w, 'cb) machine" where
  "set_errno e m = (case e of None \<Rightarrow> m | Some x \<Rightarrow> m\<lparr>errno := x\<rparr>)"

definition run_call ::
  "('w, 'cb) env \<Rightarrow> syscall \<Rightarrow> ('w, 'cb) machine \<Rightarrow> int \<times> ('w, 'cb) machine" where
  "run_call E c m =
     (case sys E c (world m) of ((r, e), w) \<Rightarrow> (r, set_errno e (m\<lparr>world := w\<rparr>)))"

text \<open>A call with an output.\<close>

definition run_out ::
  "('w \<Rightarrow> (int \<times> int option \<times> 'o) \<times> 'w) \<Rightarrow> ('w, 'cb) machine \<Rightarrow> int \<times> 'o \<times> ('w, 'cb) machine" where
  "run_out k m = (case k (world m) of ((r, e, out), w) \<Rightarrow> (r, out, set_errno e (m\<lparr>world := w\<rparr>)))"

text \<open>Calling a \<open>Callback\<close>: an empty \<open>std::function\<close> throws \<open>bad_function_call\<close>.\<close>

definition invoke ::
  "('w, 'cb) env \<Rightarrow> 'cb option \<Rightarrow> int \<Rightarrow> ('w, 'cb) machine \<Rightarrow> (unit, ('w, 'cb) machine) result"
where
  "invoke E c r m = (case c of None \<Rightarrow> Some (Throw Bad_function_call m) | Some k \<Rightarrow> usr E k r m)"

lemma invoke_simps [simp]:
  "invoke E None r m = Some (Throw Bad_function_call m)"
  "invoke E (Some k) r m = usr E k r m"
  by (simp_all add: invoke_def)

text \<open>\<open>errno\<close> values of Linux; \<open>EWOULDBLOCK\<close> and \<open>EAGAIN\<close> are the same number there.\<close>

definition ENOENT :: int where "ENOENT = 2"
definition EINTR :: int where "EINTR = 4"
definition EAGAIN :: int where "EAGAIN = 11"
definition EWOULDBLOCK :: int where "EWOULDBLOCK = 11"
definition EPIPE :: int where "EPIPE = 32"
definition EINPROGRESS :: int where "EINPROGRESS = 115"

definition isWouldBlock :: "('w, 'cb) machine \<Rightarrow> bool" where
  "isWouldBlock m \<longleftrightarrow> errno m = EWOULDBLOCK \<or> errno m = EAGAIN"

definition EPOLLIN :: "32 word" where "EPOLLIN = 1"
definition EPOLLOUT :: "32 word" where "EPOLLOUT = 4"
definition EPOLLERR :: "32 word" where "EPOLLERR = 8"
definition EPOLLHUP :: "32 word" where "EPOLLHUP = 16"
definition EPOLLET :: "32 word" where "EPOLLET = 2147483648"

lemmas errno_defs = ENOENT_def EINTR_def EAGAIN_def EWOULDBLOCK_def EPIPE_def EINPROGRESS_def
lemmas epoll_defs = EPOLLIN_def EPOLLOUT_def EPOLLERR_def EPOLLHUP_def EPOLLET_def

section \<open>Access to objects\<close>

definition file_at :: "('w, 'cb) machine \<Rightarrow> ptr \<Rightarrow> 'cb File option" where
  "file_at m this = (case heap m this of
      Some (File_object f) \<Rightarrow> Some f
    | Some (Socket_object f) \<Rightarrow> Some f
    | _ \<Rightarrow> None)"

definition put_file :: "ptr \<Rightarrow> 'cb File \<Rightarrow> ('w, 'cb) machine \<Rightarrow> ('w, 'cb) machine" where
  "put_file this f m = (case heap m this of
      Some (File_object _) \<Rightarrow> m\<lparr>heap := (heap m)(this \<mapsto> File_object f)\<rparr>
    | Some (Socket_object _) \<Rightarrow> m\<lparr>heap := (heap m)(this \<mapsto> Socket_object f)\<rparr>
    | _ \<Rightarrow> m)"

definition op_at :: "('w, 'cb) machine \<Rightarrow> ptr \<Rightarrow> slot \<Rightarrow> 'cb OperationInfo option" where
  "op_at m this s = map_option (\<lambda>f. pendingOps f s) (file_at m this)"

definition put_op :: "ptr \<Rightarrow> slot \<Rightarrow> 'cb OperationInfo \<Rightarrow> ('w, 'cb) machine \<Rightarrow> ('w, 'cb) machine" where
  "put_op this s opn m = (case file_at m this of
      None \<Rightarrow> m
    | Some f \<Rightarrow> put_file this (f\<lparr>pendingOps := (pendingOps f)(s := opn)\<rparr>) m)"

text \<open>Access through a reference to an operation of an object: a fault if the object is gone.\<close>

definition with_op ::
  "ptr \<Rightarrow> slot \<Rightarrow> ('w, 'cb) machine \<Rightarrow> ('cb OperationInfo \<Rightarrow> ('a, ('w, 'cb) machine) result) \<Rightarrow>
     ('a, ('w, 'cb) machine) result" where
  "with_op this s m k = (case op_at m this s of None \<Rightarrow> Some (Fault Bad_pointer) | Some opn \<Rightarrow> k opn)"

definition with_file ::
  "ptr \<Rightarrow> ('w, 'cb) machine \<Rightarrow> ('cb File \<Rightarrow> ('a, ('w, 'cb) machine) result) \<Rightarrow>
     ('a, ('w, 'cb) machine) result" where
  "with_file this m k = (case file_at m this of None \<Rightarrow> Some (Fault Bad_pointer) | Some f \<Rightarrow> k f)"

lemma with_op_mono [partial_function_mono]:
  "(\<And>opn. mono_option (\<lambda>f. C opn f)) \<Longrightarrow> mono_option (\<lambda>f. with_op this s m (\<lambda>opn. C opn f))"
  by (cases "op_at m this s") (simp_all add: with_op_def option.const_mono)

lemma with_file_mono [partial_function_mono]:
  "(\<And>fl. mono_option (\<lambda>f. C fl f)) \<Longrightarrow> mono_option (\<lambda>f. with_file this m (\<lambda>fl. C fl f))"
  by (cases "file_at m this") (simp_all add: with_file_def option.const_mono)

text \<open>Deleting an object.\<close>

definition free_object :: "ptr \<Rightarrow> ('w, 'cb) machine \<Rightarrow> ('w, 'cb) machine" where
  "free_object p m = m\<lparr>heap := (heap m)(p := None)\<rparr>"

lemma file_at_put_file [simp]:
  "file_at (put_file this f m) that =
     (if that = this \<and> file_at m this \<noteq> None then Some f else file_at m that)"
  by (auto simp: file_at_def put_file_def split: option.splits fd_object.splits)

lemma put_file_frame [simp]:
  "errno (put_file this f m) = errno m"
  "iovs (put_file this f m) = iovs m"
  "world (put_file this f m) = world m"
  by (auto simp: put_file_def split: option.splits fd_object.splits)

lemma put_op_frame [simp]:
  "errno (put_op this s opn m) = errno m"
  "iovs (put_op this s opn m) = iovs m"
  "world (put_op this s opn m) = world m"
  by (auto simp: put_op_def split: option.splits)

lemma op_at_put_op [simp]:
  "op_at (put_op this s opn m) that s' =
     (if that = this \<and> s' = s \<and> op_at m this s \<noteq> None then Some opn else op_at m that s')"
  by (auto simp: op_at_def put_op_def split: option.splits)

lemma file_at_heap: "heap m1 = heap m \<Longrightarrow> file_at m1 p = file_at m p"
  by (simp add: file_at_def)

lemma op_at_heap: "heap m1 = heap m \<Longrightarrow> op_at m1 p s = op_at m p s"
  by (simp add: op_at_def file_at_def)

lemma file_at_put_op:
  "file_at (put_op this s opn m) that =
     (if that = this then map_option (\<lambda>f. f\<lparr>pendingOps := (pendingOps f)(s := opn)\<rparr>) (file_at m this)
      else file_at m that)"
  by (auto simp: put_op_def split: option.splits)

lemma put_file_put_file [simp]: "put_file this g (put_file this f m) = put_file this g m"
  by (auto simp: put_file_def split: option.splits fd_object.splits)

lemma put_op_put_op [simp]: "put_op this s b (put_op this s a m) = put_op this s b m"
  by (auto simp: put_op_def split: option.splits)

lemma heap_put_op_other [simp]: "p \<noteq> this \<Longrightarrow> heap (put_op this s opn m) p = heap m p"
  by (auto simp: put_op_def put_file_def split: option.splits fd_object.splits)

lemma op_at_None_iff: "op_at m this s = None \<longleftrightarrow> file_at m this = None"
  by (simp add: op_at_def)

lemma file_at_updates [simp]:
  "file_at (m\<lparr>errno := e\<rparr>) this = file_at m this"
  "file_at (m\<lparr>world := w\<rparr>) this = file_at m this"
  "file_at (m\<lparr>iovs := i\<rparr>) this = file_at m this"
  by (simp_all add: file_at_def)

lemma op_at_updates [simp]:
  "op_at (m\<lparr>errno := e\<rparr>) this s = op_at m this s"
  "op_at (m\<lparr>world := w\<rparr>) this s = op_at m this s"
  "op_at (m\<lparr>iovs := i\<rparr>) this s = op_at m this s"
  by (simp_all add: op_at_def)

lemma set_errno_frame [simp]:
  "heap (set_errno e m) = heap m"
  "iovs (set_errno e m) = iovs m"
  "world (set_errno e m) = world m"
  "file_at (set_errno e m) this = file_at m this"
  "op_at (set_errno e m) this s = op_at m this s"
  by (simp_all add: set_errno_def split: option.split)

lemma run_call_frame:
  assumes "run_call E c m = (r, m')"
  shows "heap m' = heap m" and "iovs m' = iovs m"
    and "file_at m' this = file_at m this" and "op_at m' this s = op_at m this s"
  using assms by (auto simp: run_call_def split: prod.splits)

lemma run_out_frame:
  assumes "run_out k m = (r, out, m')"
  shows "heap m' = heap m" and "iovs m' = iovs m"
    and "file_at m' this = file_at m this" and "op_at m' this s = op_at m this s"
  using assms by (auto simp: run_out_def split: prod.splits)

lemma free_object_simps [simp]:
  "heap (free_object p m) = (heap m)(p := None)"
  "errno (free_object p m) = errno m"
  "world (free_object p m) = world m"
  "file_at (free_object p m) q = (if q = p then None else file_at m q)"
  by (simp_all add: free_object_def file_at_def)

section \<open>References to events\<close>

text \<open>
  \<open>dispatch\<close> takes its events by reference; the reference is an entry of the notification
  array of an \<open>EPoll\<close> object, which user code changes when it calls \<open>EPoll::remove\<close>.
\<close>

datatype evref = Notification ptr nat

definition epoll_at :: "('w, 'cb) machine \<Rightarrow> ptr \<Rightarrow> EPoll option" where
  "epoll_at m p = (case heap m p of Some (EPoll_object e) \<Rightarrow> Some e | _ \<Rightarrow> None)"

fun events_at :: "('w, 'cb) machine \<Rightarrow> evref \<Rightarrow> 32 word option" where
  "events_at m (Notification p i) = (case epoll_at m p of
      None \<Rightarrow> None
    | Some e \<Rightarrow> (if i < length (currCycleNotifications e)
                 then Some (ev_events (currCycleNotifications e ! i)) else None))"

definition with_events ::
  "evref \<Rightarrow> ('w, 'cb) machine \<Rightarrow> (32 word \<Rightarrow> ('a, ('w, 'cb) machine) result) \<Rightarrow>
     ('a, ('w, 'cb) machine) result" where
  "with_events ref m k = (case events_at m ref of None \<Rightarrow> Some (Fault Bad_pointer) | Some ev \<Rightarrow> k ev)"

lemma epoll_at_put_op [simp]: "epoll_at (put_op this s opn m) p = epoll_at m p"
  by (auto simp: epoll_at_def put_op_def put_file_def split: option.splits fd_object.splits)

lemma events_at_put_op [simp]: "events_at (put_op this s opn m) ref = events_at m ref"
  by (cases ref) simp

end
