(* ===== verification/CPoll_File.thy ===== *)
theory CPoll_File
  imports CPoll_Machine
begin

text \<open>
  The event side of \<open>File\<close> (src/cpoll.C): \<open>doOperation\<close> performs a pending operation when
  the descriptor is ready, \<open>handleHup\<close> ends it when the peer is gone, and \<open>dispatch\<close>
  chooses between them for both slots.
\<close>

unbundle bit_operations_syntax

section \<open>Definitions\<close>

datatype OperationResult = CONTINUE | DONE | DONE_PERMANENT

text \<open>\<open>iov_slice m iov n\<close>: the \<open>n\<close> entries of the user's array that the kernel reads.\<close>

definition iov_slice :: "('w, 'cb) machine \<Rightarrow> addr \<Rightarrow> int \<Rightarrow> iovec list" where
  "iov_slice m iov n = map (\<lambda>i. iovs m (iov + int i)) [0..<nat n]"

text \<open>
  The first \<open>switch\<close> of \<open>doOperation\<close>: the system call of an ordinary operation with the
  requested length \<open>myLen\<close>. \<open>wait\<close> makes no call and counts as a result of 0.
  \<open>None\<close> is the failing assertion of the default case.
\<close>

definition ordinary_attempt ::
  "('w, 'cb) env \<Rightarrow> int \<Rightarrow> 'cb OperationInfo \<Rightarrow> ('w, 'cb) machine \<Rightarrow>
     (int \<times> int \<times> ('w, 'cb) machine) option" where
  "ordinary_attempt E d opn m =
    (let rwInfo = readWrite opn; rwVInfo = readWriteV opn; sfInfo = sendFile opn;
         attempt = (\<lambda>c myLen. case run_call E c m of (r, m') \<Rightarrow> Some (r, myLen, m'))
     in case operation opn of
       Op_read \<Rightarrow> attempt (Sys_read d (rw_buf rwInfo) (rw_len rwInfo)) (rw_len rwInfo)
     | Op_write \<Rightarrow> attempt (Sys_write d (rw_buf rwInfo) (rw_len rwInfo)) (rw_len rwInfo)
     | Op_recv \<Rightarrow>
         attempt (Sys_recv d (rw_buf rwInfo) (rw_len rwInfo) (rw_flags rwInfo)) (rw_len rwInfo)
     | Op_send \<Rightarrow>
         attempt (Sys_send d (rw_buf rwInfo) (rw_len rwInfo) (rw_flags rwInfo)) (rw_len rwInfo)
     | Op_readv \<Rightarrow>
         attempt (Sys_readv d (iov_slice m (rwv_iov rwVInfo) (rwv_iovcnt rwVInfo))) (rwv_lenTotal rwVInfo)
     | Op_writev \<Rightarrow>
         attempt (Sys_writev d (iov_slice m (rwv_iov rwVInfo) (rwv_iovcnt rwVInfo))) (rwv_lenTotal rwVInfo)
     | Op_sendFileFrom \<Rightarrow>
         attempt (Sys_sendfile d (sf_fd sfInfo)
           (if sf_offset sfInfo < 0 then None else Some (sf_offset sfInfo)) (sf_len sfInfo)) (sf_len sfInfo)
     | Op_wait \<Rightarrow> Some (0, 0, m)
     | _ \<Rightarrow> None)"

text \<open>
  The block for ordinary operations, from \<open>repeat1\<close> on. The result \<open>None\<close> inside \<open>ret\<close> is
  falling out of the block (the user cancelled a repeated operation). The callback runs with
  the machine as the code has left it, and \<open>op\<close> is read again only in the repeat branch.
\<close>

partial_function (option) ordinary_block ::
  "('w, 'cb) env \<Rightarrow> ptr \<Rightarrow> slot \<Rightarrow> bool \<Rightarrow> bool \<Rightarrow> Operations \<Rightarrow> ('w, 'cb) machine \<Rightarrow>
     (OperationResult option, ('w, 'cb) machine) result" where
  "ordinary_block E this s isWrite hup opType m =
    with_file this m (\<lambda>f.
    with_op this s m (\<lambda>opn.
      case ordinary_attempt E (fd f) opn m of
        None \<Rightarrow> Some (Fault Assertion_failed)
      | Some (r, myLen, m1) \<Rightarrow>
        if r < 0 \<and> isWouldBlock m1 then ret (Some CONTINUE) m1
        else if r \<le> 0 then
          obind (invoke E (op_cb opn) r (put_op this s (opn\<lparr>operation := Op_none\<rparr>) m1))
            (\<lambda>_ m2. ret (Some DONE_PERMANENT) m2)
        else
          (let shortRead = (r < myLen) in
           if repeating opn then
             obind (invoke E (op_cb opn) r m1) (\<lambda>_ m2.
               with_op this s m2 (\<lambda>opn2.
                 if operation opn2 = opType then
                   if hup then
                     obind (invoke E (op_cb opn2) (if isWrite then -1 else 0)
                        ((put_op this s (opn2\<lparr>operation := Op_none\<rparr>) m2)
                           \<lparr>errno := (if isWrite then EPIPE else 0)\<rparr>))
                       (\<lambda>_ m3. ret (Some DONE_PERMANENT) m3)
                   else if shortRead then ret (Some CONTINUE) m2
                   else ordinary_block E this s isWrite hup opType m2
                 else if shortRead \<and> \<not> hup then
                   ret None (put_op this s (opn2\<lparr>skipSynchronousAttempt := True\<rparr>) m2)
                 else ret None m2))
           else
             (let opn1 = opn\<lparr>operation := Op_none\<rparr>;
                  opn2 = (if shortRead \<and> \<not> hup then opn1\<lparr>skipSynchronousAttempt := True\<rparr> else opn1)
              in obind (invoke E (op_cb opn) r (put_op this s opn2 m1))
                   (\<lambda>_ m2. ret (Some DONE) m2)))))"

text \<open>The system call of a \<open>*All\<close> operation: what is left of the buffer, or the array as it is now.\<close>

definition all_attempt ::
  "('w, 'cb) env \<Rightarrow> int \<Rightarrow> 'cb OperationInfo \<Rightarrow> ('w, 'cb) machine \<Rightarrow>
     (int \<times> ('w, 'cb) machine) option" where
  "all_attempt E d opn m =
    (let rwInfo = readWrite opn; rwVInfo = readWriteV opn;
         b = rw_buf rwInfo + rw_lenDone rwInfo; n = s32 (rw_len rwInfo - rw_lenDone rwInfo)
     in case operation opn of
       Op_readAll \<Rightarrow> Some (run_call E (Sys_read d b n) m)
     | Op_writeAll \<Rightarrow> Some (run_call E (Sys_write d b n) m)
     | Op_sendAll \<Rightarrow> Some (run_call E (Sys_send d b n (rw_flags rwInfo)) m)
     | Op_recvAll \<Rightarrow> Some (run_call E (Sys_recv d b n (rw_flags rwInfo)) m)
     | Op_readvAll \<Rightarrow>
         Some (run_call E (Sys_readv d (iov_slice m (rwv_iov rwVInfo) (rwv_iovcnt rwVInfo))) m)
     | Op_writevAll \<Rightarrow>
         Some (run_call E (Sys_writev d (iov_slice m (rwv_iov rwVInfo) (rwv_iovcnt rwVInfo))) m)
     | _ \<Rightarrow> None)"

text \<open>The loop that removes the completed buffers: it returns the new \<open>iov\<close>, \<open>iovcnt\<close> and \<open>r\<close>.\<close>

function skip_completed :: "(addr \<Rightarrow> iovec) \<Rightarrow> addr \<Rightarrow> int \<Rightarrow> int \<Rightarrow> addr \<times> int \<times> int" where
  "skip_completed mem iov iovcnt r =
     (if iovcnt > 0 \<and> iov_len (mem iov) \<le> r
      then skip_completed mem (iov + 1) (iovcnt - 1) (r - iov_len (mem iov))
      else (iov, iovcnt, r))"
  by pat_completeness auto
termination
  by (relation "measure (\<lambda>(mem, iov, iovcnt, r). nat iovcnt)") auto

declare skip_completed.simps [simp del]

text \<open>Then the offset is added to the first remaining buffer, in the user's array.\<close>

definition advance_iov ::
  "(addr \<Rightarrow> iovec) \<Rightarrow> addr \<Rightarrow> int \<Rightarrow> int \<Rightarrow> (addr \<Rightarrow> iovec) \<times> addr \<times> int" where
  "advance_iov mem iov iovcnt r =
     (case skip_completed mem iov iovcnt r of (iov', iovcnt', r') \<Rightarrow>
        (if iovcnt' > 0
         then (mem(iov' := (mem iov')\<lparr>iov_base := iov_base (mem iov') + r',
                                      iov_len := iov_len (mem iov') - r'\<rparr>), iov', iovcnt')
         else (mem, iov', iovcnt')))"

definition is_rwv :: "Operations \<Rightarrow> bool" where
  "is_rwv opr \<longleftrightarrow> opr = Op_readvAll \<or> opr = Op_writevAll"

text \<open>The update of the operation and of the user's array after \<open>r > 0\<close> bytes.\<close>

definition all_record ::
  "'cb OperationInfo \<Rightarrow> int \<Rightarrow> (addr \<Rightarrow> iovec) \<Rightarrow> 'cb OperationInfo \<times> (addr \<Rightarrow> iovec)" where
  "all_record opn r mem =
     (if is_rwv (operation opn) then
        (case advance_iov mem (rwv_iov (readWriteV opn)) (rwv_iovcnt (readWriteV opn)) r of
           (mem', iov', iovcnt') \<Rightarrow>
             (opn\<lparr>readWriteV := (readWriteV opn)\<lparr>rwv_lenDone := s32 (rwv_lenDone (readWriteV opn) + r),
                 rwv_iov := iov', rwv_iovcnt := iovcnt'\<rparr>\<rparr>, mem'))
      else
        (opn\<lparr>readWrite := (readWrite opn)\<lparr>rw_lenDone := s32 (rw_lenDone (readWrite opn) + r)\<rparr>\<rparr>, mem))"

definition op_lenDone :: "'cb OperationInfo \<Rightarrow> int" where
  "op_lenDone opn = (if is_rwv (operation opn) then rwv_lenDone (readWriteV opn)
                     else rw_lenDone (readWrite opn))"

definition op_lenTotal :: "'cb OperationInfo \<Rightarrow> int" where
  "op_lenTotal opn = (if is_rwv (operation opn) then rwv_lenTotal (readWriteV opn)
                      else rw_len (readWrite opn))"

text \<open>The block for \<open>*All\<close> operations.\<close>

definition all_block ::
  "('w, 'cb) env \<Rightarrow> ptr \<Rightarrow> slot \<Rightarrow> bool \<Rightarrow> ('w, 'cb) machine \<Rightarrow>
     (OperationResult, ('w, 'cb) machine) result" where
  "all_block E this s hup m =
    with_file this m (\<lambda>f.
    with_op this s m (\<lambda>opn.
      if repeating opn then Some (Fault Assertion_failed)
      else case all_attempt E (fd f) opn m of
        None \<Rightarrow> Some (Fault Assertion_failed)
      | Some (r, m1) \<Rightarrow>
        if r < 0 \<and> isWouldBlock m1 then ret CONTINUE m1
        else
          (let lenDone = op_lenDone opn; lenTotal = op_lenTotal opn in
           if r \<le> 0 then
             obind (invoke E (op_cb opn) (if lenDone = 0 then r else lenDone)
                 (put_op this s (opn\<lparr>operation := Op_none\<rparr>) m1))
               (\<lambda>_ m2. ret DONE_PERMANENT m2)
           else
             (case all_record opn r (iovs m1) of (opn1, mem') \<Rightarrow>
              let lenDone' = s32 (lenDone + r); m2 = m1\<lparr>iovs := mem'\<rparr> in
              if lenTotal \<le> lenDone' \<or> hup then
                (let opn2 = (if repeating opn1 then opn1 else opn1\<lparr>operation := Op_none\<rparr>);
                     m3 = put_op this s opn2 m2
                 in if op_cb opn2 \<noteq> None
                    then obind (invoke E (op_cb opn2) lenDone' m3) (\<lambda>_ m4. ret DONE m4)
                    else ret DONE m3)
              else ret CONTINUE (put_op this s opn1 m2)))))"

text \<open>\<open>int File::close()\<close>.\<close>

definition File_close ::
  "('w, 'cb) env \<Rightarrow> ptr \<Rightarrow> ('w, 'cb) machine \<Rightarrow> (int, ('w, 'cb) machine) result" where
  "File_close E this m = with_file this m (\<lambda>f.
     case run_call E (Sys_close (fd f)) m of (r, m1) \<Rightarrow> ret r (put_file this (f\<lparr>fd := -1\<rparr>) m1))"

text \<open>The last \<open>switch\<close> of \<open>doOperation\<close>.\<close>

definition other_block ::
  "('w, 'cb) env \<Rightarrow> ptr \<Rightarrow> slot \<Rightarrow> ('w, 'cb) machine \<Rightarrow>
     (OperationResult, ('w, 'cb) machine) result" where
  "other_block E this s m = with_op this s m (\<lambda>opn.
     case operation opn of
       Op_none \<Rightarrow> ret DONE_PERMANENT m
     | Op_close \<Rightarrow>
         obind (File_close E this m) (\<lambda>r m1.
           with_op this s m1 (\<lambda>opn1.
             obind (invoke E (op_cb opn1) r (put_op this s (opn1\<lparr>operation := Op_none\<rparr>) m1))
               (\<lambda>_ m2. ret DONE_PERMANENT m2)))
     | _ \<Rightarrow> Some (Fault Assertion_failed))"

definition all_or_other ::
  "('w, 'cb) env \<Rightarrow> ptr \<Rightarrow> slot \<Rightarrow> bool \<Rightarrow> ('w, 'cb) machine \<Rightarrow>
     (OperationResult, ('w, 'cb) machine) result" where
  "all_or_other E this s hup m = with_op this s m (\<lambda>opn.
     if is_all (operation opn) then all_block E this s hup m else other_block E this s m)"

definition File_doOperation ::
  "('w, 'cb) env \<Rightarrow> ptr \<Rightarrow> slot \<Rightarrow> bool \<Rightarrow> bool \<Rightarrow> ('w, 'cb) machine \<Rightarrow>
     (OperationResult, ('w, 'cb) machine) result" where
  "File_doOperation E this s isWrite hup m = with_op this s m (\<lambda>opn.
     let opType = operation opn;
         m0 = put_op this s (opn\<lparr>skipSynchronousAttempt := False\<rparr>) m
     in if is_ordinary opType then
          obind (ordinary_block E this s isWrite hup opType m0) (\<lambda>res m1.
            case res of Some r \<Rightarrow> ret r m1 | None \<Rightarrow> all_or_other E this s hup m1)
        else all_or_other E this s hup m0)"

text \<open>
  \<open>handleHup\<close>: two \<open>if\<close> statements in a row. The second reads the operation again, after
  the callback of the first has run.
\<close>

definition hup_result :: "bool \<Rightarrow> int" where
  "hup_result isWrite = (if isWrite then -1 else 0)"

definition hup_errno :: "bool \<Rightarrow> int" where
  "hup_errno isWrite = (if isWrite then EPIPE else 0)"

definition hup_all_part ::
  "('w, 'cb) env \<Rightarrow> ptr \<Rightarrow> slot \<Rightarrow> bool \<Rightarrow> ('w, 'cb) machine \<Rightarrow> (unit, ('w, 'cb) machine) result"
where
  "hup_all_part E this s isWrite m = with_op this s m (\<lambda>opn.
     if Op_readAll \<le> operation opn \<and> operation opn \<le> Op_recvAll then
       (let m1 = put_op this s (opn\<lparr>operation := Op_none\<rparr>) m in
        obind (if rw_lenDone (readWrite opn) > 0
               then invoke E (op_cb opn) (rw_lenDone (readWrite opn)) m1 else ret () m1) (\<lambda>_ m2.
          with_op this s m2 (\<lambda>opn2.
            invoke E (op_cb opn2) (hup_result isWrite) (m2\<lparr>errno := hup_errno isWrite\<rparr>))))
     else ret () m)"

definition File_handleHup ::
  "('w, 'cb) env \<Rightarrow> ptr \<Rightarrow> slot \<Rightarrow> bool \<Rightarrow> ('w, 'cb) machine \<Rightarrow> (unit, ('w, 'cb) machine) result"
where
  "File_handleHup E this s isWrite m = with_op this s m (\<lambda>opn.
     if operation opn = Op_none then ret () m
     else obind
       (if Op_read \<le> operation opn \<and> operation opn \<le> Op_sendFileFrom
        then invoke E (op_cb opn) (hup_result isWrite)
               ((put_op this s (opn\<lparr>operation := Op_none\<rparr>) m)\<lparr>errno := hup_errno isWrite\<rparr>)
        else ret () m)
       (\<lambda>_ m1. hup_all_part E this s isWrite m1))"

text \<open>
  \<open>dispatch\<close>. The events are read through the reference each time they are tested.
  \<open>File\<close> and \<open>Socket\<close> have the same body over their own \<open>doOperation\<close> and \<open>handleHup\<close>.
\<close>

definition has_event :: "32 word \<Rightarrow> 32 word \<Rightarrow> bool" where
  "has_event ev b \<longleftrightarrow> ev AND b \<noteq> 0"

definition dispatch_slots ::
  "(slot \<Rightarrow> bool \<Rightarrow> bool \<Rightarrow> ('w, 'cb) machine \<Rightarrow> (OperationResult, ('w, 'cb) machine) result) \<Rightarrow>
   (slot \<Rightarrow> bool \<Rightarrow> ('w, 'cb) machine \<Rightarrow> (unit, ('w, 'cb) machine) result) \<Rightarrow>
   evref \<Rightarrow> ('w, 'cb) machine \<Rightarrow> (unit, ('w, 'cb) machine) result" where
  "dispatch_slots doOp hh ref m =
    obind
      (with_events ref m (\<lambda>ev.
         if has_event ev EPOLLIN then
           obind (doOp Rd False (has_event ev EPOLLERR \<or> has_event ev EPOLLHUP) m) (\<lambda>_ m'. ret () m')
         else if has_event ev EPOLLERR \<or> has_event ev EPOLLHUP then hh Rd False m
         else ret () m))
      (\<lambda>_ m1. with_events ref m1 (\<lambda>ev.
         if has_event ev EPOLLOUT then
           obind (doOp Wr True (has_event ev EPOLLERR) m1) (\<lambda>_ m'. ret () m')
         else if has_event ev EPOLLERR then hh Wr True m1
         else ret () m1))"

definition File_dispatch ::
  "('w, 'cb) env \<Rightarrow> ptr \<Rightarrow> evref \<Rightarrow> ('w, 'cb) machine \<Rightarrow> (unit, ('w, 'cb) machine) result" where
  "File_dispatch E this = dispatch_slots (File_doOperation E this) (File_handleHup E this)"

end
