(* ===== verification/CPoll_Exceptions.thy ===== *)
theory CPoll_Exceptions
  imports CPoll_Machine
begin

text \<open>
  src/exceptions.C: the constructors of the exception classes as functions of \<open>errno\<close> and of
  \<open>strerror\<close>, the two \<open>throwUNIXException\<close>, and \<open>checkError\<close> and \<open>disableSignals\<close> of
  src/cpoll.C.
\<close>

section \<open>Constructors\<close>

definition CPollException_errno :: "('w, 'cb) env \<Rightarrow> ('w, 'cb) machine \<Rightarrow> exn" where
  "CPollException_errno E m = CPoll_exception (strerror E (errno m)) (errno m)"

definition CPollException_number :: "('w, 'cb) env \<Rightarrow> int \<Rightarrow> exn" where
  "CPollException_number E n = CPoll_exception (strerror E n) n"

definition UNIXException_number :: "('w, 'cb) env \<Rightarrow> int \<Rightarrow> exn" where
  "UNIXException_number E n = UNIX_exception (strerror E n) n"

definition UNIXException_object :: "('w, 'cb) env \<Rightarrow> int \<Rightarrow> string \<Rightarrow> exn" where
  "UNIXException_object E n objName = UNIX_exception (strerror E n @ '': '' @ objName) n"

definition FileNotFoundException_make :: "('w, 'cb) env \<Rightarrow> exn" where
  "FileNotFoundException_make E = FileNotFound_exception (strerror E ENOENT) ENOENT"

definition FileNotFoundException_named :: "('w, 'cb) env \<Rightarrow> string \<Rightarrow> exn" where
  "FileNotFoundException_named E filename =
     FileNotFound_exception (strerror E ENOENT @ '': '' @ filename) ENOENT"

fun exn_what :: "exn \<Rightarrow> string" where
  "exn_what (Logic_error s) = s"
| "exn_what (CPoll_exception s n) = s"
| "exn_what (UNIX_exception s n) = s"
| "exn_what (FileNotFound_exception s n) = s"
| "exn_what Abort_exception = ''aborting cpoll loop''"
| "exn_what Cancel_exception = ''cancelling current cpoll operation''"
| "exn_what (Out_of_range s) = s"
| "exn_what Bad_function_call = ''bad_function_call''"
| "exn_what Bad_alloc = ''std::bad_alloc''"
| "exn_what (User_exception n) = []"

text \<open>The \<open>number\<close> member of the library's classes that have one.\<close>

fun exn_number :: "exn \<Rightarrow> int option" where
  "exn_number (CPoll_exception s n) = Some n"
| "exn_number (UNIX_exception s n) = Some n"
| "exn_number (FileNotFound_exception s n) = Some n"
| "exn_number _ = None"

section \<open>Throwing\<close>

definition throwUNIXException ::
  "('w, 'cb) env \<Rightarrow> ('w, 'cb) machine \<Rightarrow> ('a, ('w, 'cb) machine) result" where
  "throwUNIXException E m =
     (if errno m = ENOENT then Some (Throw (FileNotFoundException_make E) m)
      else Some (Throw (UNIXException_number E (errno m)) m))"

definition throwUNIXException_named ::
  "('w, 'cb) env \<Rightarrow> string \<Rightarrow> ('w, 'cb) machine \<Rightarrow> ('a, ('w, 'cb) machine) result" where
  "throwUNIXException_named E fn m =
     (if errno m = ENOENT then Some (Throw (FileNotFoundException_named E fn) m)
      else Some (Throw (UNIXException_object E (errno m) fn) m))"

definition checkError ::
  "('w, 'cb) env \<Rightarrow> int \<Rightarrow> ('w, 'cb) machine \<Rightarrow> (int, ('w, 'cb) machine) result" where
  "checkError E err m =
     (if err < 0 \<and> errno m \<noteq> EINTR \<and> errno m \<noteq> EINPROGRESS
      then Some (Throw (CPollException_errno E m) m) else ret err m)"

definition checkError_named ::
  "('w, 'cb) env \<Rightarrow> int \<Rightarrow> string \<Rightarrow> ('w, 'cb) machine \<Rightarrow> (int, ('w, 'cb) machine) result" where
  "checkError_named E err filename m =
     (if err < 0 \<and> errno m \<noteq> EINTR \<and> errno m \<noteq> EINPROGRESS
      then throwUNIXException_named E filename m else ret err m)"

text \<open>\<open>disableSignals\<close>: \<open>sigaction\<close> with \<open>SIG_IGN\<close> (true) and then with \<open>SIG_DFL\<close>.\<close>

definition disableSignals :: "('w, 'cb) env \<Rightarrow> ('w, 'cb) machine \<Rightarrow> ('w, 'cb) machine" where
  "disableSignals E m = fold (\<lambda>(sig, ign) m. snd (run_call E (Sys_sigaction sig ign) m))
     [(1, True), (13, True), (18, False), (20, False), (21, False), (22, False)] m"

section \<open>Facts\<close>

lemma disableSignals_frame [simp]:
  "heap (disableSignals E m) = heap m" "iovs (disableSignals E m) = iovs m"
proof -
  have step: "heap (snd (run_call E c m)) = heap m" "iovs (snd (run_call E c m)) = iovs m" for c m
    by (cases "run_call E c m", simp add: run_call_frame)+
  show "heap (disableSignals E m) = heap m" "iovs (disableSignals E m) = iovs m"
    by (simp_all add: disableSignals_def step)
qed

lemma checkError_cases:
  "checkError E err m = ret err m \<or>
   (err < 0 \<and> checkError E err m = Some (Throw (CPoll_exception (strerror E (errno m)) (errno m)) m))"
  by (simp add: checkError_def CPollException_errno_def)

lemma checkError_nonneg [simp]: "0 \<le> err \<Longrightarrow> checkError E err m = ret err m"
  by (simp add: checkError_def)

text \<open>
  Every failing call other than an interrupted or a pending one becomes an exception that
  carries the value of \<open>errno\<close>; a missing file has its own class.
\<close>

lemma checkError_named_result:
  "checkError_named E err fn m =
     (if 0 \<le> err \<or> errno m = EINTR \<or> errno m = EINPROGRESS then ret err m
      else if errno m = ENOENT
        then Some (Throw (FileNotFound_exception (strerror E ENOENT @ '': '' @ fn) ENOENT) m)
        else Some (Throw (UNIX_exception (strerror E (errno m) @ '': '' @ fn) (errno m)) m))"
  by (simp add: checkError_named_def throwUNIXException_named_def FileNotFoundException_named_def
      UNIXException_object_def)

end
