(* ===== verification/CPoll_Async.thy ===== *)
theory CPoll_Async
  imports CPoll_File CPoll_Exceptions
begin

text \<open>
  The request side of \<open>File\<close> (src/cpoll.C): every asynchronous entry point first tries the
  operation synchronously (unless the slot's \<open>skipSynchronousAttempt\<close> says that the
  descriptor is known not to be ready) and registers it in its slot when it would block.
\<close>

section \<open>Synchronous attempts\<close>

text \<open>
  \<open>File_tryOperation\<close>. The call is a function of the machine because \<open>readv\<close> and \<open>writev\<close>
  pass an array that lives in the user's memory; the other calls are constant.
\<close>

partial_function (option) tryOperation_repeat ::
  "('w, 'cb) env \<Rightarrow> 'cb option \<Rightarrow> (('w, 'cb) machine \<Rightarrow> syscall) \<Rightarrow> ('w, 'cb) machine \<Rightarrow>
     (bool, ('w, 'cb) machine) result" where
  "tryOperation_repeat E c call m =
    (case run_call E (call m) m of (r, m1) \<Rightarrow>
       if r \<le> 0 then
         (if r < 0 \<and> isWouldBlock m1 then ret False m1
          else obind (invoke E c r m1) (\<lambda>_ m2. ret True m2))
       else obind (invoke E c r m1) (\<lambda>_ m2. tryOperation_repeat E c call m2))"

definition File_tryOperation ::
  "('w, 'cb) env \<Rightarrow> 'cb option \<Rightarrow> bool \<Rightarrow> (('w, 'cb) machine \<Rightarrow> syscall) \<Rightarrow> ('w, 'cb) machine \<Rightarrow>
     (bool, ('w, 'cb) machine) result" where
  "File_tryOperation E c rep call m =
    (if rep then tryOperation_repeat E c call m
     else case run_call E (call m) m of (r, m1) \<Rightarrow>
       if 0 \<le> r \<or> \<not> isWouldBlock m1 then obind (invoke E c r m1) (\<lambda>_ m2. ret True m2)
       else ret False m1)"

text \<open>
  \<open>File_tryOperation2\<close>: the bytes done so far, or \<open>-1\<close> when the operation is over and its
  callback has been called. \<open>call\<close> takes the address and length of what is left.
\<close>

partial_function (option) tryOperation2_loop ::
  "('w, 'cb) env \<Rightarrow> 'cb option \<Rightarrow> (addr \<Rightarrow> int \<Rightarrow> syscall) \<Rightarrow> addr \<Rightarrow> int \<Rightarrow> int \<Rightarrow>
     ('w, 'cb) machine \<Rightarrow> (int, ('w, 'cb) machine) result" where
  "tryOperation2_loop E c call buf len br m =
    (if br < len then
       (case run_call E (call (buf + br) (s32 (len - br))) m of (r, m1) \<Rightarrow>
          if r \<le> 0 then
            (if r < 0 \<and> isWouldBlock m1 then ret br m1
             else obind (invoke E c (if br = 0 then r else br) m1) (\<lambda>_ m2. ret (-1) m2))
          else tryOperation2_loop E c call buf len (s32 (br + r)) m1)
     else obind (invoke E c br m) (\<lambda>_ m2. ret (-1) m2))"

definition File_tryOperation2 ::
  "('w, 'cb) env \<Rightarrow> 'cb option \<Rightarrow> (addr \<Rightarrow> int \<Rightarrow> syscall) \<Rightarrow> addr \<Rightarrow> int \<Rightarrow> ('w, 'cb) machine \<Rightarrow>
     (int, ('w, 'cb) machine) result" where
  "File_tryOperation2 E c call buf len m = tryOperation2_loop E c call buf len 0 m"

section \<open>Registering an operation\<close>

definition addRWOp ::
  "ptr \<Rightarrow> slot \<Rightarrow> Operations \<Rightarrow> 'cb option \<Rightarrow> addr \<Rightarrow> int \<Rightarrow> int \<Rightarrow> int \<Rightarrow> bool \<Rightarrow> ('w, 'cb) machine \<Rightarrow>
     (unit, ('w, 'cb) machine) result" where
  "addRWOp this s opType c buf len lenDone flags rep m = with_op this s m (\<lambda>opn.
     ret () (put_op this s
       (opn\<lparr>operation := opType,
            readWrite := \<lparr>rw_buf = buf, rw_len = len, rw_lenDone = lenDone, rw_flags = flags\<rparr>,
            repeating := rep, op_cb := c\<rparr>) m))"

text \<open>The check at the head of the entry points: the slot must be free.\<close>

definition busy_message :: "slot \<Rightarrow> string" where
  "busy_message s = (case s of Rd \<Rightarrow> ''this FD or file is already reading''
                             | Wr \<Rightarrow> ''this FD or file is already writing'')"

definition when_free ::
  "ptr \<Rightarrow> slot \<Rightarrow> ('w, 'cb) machine \<Rightarrow> ('cb OperationInfo \<Rightarrow> (unit, ('w, 'cb) machine) result) \<Rightarrow>
     (unit, ('w, 'cb) machine) result" where
  "when_free this s m k = with_op this s m (\<lambda>opn.
     if operation opn \<noteq> Op_none then Some (Throw (Logic_error (busy_message s)) m) else k opn)"

definition File_waitReadable ::
  "ptr \<Rightarrow> 'cb option \<Rightarrow> ('w, 'cb) machine \<Rightarrow> (unit, ('w, 'cb) machine) result" where
  "File_waitReadable this c m =
     when_free this Rd m (\<lambda>_. addRWOp this Rd Op_wait c 0 0 0 0 False m)"

definition File_waitWritable ::
  "ptr \<Rightarrow> 'cb option \<Rightarrow> ('w, 'cb) machine \<Rightarrow> (unit, ('w, 'cb) machine) result" where
  "File_waitWritable this c m =
     when_free this Wr m (\<lambda>_. addRWOp this Wr Op_wait c 0 0 0 0 False m)"

section \<open>Entry points\<close>

text \<open>
  \<open>try_then_add\<close> is the common body of \<open>read\<close>, \<open>write\<close>, \<open>recv\<close> and \<open>send\<close>: an attempt
  unless it is to be skipped, then \<open>addRWOp\<close> if there was none or it would block.
\<close>

definition try_then_add ::
  "('w, 'cb) env \<Rightarrow> ptr \<Rightarrow> slot \<Rightarrow> Operations \<Rightarrow> (int \<Rightarrow> syscall) \<Rightarrow> addr \<Rightarrow> int \<Rightarrow> int \<Rightarrow>
     'cb option \<Rightarrow> bool \<Rightarrow> ('w, 'cb) machine \<Rightarrow> (unit, ('w, 'cb) machine) result" where
  "try_then_add E this s opType call buf len flags c rep m =
     when_free this s m (\<lambda>opn. with_file this m (\<lambda>f.
       obind (if \<not> skipSynchronousAttempt opn
              then File_tryOperation E c rep (\<lambda>_. call (fd f)) m else ret False m)
         (\<lambda>done m1. if done then ret () m1
                    else addRWOp this s opType c buf len 0 flags rep m1)))"

definition File_read ::
  "('w, 'cb) env \<Rightarrow> ptr \<Rightarrow> addr \<Rightarrow> int \<Rightarrow> 'cb option \<Rightarrow> bool \<Rightarrow> ('w, 'cb) machine \<Rightarrow>
     (unit, ('w, 'cb) machine) result" where
  "File_read E this buf len c rep m =
     try_then_add E this Rd Op_read (\<lambda>d. Sys_read d buf len) buf len 0 c rep m"

definition File_write ::
  "('w, 'cb) env \<Rightarrow> ptr \<Rightarrow> addr \<Rightarrow> int \<Rightarrow> 'cb option \<Rightarrow> bool \<Rightarrow> ('w, 'cb) machine \<Rightarrow>
     (unit, ('w, 'cb) machine) result" where
  "File_write E this buf len c rep m =
     try_then_add E this Wr Op_write (\<lambda>d. Sys_write d buf len) buf len 0 c rep m"

definition File_recv ::
  "('w, 'cb) env \<Rightarrow> ptr \<Rightarrow> addr \<Rightarrow> int \<Rightarrow> int \<Rightarrow> 'cb option \<Rightarrow> bool \<Rightarrow> ('w, 'cb) machine \<Rightarrow>
     (unit, ('w, 'cb) machine) result" where
  "File_recv E this buf len flags c rep m =
     try_then_add E this Rd Op_recv (\<lambda>d. Sys_recv d buf len flags) buf len flags c rep m"

definition File_send ::
  "('w, 'cb) env \<Rightarrow> ptr \<Rightarrow> addr \<Rightarrow> int \<Rightarrow> int \<Rightarrow> 'cb option \<Rightarrow> bool \<Rightarrow> ('w, 'cb) machine \<Rightarrow>
     (unit, ('w, 'cb) machine) result" where
  "File_send E this buf len flags c rep m =
     try_then_add E this Wr Op_send (\<lambda>d. Sys_send d buf len flags) buf len flags c rep m"

text \<open>\<open>readAll\<close> and \<open>writeAll\<close>: a negative \<open>lenDone\<close> means that the operation is over.\<close>

definition try2_then_add ::
  "('w, 'cb) env \<Rightarrow> ptr \<Rightarrow> slot \<Rightarrow> Operations \<Rightarrow> (int \<Rightarrow> addr \<Rightarrow> int \<Rightarrow> syscall) \<Rightarrow> addr \<Rightarrow> int \<Rightarrow>
     'cb option \<Rightarrow> ('w, 'cb) machine \<Rightarrow> (unit, ('w, 'cb) machine) result" where
  "try2_then_add E this s opType call buf len c m =
     when_free this s m (\<lambda>opn. with_file this m (\<lambda>f.
       obind (if \<not> skipSynchronousAttempt opn
              then File_tryOperation2 E c (call (fd f)) buf len m else ret 0 m)
         (\<lambda>lenDone m1. if lenDone < 0 then ret () m1
                       else addRWOp this s opType c buf len lenDone 0 False m1)))"

definition File_readAll ::
  "('w, 'cb) env \<Rightarrow> ptr \<Rightarrow> addr \<Rightarrow> int \<Rightarrow> 'cb option \<Rightarrow> ('w, 'cb) machine \<Rightarrow>
     (unit, ('w, 'cb) machine) result" where
  "File_readAll E this buf len c m = try2_then_add E this Rd Op_readAll Sys_read buf len c m"

definition File_writeAll ::
  "('w, 'cb) env \<Rightarrow> ptr \<Rightarrow> addr \<Rightarrow> int \<Rightarrow> 'cb option \<Rightarrow> ('w, 'cb) machine \<Rightarrow>
     (unit, ('w, 'cb) machine) result" where
  "File_writeAll E this buf len c m = try2_then_add E this Wr Op_writeAll Sys_write buf len c m"

text \<open>
  \<open>recvAll\<close> and \<open>sendAll\<close> attempt first and look at the slot only when something is left.
  They set every field but \<open>flags\<close>.
\<close>

definition try2_then_set ::
  "('w, 'cb) env \<Rightarrow> ptr \<Rightarrow> slot \<Rightarrow> Operations \<Rightarrow> (int \<Rightarrow> addr \<Rightarrow> int \<Rightarrow> syscall) \<Rightarrow> addr \<Rightarrow> int \<Rightarrow>
     'cb option \<Rightarrow> ('w, 'cb) machine \<Rightarrow> (unit, ('w, 'cb) machine) result" where
  "try2_then_set E this s opType call buf len c m =
     with_file this m (\<lambda>f.
       obind (File_tryOperation2 E c (call (fd f)) buf len m) (\<lambda>res m1.
         if 0 \<le> res then
           when_free this s m1 (\<lambda>opn.
             ret () (put_op this s
               (opn\<lparr>operation := opType,
                    readWrite := (readWrite opn)\<lparr>rw_buf := buf, rw_len := len, rw_lenDone := res\<rparr>,
                    repeating := False, op_cb := c\<rparr>) m1))
         else ret () m1))"

definition File_recvAll ::
  "('w, 'cb) env \<Rightarrow> ptr \<Rightarrow> addr \<Rightarrow> int \<Rightarrow> int \<Rightarrow> 'cb option \<Rightarrow> ('w, 'cb) machine \<Rightarrow>
     (unit, ('w, 'cb) machine) result" where
  "File_recvAll E this buf len flags c m =
     try2_then_set E this Rd Op_recvAll (\<lambda>d b n. Sys_recv d b n flags) buf len c m"

definition File_sendAll ::
  "('w, 'cb) env \<Rightarrow> ptr \<Rightarrow> addr \<Rightarrow> int \<Rightarrow> int \<Rightarrow> 'cb option \<Rightarrow> ('w, 'cb) machine \<Rightarrow>
     (unit, ('w, 'cb) machine) result" where
  "File_sendAll E this buf len flags c m =
     try2_then_set E this Wr Op_sendAll (\<lambda>d b n. Sys_send d b n flags) buf len c m"

text \<open>\<open>int iovBytesTotal\<close>: the sum is kept in an \<open>int\<close>, one addition at a time.\<close>

definition iovBytesTotal :: "iovec list \<Rightarrow> int" where
  "iovBytesTotal xs = foldl (\<lambda>acc v. s32 (acc + iov_len v)) 0 xs"

definition File_readv ::
  "('w, 'cb) env \<Rightarrow> ptr \<Rightarrow> addr \<Rightarrow> int \<Rightarrow> 'cb option \<Rightarrow> bool \<Rightarrow> ('w, 'cb) machine \<Rightarrow>
     (unit, ('w, 'cb) machine) result" where
  "File_readv E this iov iovcnt c rep m =
     when_free this Rd m (\<lambda>opn. with_file this m (\<lambda>f.
       obind (if skipSynchronousAttempt opn then ret False m
              else File_tryOperation E c rep (\<lambda>m'. Sys_readv (fd f) (iov_slice m' iov iovcnt)) m)
         (\<lambda>done m1. if done then ret () m1
            else with_op this Rd m1 (\<lambda>opn1. ret () (put_op this Rd
              (opn1\<lparr>operation := Op_readv,
                    readWriteV := (readWriteV opn1)\<lparr>rwv_iov := iov, rwv_iovcnt := iovcnt,
                      rwv_lenTotal := iovBytesTotal (iov_slice m1 iov iovcnt)\<rparr>,
                    repeating := rep, op_cb := c\<rparr>) m1)))))"

definition File_writev ::
  "('w, 'cb) env \<Rightarrow> ptr \<Rightarrow> addr \<Rightarrow> int \<Rightarrow> 'cb option \<Rightarrow> bool \<Rightarrow> ('w, 'cb) machine \<Rightarrow>
     (unit, ('w, 'cb) machine) result" where
  "File_writev E this iov iovcnt c rep m =
     when_free this Wr m (\<lambda>opn. with_file this m (\<lambda>f.
       obind (if skipSynchronousAttempt opn then ret False m
              else File_tryOperation E c rep (\<lambda>m'. Sys_writev (fd f) (iov_slice m' iov iovcnt)) m)
         (\<lambda>done m1. if done then ret () m1
            else with_op this Wr m1 (\<lambda>opn1. ret () (put_op this Wr
              (opn1\<lparr>operation := Op_writev,
                    readWriteV := (readWriteV opn1)\<lparr>rwv_iov := iov, rwv_iovcnt := iovcnt,
                      rwv_lenTotal := iovBytesTotal (iov_slice m1 iov iovcnt)\<rparr>,
                    repeating := rep, op_cb := c\<rparr>) m1)))))"

text \<open>\<open>readvAll\<close> and \<open>writevAll\<close> fill the slot without looking at it, and let \<open>doOperation\<close> try.\<close>

definition vAll_op :: "Operations \<Rightarrow> addr \<Rightarrow> int \<Rightarrow> iovec list \<Rightarrow> 'cb option \<Rightarrow>
    'cb OperationInfo \<Rightarrow> 'cb OperationInfo" where
  "vAll_op opType iov iovcnt xs c opn =
     opn\<lparr>operation := opType,
         readWriteV := \<lparr>rwv_iov = iov, rwv_iovcnt = iovcnt, rwv_lenTotal = iovBytesTotal xs,
                        rwv_lenDone = 0\<rparr>,
         repeating := False, op_cb := c\<rparr>"

definition File_readvAll ::
  "('w, 'cb) env \<Rightarrow> ptr \<Rightarrow> addr \<Rightarrow> int \<Rightarrow> 'cb option \<Rightarrow> ('w, 'cb) machine \<Rightarrow>
     (unit, ('w, 'cb) machine) result" where
  "File_readvAll E this iov iovcnt c m = with_op this Rd m (\<lambda>opn.
     let m1 = put_op this Rd (vAll_op Op_readvAll iov iovcnt (iov_slice m iov iovcnt) c opn) m
     in if \<not> skipSynchronousAttempt opn
        then obind (File_doOperation E this Rd False False m1) (\<lambda>_ m2. ret () m2)
        else ret () m1)"

definition File_writevAll ::
  "('w, 'cb) env \<Rightarrow> ptr \<Rightarrow> addr \<Rightarrow> int \<Rightarrow> 'cb option \<Rightarrow> ('w, 'cb) machine \<Rightarrow>
     (unit, ('w, 'cb) machine) result" where
  "File_writevAll E this iov iovcnt c m = with_op this Wr m (\<lambda>opn.
     let m1 = put_op this Wr (vAll_op Op_writevAll iov iovcnt (iov_slice m iov iovcnt) c opn) m
     in if \<not> skipSynchronousAttempt opn
        then obind (File_doOperation E this Wr True False m1) (\<lambda>_ m2. ret () m2)
        else ret () m1)"

text \<open>
  \<open>sendFileFrom\<close>: the synchronous call reads \<open>this->fd\<close> each time; the attempt is made
  whatever \<open>skipSynchronousAttempt\<close> says.
\<close>

definition sendFileFrom_call ::
  "('w, 'cb) env \<Rightarrow> ptr \<Rightarrow> int \<Rightarrow> int \<Rightarrow> int \<Rightarrow> ('w, 'cb) machine \<Rightarrow> (int, ('w, 'cb) machine) result"
where
  "sendFileFrom_call E this src offset len m = with_file this m (\<lambda>f.
     case run_call E (Sys_sendfile (fd f) src (if offset < 0 then None else Some offset) len) m of
       (r, m1) \<Rightarrow> ret r m1)"

partial_function (option) sendFileFrom_repeat ::
  "('w, 'cb) env \<Rightarrow> ptr \<Rightarrow> int \<Rightarrow> int \<Rightarrow> int \<Rightarrow> 'cb option \<Rightarrow> ('w, 'cb) machine \<Rightarrow>
     (bool, ('w, 'cb) machine) result" where
  "sendFileFrom_repeat E this src offset len c m =
     obind (sendFileFrom_call E this src offset len m) (\<lambda>r m1.
       if r \<le> 0 then
         (if r < 0 \<and> isWouldBlock m1 then ret False m1
          else obind (invoke E c r m1) (\<lambda>_ m2. ret True m2))
       else obind (invoke E c r m1) (\<lambda>_ m2. sendFileFrom_repeat E this src offset len c m2))"

definition File_sendFileFrom ::
  "('w, 'cb) env \<Rightarrow> ptr \<Rightarrow> int \<Rightarrow> int \<Rightarrow> int \<Rightarrow> 'cb option \<Rightarrow> bool \<Rightarrow> ('w, 'cb) machine \<Rightarrow>
     (unit, ('w, 'cb) machine) result" where
  "File_sendFileFrom E this src offset len c rep m =
     when_free this Wr m (\<lambda>_.
       obind (if rep then sendFileFrom_repeat E this src offset len c m
              else obind (sendFileFrom_call E this src offset len m) (\<lambda>r m1.
                if 0 \<le> r \<or> \<not> isWouldBlock m1 then obind (invoke E c r m1) (\<lambda>_ m2. ret True m2)
                else ret False m1))
         (\<lambda>done m1. if done then ret () m1
            else with_op this Wr m1 (\<lambda>opn. ret () (put_op this Wr
              (opn\<lparr>operation := Op_sendFileFrom,
                   sendFile := \<lparr>sf_offset = offset, sf_fd = src, sf_len = len\<rparr>,
                   repeating := rep, op_cb := c\<rparr>) m1))))"

text \<open>\<open>close(cb)\<close>: at once if the descriptor is writable now, else when it becomes so.\<close>

definition File_close_async ::
  "('w, 'cb) env \<Rightarrow> ptr \<Rightarrow> 'cb option \<Rightarrow> ('w, 'cb) machine \<Rightarrow> (unit, ('w, 'cb) machine) result"
where
  "File_close_async E this c m = with_op this Wr m (\<lambda>opn.
     if operation opn \<noteq> Op_none
     then Some (Throw (Logic_error ''this FD or file is still writing, can not close'') m)
     else with_file this m (\<lambda>f. case run_call E (Sys_poll_out (fd f)) m of (n, m1) \<Rightarrow>
       if 0 < n then obind (File_close E this m1) (\<lambda>r m2. invoke E c r m2)
       else ret () (put_op this Wr (opn\<lparr>operation := Op_close, repeating := False, op_cb := c\<rparr>) m1)))"

definition File_cancelRead :: "ptr \<Rightarrow> ('w, 'cb) machine \<Rightarrow> (unit, ('w, 'cb) machine) result" where
  "File_cancelRead this m = with_op this Rd m (\<lambda>opn.
     ret () (put_op this Rd (opn\<lparr>operation := Op_none\<rparr>) m))"

definition File_cancelWrite :: "ptr \<Rightarrow> ('w, 'cb) machine \<Rightarrow> (unit, ('w, 'cb) machine) result" where
  "File_cancelWrite this m = with_op this Wr m (\<lambda>opn.
     ret () (put_op this Wr (opn\<lparr>operation := Op_none\<rparr>) m))"

section \<open>Construction and destruction\<close>

definition O_NONBLOCK :: "32 word" where "O_NONBLOCK = 2048"

text \<open>\<open>FD::setBlocking\<close>: the flags are read, and written back only if the bit must change.\<close>

definition FD_setBlocking :: "('w, 'cb) env \<Rightarrow> int \<Rightarrow> bool \<Rightarrow> ('w, 'cb) machine \<Rightarrow> ('w, 'cb) machine" where
  "FD_setBlocking E d b m = (case run_call E (Sys_fcntl_getfl d) m of (x, m1) \<Rightarrow>
     let f = (word_of_int x :: 32 word) in
     if b \<and> f AND O_NONBLOCK \<noteq> 0 then snd (run_call E (Sys_fcntl_setfl d (f AND NOT O_NONBLOCK)) m1)
     else if \<not> b \<and> f AND O_NONBLOCK = 0 then snd (run_call E (Sys_fcntl_setfl d (f OR O_NONBLOCK)) m1)
     else m1)"

text \<open>\<open>File::init\<close> asserts that no descriptor is open, then takes one and makes it nonblocking.\<close>

definition File_init ::
  "('w, 'cb) env \<Rightarrow> ptr \<Rightarrow> int \<Rightarrow> ('w, 'cb) machine \<Rightarrow> (unit, ('w, 'cb) machine) result" where
  "File_init E this d m = with_file this m (\<lambda>f.
     if fd f \<noteq> -1 then Some (Fault Assertion_failed)
     else ret () (FD_setBlocking E d False (put_file this (f\<lparr>fd := d\<rparr>) m)))"

text \<open>
  The initial values of an \<open>OperationInfo\<close>. The union \<open>info\<close> has none: its members are made of the
  indeterminate value \<open>g\<close>.
\<close>

definition fresh_op :: "128 word \<Rightarrow> 'cb OperationInfo" where
  "fresh_op g = (let i = sint (ucast g :: 32 word); a = uint (ucast g :: 64 word) in \<lparr>op_cb = None,
     readWrite = \<lparr>rw_buf = a, rw_len = i, rw_lenDone = i, rw_flags = i\<rparr>,
     readWriteV = \<lparr>rwv_iov = a, rwv_iovcnt = i, rwv_lenTotal = i, rwv_lenDone = i\<rparr>,
     sendFile = \<lparr>sf_offset = sint (ucast g :: 64 word), sf_fd = i, sf_len = i\<rparr>,
     operation = Op_none, repeating = False, skipSynchronousAttempt = False\<rparr>)"

text \<open>A slot that is free, with zeros in the union, for the concrete machines of the examples.\<close>

definition empty_op :: "'cb OperationInfo" where
  "empty_op = \<lparr>op_cb = None,
     readWrite = \<lparr>rw_buf = 0, rw_len = 0, rw_lenDone = 0, rw_flags = 0\<rparr>,
     readWriteV = \<lparr>rwv_iov = 0, rwv_iovcnt = 0, rwv_lenTotal = 0, rwv_lenDone = 0\<rparr>,
     sendFile = \<lparr>sf_offset = 0, sf_fd = 0, sf_len = 0\<rparr>,
     operation = Op_none, repeating = False, skipSynchronousAttempt = False\<rparr>"

text \<open>\<open>File()\<close>, the object that a constructor builds: no descriptor, both slots free.\<close>

definition new_File :: "128 word \<Rightarrow> 'cb File" where
  "new_File g = \<lparr>fd = -1, pendingOps = (\<lambda>_. fresh_op g)\<rparr>"

lemma fresh_op_simps [simp]:
  "operation (fresh_op g) = Op_none" "repeating (fresh_op g) = False"
  "skipSynchronousAttempt (fresh_op g) = False" "op_cb (fresh_op g) = None" "fresh_op 0 = empty_op"
  by (simp_all add: fresh_op_def empty_op_def Let_def)

text \<open>\<open>File(int fd)\<close> and \<open>File(name, flags, perms)\<close>; when \<open>open\<close> fails there is no object.\<close>

definition File_construct_fd :: "('w, 'cb) env \<Rightarrow> ptr \<Rightarrow> int \<Rightarrow> ('w, 'cb) machine \<Rightarrow> ('w, 'cb) machine" where
  "File_construct_fd E this d m =
     FD_setBlocking E d False (m\<lparr>heap := (heap m)(this \<mapsto> File_object (new_File (uninitialised E)\<lparr>fd := d\<rparr>))\<rparr>)"

definition File_construct_open ::
  "('w, 'cb) env \<Rightarrow> ptr \<Rightarrow> string \<Rightarrow> int \<Rightarrow> int \<Rightarrow> ('w, 'cb) machine \<Rightarrow> (unit, ('w, 'cb) machine) result"
where
  "File_construct_open E this fname flags perms m =
    (case run_call E (Sys_open fname (flags OR uint O_NONBLOCK) perms) m of (r, m1) \<Rightarrow>
       obind (checkError_named E r fname m1) (\<lambda>d m2.
         ret () (m2\<lparr>heap := (heap m2)(this \<mapsto> File_object (new_File (uninitialised E)\<lparr>fd := d\<rparr>))\<rparr>)))"

text \<open>\<open>~File\<close>: close the descriptor if there is one; then the object is gone.\<close>

definition File_destroy ::
  "('w, 'cb) env \<Rightarrow> ptr \<Rightarrow> ('w, 'cb) machine \<Rightarrow> (unit, ('w, 'cb) machine) result" where
  "File_destroy E this m = with_file this m (\<lambda>f.
     obind (if 0 \<le> fd f then obind (File_close E this m) (\<lambda>_ m1. ret () m1) else ret () m)
       (\<lambda>_ m1. ret () (free_object this m1)))"

end
