(* ===== verification/CPoll_FileProps.thy ===== *)
theory CPoll_FileProps
  imports CPoll_Async
begin

text \<open>
  Properties of \<open>doOperation\<close>, \<open>handleHup\<close> and \<open>dispatch\<close>: what a pending operation does on
  every result of its system call, when the object may be deleted by the callback, and the
  behaviour on hang-up.
\<close>

section \<open>System calls leave the objects alone\<close>

lemma put_op_world [simp]: "put_op this s opn (m\<lparr>world := w\<rparr>) = (put_op this s opn m)\<lparr>world := w\<rparr>"
  by (auto simp: put_op_def put_file_def file_at_def split: option.splits fd_object.splits)

lemma put_op_errno [simp]: "put_op this s opn (m\<lparr>errno := e\<rparr>) = (put_op this s opn m)\<lparr>errno := e\<rparr>"
  by (auto simp: put_op_def put_file_def file_at_def split: option.splits fd_object.splits)

lemma put_op_iovs [simp]: "put_op this s opn (m\<lparr>iovs := i\<rparr>) = (put_op this s opn m)\<lparr>iovs := i\<rparr>"
  by (auto simp: put_op_def put_file_def file_at_def split: option.splits fd_object.splits)

lemma put_op_set_errno [simp]: "put_op this s opn (set_errno e m) = set_errno e (put_op this s opn m)"
  by (cases e) (simp_all add: set_errno_def)

lemma run_call_put_op:
  "run_call E c (put_op this s opn m) = (case run_call E c m of (r, m1) \<Rightarrow> (r, put_op this s opn m1))"
  by (simp add: run_call_def split: prod.split)

lemma iov_slice_put_op [simp]: "iov_slice (put_op this s opn m) iov n = iov_slice m iov n"
  by (simp add: iov_slice_def)

lemma isWouldBlock_put_op [simp]: "isWouldBlock (put_op this s opn m) = isWouldBlock m"
  by (simp add: isWouldBlock_def)

lemma ordinary_attempt_put_op:
  "ordinary_attempt E d x (put_op this s opn m) =
     map_option (\<lambda>(r, l, m1). (r, l, put_op this s opn m1)) (ordinary_attempt E d x m)"
  by (simp add: ordinary_attempt_def Let_def run_call_put_op split: Operations.split prod.split)

lemma ordinary_attempt_skip [simp]:
  "ordinary_attempt E d (opn\<lparr>skipSynchronousAttempt := b\<rparr>) m = ordinary_attempt E d opn m"
  by (simp add: ordinary_attempt_def Let_def cong: Operations.case_cong)

lemma all_attempt_put_op:
  "all_attempt E d x (put_op this s opn m) =
     map_option (\<lambda>(r, m1). (r, put_op this s opn m1)) (all_attempt E d x m)"
  by (simp add: all_attempt_def Let_def run_call_put_op split: Operations.split prod.split)

lemma all_attempt_skip [simp]:
  "all_attempt E d (opn\<lparr>skipSynchronousAttempt := b\<rparr>) m = all_attempt E d opn m"
  by (simp add: all_attempt_def Let_def cong: Operations.case_cong)

lemma ordinary_attempt_frame:
  assumes "ordinary_attempt E d opn m = Some (r, l, m1)"
  shows "heap m1 = heap m" and "iovs m1 = iovs m"
    and "file_at m1 this = file_at m this" and "op_at m1 this s = op_at m this s"
  using assms
  by (auto simp: ordinary_attempt_def Let_def dest: run_call_frame
      split: Operations.splits prod.splits)

lemma all_attempt_frame:
  assumes "all_attempt E d opn m = Some (r, m1)"
  shows "heap m1 = heap m" and "iovs m1 = iovs m"
    and "file_at m1 this = file_at m this" and "op_at m1 this s = op_at m this s"
  using assms
  by (auto simp: all_attempt_def Let_def dest: run_call_frame split: Operations.splits prod.splits)

lemma ordinary_attempt_defined:
  assumes "is_ordinary (operation opn)"
  obtains r l m1 where "ordinary_attempt E d opn m = Some (r, l, m1)"
proof -
  have "\<exists>p. ordinary_attempt E d opn m = Some p"
    using assms unfolding is_ordinary_cases
    by (auto simp: ordinary_attempt_def Let_def split: prod.split)
  then show ?thesis using that by auto
qed

lemma all_attempt_defined:
  assumes "is_all (operation opn)"
  obtains r m1 where "all_attempt E d opn m = Some (r, m1)"
proof -
  have "\<exists>p. all_attempt E d opn m = Some p"
    using assms unfolding is_all_cases by (auto simp: all_attempt_def Let_def)
  then show ?thesis using that by auto
qed

lemma with_op_Some: "op_at m this s = Some opn \<Longrightarrow> with_op this s m k = k opn"
  by (simp add: with_op_def)

lemma with_op_None: "op_at m this s = None \<Longrightarrow> with_op this s m k = Some (Fault Bad_pointer)"
  by (simp add: with_op_def)

lemma with_file_Some: "file_at m this = Some f \<Longrightarrow> with_file this m k = k f"
  by (simp add: with_file_def)

lemma op_at_file: "file_at m this = Some f \<Longrightarrow> op_at m this s = Some (pendingOps f s)"
  by (simp add: op_at_def)

lemma op_at_obtain_file:
  assumes "op_at m this s = Some opn"
  obtains f where "file_at m this = Some f" and "pendingOps f s = opn"
  using assms by (auto simp: op_at_def)

lemma not_all_if_ordinary: "is_ordinary x \<Longrightarrow> \<not> is_all x"
  by (cases x) (simp_all add: less_eq_Operations_def)

lemma not_ordinary_if_all: "is_all x \<Longrightarrow> \<not> is_ordinary x"
  by (cases x) (simp_all add: less_eq_Operations_def)

section \<open>One-shot operations\<close>

lemma ordinary_block_oneshot:
  assumes f: "file_at m this = Some f" and s: "pendingOps f s = opn"
    and nrep: "\<not> repeating opn" and nskip: "\<not> skipSynchronousAttempt opn"
    and att: "ordinary_attempt E (fd f) opn m = Some (r, myLen, m1)"
  shows "ordinary_block E this s isWrite hup opType m =
    (if r < 0 \<and> isWouldBlock m1 then ret (Some CONTINUE) m1
     else obind (invoke E (op_cb opn) r
         (put_op this s (opn\<lparr>operation := Op_none,
            skipSynchronousAttempt := (0 < r \<and> r < myLen \<and> \<not> hup)\<rparr>) m1))
       (\<lambda>_ m2. ret (Some (if r \<le> 0 then DONE_PERMANENT else DONE)) m2))"
proof -
  have skip_id: "opn\<lparr>operation := Op_none, skipSynchronousAttempt := False\<rparr> = opn\<lparr>operation := Op_none\<rparr>"
    using nskip by (cases opn) simp
  show ?thesis
    unfolding ordinary_block.simps [of E this s isWrite hup opType m]
    using assms by (cases "r \<le> 0"; cases "r < myLen \<and> \<not> hup")
      (auto simp: with_file_Some with_op_Some op_at_file Let_def skip_id skip_id [folded s])
qed

lemma file_at_put_op_skip:
  assumes "file_at m this = Some f"
  shows "file_at (put_op this s ((pendingOps f s)\<lparr>skipSynchronousAttempt := b\<rparr>) m) this =
    Some (f\<lparr>pendingOps := (pendingOps f)(s := (pendingOps f s)\<lparr>skipSynchronousAttempt := b\<rparr>)\<rparr>)"
  using assms by (simp add: file_at_put_op)

theorem doOperation_oneshot:
  assumes f: "file_at m this = Some f" and s: "pendingOps f s = opn"
    and kind: "is_ordinary (operation opn)" and nrep: "\<not> repeating opn"
    and att: "ordinary_attempt E (fd f) opn m = Some (r, myLen, m1)"
  shows "File_doOperation E this s isWrite hup m =
    (if r < 0 \<and> isWouldBlock m1
     then ret CONTINUE (put_op this s (opn\<lparr>skipSynchronousAttempt := False\<rparr>) m1)
     else obind (invoke E (op_cb opn) r
         (put_op this s (opn\<lparr>operation := Op_none,
            skipSynchronousAttempt := (0 < r \<and> r < myLen \<and> \<not> hup)\<rparr>) m1))
       (\<lambda>_ m2. ret (if r \<le> 0 then DONE_PERMANENT else DONE) m2))"
proof -
  let ?o = "opn\<lparr>skipSynchronousAttempt := False\<rparr>"
  let ?m = "put_op this s ?o m"
  let ?f = "f\<lparr>pendingOps := (pendingOps f)(s := ?o)\<rparr>"
  have f': "file_at ?m this = Some ?f" and s': "pendingOps ?f s = ?o"
    using f s by (simp_all add: file_at_put_op)
  have att': "ordinary_attempt E (fd ?f) ?o ?m = Some (r, myLen, put_op this s ?o m1)"
    using att by (simp add: ordinary_attempt_put_op)
  have blk: "ordinary_block E this s isWrite hup (operation opn) ?m =
    (if r < 0 \<and> isWouldBlock m1 then ret (Some CONTINUE) (put_op this s ?o m1)
     else obind (invoke E (op_cb opn) r
         (put_op this s (opn\<lparr>operation := Op_none,
            skipSynchronousAttempt := (0 < r \<and> r < myLen \<and> \<not> hup)\<rparr>) m1))
       (\<lambda>_ m2. ret (Some (if r \<le> 0 then DONE_PERMANENT else DONE)) m2))"
    using ordinary_block_oneshot [OF f' s' _ _ att'] nrep by simp
  show ?thesis
    unfolding File_doOperation_def with_op_Some [OF op_at_file [OF f]] s Let_def
    by (simp add: kind blk obind_assoc)
qed

section \<open>Operations that run to completion\<close>

lemma all_record_skip [simp]:
  "all_record (opn\<lparr>skipSynchronousAttempt := b\<rparr>) r mem =
     (case all_record opn r mem of (o1, mem') \<Rightarrow> (o1\<lparr>skipSynchronousAttempt := b\<rparr>, mem'))"
  by (auto simp: all_record_def split: prod.split)

lemma all_record_fields:
  assumes "all_record opn r mem = (o1, mem')"
  shows "op_cb o1 = op_cb opn" and "repeating o1 = repeating opn" and "operation o1 = operation opn"
  using assms by (auto simp: all_record_def split: if_splits prod.splits)

lemma op_len_skip [simp]:
  "op_lenDone (opn\<lparr>skipSynchronousAttempt := b\<rparr>) = op_lenDone opn"
  "op_lenTotal (opn\<lparr>skipSynchronousAttempt := b\<rparr>) = op_lenTotal opn"
  by (simp_all add: op_lenDone_def op_lenTotal_def)

lemma doOperation_all:
  assumes f: "file_at m this = Some f" and s: "pendingOps f s = opn"
    and kind: "is_all (operation opn)" and nrep: "\<not> repeating opn"
    and att: "all_attempt E (fd f) opn m = Some (r, m1)"
    and rec: "all_record opn r (iovs m1) = (o1, mem')"
  shows "File_doOperation E this s isWrite hup m =
    (if r < 0 \<and> isWouldBlock m1
     then ret CONTINUE (put_op this s (opn\<lparr>skipSynchronousAttempt := False\<rparr>) m1)
     else if r \<le> 0 then
       obind (invoke E (op_cb opn) (if op_lenDone opn = 0 then r else op_lenDone opn)
           (put_op this s (opn\<lparr>skipSynchronousAttempt := False, operation := Op_none\<rparr>) m1))
         (\<lambda>_ m2. ret DONE_PERMANENT m2)
     else if op_lenTotal opn \<le> s32 (op_lenDone opn + r) \<or> hup then
       (let m3 = put_op this s (o1\<lparr>skipSynchronousAttempt := False, operation := Op_none\<rparr>)
                   (m1\<lparr>iovs := mem'\<rparr>)
        in if op_cb opn \<noteq> None
           then obind (invoke E (op_cb opn) (s32 (op_lenDone opn + r)) m3) (\<lambda>_ m4. ret DONE m4)
           else ret DONE m3)
     else ret CONTINUE (put_op this s (o1\<lparr>skipSynchronousAttempt := False\<rparr>) (m1\<lparr>iovs := mem'\<rparr>)))"
proof -
  let ?o = "opn\<lparr>skipSynchronousAttempt := False\<rparr>"
  let ?m = "put_op this s ?o m"
  let ?f = "f\<lparr>pendingOps := (pendingOps f)(s := ?o)\<rparr>"
  have f': "file_at ?m this = Some ?f"
    using f s by (simp add: file_at_put_op)
  have o': "op_at ?m this s = Some ?o"
    using op_at_file [OF f] by simp
  have att': "all_attempt E (fd ?f) ?o ?m = Some (r, put_op this s ?o m1)"
    using att by (simp add: all_attempt_put_op)
  have nord: "\<not> is_ordinary (operation opn)"
    using kind by (rule not_ordinary_if_all)
  have blk: "File_doOperation E this s isWrite hup m = all_block E this s hup ?m"
    unfolding File_doOperation_def with_op_Some [OF op_at_file [OF f]] s Let_def if_not_P [OF nord]
      all_or_other_def with_op_Some [OF o'] using kind by simp
  show ?thesis
    unfolding blk all_block_def with_file_Some [OF f'] with_op_Some [OF o'] att'
    using nrep rec all_record_fields [OF rec] by (auto simp: Let_def)
qed

end
