(* ===== verification/CPoll_Transfer.thy ===== *)
theory CPoll_Transfer
  imports CPoll_FileProps
begin

text \<open>
  \<open>readAll\<close>, \<open>writeAll\<close>, \<open>recvAll\<close> and \<open>sendAll\<close> move bytes in several pieces: some in the
  synchronous attempt, more at each readiness event. Here: every byte is moved once, to or
  from the place it belongs to, the attempt returns, and the callback is told how many bytes
  were moved. What the kernel does in one call is a hypothesis (\<open>reads_from\<close>, \<open>writes_to\<close>:
  what read(2), recv(2), write(2) and send(2) promise for a stream).
\<close>

section \<open>One call moves a piece\<close>

text \<open>
  \<open>moves E call buf P\<close>: \<open>P k w\<close> says that \<open>k\<close> bytes have been moved in world \<open>w\<close>; a call on
  the rest of the buffer that returns \<open>r > 0\<close> moves at most what was asked, and \<open>r\<close> more
  bytes; a call that fails or meets the end moves none.
\<close>

definition moves ::
  "('w, 'cb) env \<Rightarrow> (addr \<Rightarrow> int \<Rightarrow> syscall) \<Rightarrow> addr \<Rightarrow> (int \<Rightarrow> 'w \<Rightarrow> bool) \<Rightarrow> bool" where
  "moves E call buf P \<longleftrightarrow> (\<forall>k n w r e w'. 0 \<le> k \<longrightarrow> 0 < n \<longrightarrow> P k w \<longrightarrow>
     sys E (call (buf + k) n) w = ((r, e), w') \<longrightarrow>
     (if 0 < r then r \<le> n \<and> P (k + r) w' else P k w'))"

text \<open>A stream read: the bytes leave the input in order and arrive at the address given.\<close>

definition reads_from ::
  "('w, 'cb) env \<Rightarrow> (addr \<Rightarrow> int \<Rightarrow> syscall) \<Rightarrow> ('w \<Rightarrow> byte list) \<Rightarrow> ('w \<Rightarrow> addr \<Rightarrow> byte) \<Rightarrow> bool"
where
  "reads_from E call inp mem \<longleftrightarrow> (\<forall>b n w r e w'. sys E (call b n) w = ((r, e), w') \<longrightarrow>
     (if 0 < r then r \<le> n \<and> nat r \<le> length (inp w) \<and> inp w' = drop (nat r) (inp w) \<and>
                    mem w' = store_bytes (mem w) b (take (nat r) (inp w))
      else inp w' = inp w \<and> mem w' = mem w))"

text \<open>A stream write: the bytes at the address given are appended to the output.\<close>

definition writes_to ::
  "('w, 'cb) env \<Rightarrow> (addr \<Rightarrow> int \<Rightarrow> syscall) \<Rightarrow> ('w \<Rightarrow> byte list) \<Rightarrow> ('w \<Rightarrow> addr \<Rightarrow> byte) \<Rightarrow> bool"
where
  "writes_to E call outp mem \<longleftrightarrow> (\<forall>b n w r e w'. sys E (call b n) w = ((r, e), w') \<longrightarrow>
     mem w' = mem w \<and>
     (if 0 < r then r \<le> n \<and> outp w' = outp w @ load_bytes (mem w) b (nat r) else outp w' = outp w))"

text \<open>The first \<open>k\<close> bytes of the input of \<open>w0\<close> are at \<open>buf\<close>, and gone from the input.\<close>

definition read_so_far ::
  "('w \<Rightarrow> byte list) \<Rightarrow> ('w \<Rightarrow> addr \<Rightarrow> byte) \<Rightarrow> addr \<Rightarrow> 'w \<Rightarrow> int \<Rightarrow> 'w \<Rightarrow> bool" where
  "read_so_far inp mem buf w0 k w \<longleftrightarrow> nat k \<le> length (inp w0) \<and> inp w = drop (nat k) (inp w0) \<and>
     mem w = store_bytes (mem w0) buf (take (nat k) (inp w0))"

text \<open>The first \<open>k\<close> bytes at \<open>buf\<close> in \<open>w0\<close> have been appended to its output.\<close>

definition written_so_far ::
  "('w \<Rightarrow> byte list) \<Rightarrow> ('w \<Rightarrow> addr \<Rightarrow> byte) \<Rightarrow> addr \<Rightarrow> 'w \<Rightarrow> int \<Rightarrow> 'w \<Rightarrow> bool" where
  "written_so_far outp mem buf w0 k w \<longleftrightarrow> mem w = mem w0 \<and>
     outp w = outp w0 @ load_bytes (mem w0) buf (nat k)"

lemma reads_from_moves:
  assumes "reads_from E call inp mem"
  shows "moves E call buf (read_so_far inp mem buf w0)"
  unfolding moves_def
proof (intro allI impI)
  fix k n w r e w'
  assume k: "0 \<le> k" and P: "read_so_far inp mem buf w0 k w"
    and c: "sys E (call (buf + k) n) w = ((r, e), w')"
  show "if 0 < r then r \<le> n \<and> read_so_far inp mem buf w0 (k + r) w' else read_so_far inp mem buf w0 k w'"
  proof (cases "0 < r")
    case True
    then have r: "r \<le> n" "nat r \<le> length (inp w)" "inp w' = drop (nat r) (inp w)"
      "mem w' = store_bytes (mem w) (buf + k) (take (nat r) (inp w))"
      using assms c unfolding reads_from_def by (metis (full_types))+
    have kr: "nat (k + r) = nat k + nat r" using k True by simp
    have "length (take (nat k) (inp w0)) = nat k" using P by (simp add: read_so_far_def)
    then have "store_bytes (store_bytes (mem w0) buf (take (nat k) (inp w0))) (buf + k)
        (take (nat r) (drop (nat k) (inp w0))) = store_bytes (mem w0) buf (take (nat (k + r)) (inp w0))"
      using k store_bytes_append [of "mem w0" buf "take (nat k) (inp w0)"]
      by (simp add: kr take_add)
    with True r P k show ?thesis by (auto simp: read_so_far_def kr add.commute)
  next
    case False
    with assms c P show ?thesis unfolding reads_from_def read_so_far_def by metis
  qed
qed

lemma writes_to_moves:
  assumes "writes_to E call outp mem"
  shows "moves E call buf (written_so_far outp mem buf w0)"
  unfolding moves_def
proof (intro allI impI)
  fix k n w r e w'
  assume k: "0 \<le> k" and P: "written_so_far outp mem buf w0 k w"
    and c: "sys E (call (buf + k) n) w = ((r, e), w')"
  show "if 0 < r then r \<le> n \<and> written_so_far outp mem buf w0 (k + r) w'
        else written_so_far outp mem buf w0 k w'"
  proof (cases "0 < r")
    case True
    then have r: "r \<le> n" "mem w' = mem w" "outp w' = outp w @ load_bytes (mem w) (buf + k) (nat r)"
      using assms c unfolding writes_to_def by (metis (full_types))+
    have kr: "nat (k + r) = nat k + nat r" using k True by simp
    show ?thesis using True r P k by (simp add: written_so_far_def kr load_bytes_add)
  next
    case False
    with assms c P show ?thesis unfolding writes_to_def written_so_far_def by metis
  qed
qed

section \<open>States and reports\<close>

text \<open>
  A registered operation \<open>opr\<close> of object \<open>this\<close> that has moved \<open>k\<close> of its \<open>len\<close> bytes and waits
  for the rest; and such an operation whose count is right: \<open>P k\<close> holds of the world.
\<close>

definition waiting_at ::
  "ptr \<Rightarrow> slot \<Rightarrow> int \<Rightarrow> Operations \<Rightarrow> int \<Rightarrow> addr \<Rightarrow> int \<Rightarrow> 'cb \<Rightarrow> int \<Rightarrow> ('w, 'cb) machine \<Rightarrow> bool"
where
  "waiting_at this s d opr fl buf len c k m \<longleftrightarrow> 0 \<le> k \<and> k < len \<and>
     (\<exists>f. file_at m this = Some f \<and> fd f = d \<and>
       (let opn = pendingOps f s; info = readWrite opn in
          operation opn = opr \<and> \<not> repeating opn \<and> op_cb opn = Some c \<and>
          rw_flags info = fl \<and> rw_buf info = buf \<and> rw_len info = len \<and> rw_lenDone info = k))"

definition all_waiting ::
  "(int \<Rightarrow> 'w \<Rightarrow> bool) \<Rightarrow> ptr \<Rightarrow> slot \<Rightarrow> int \<Rightarrow> Operations \<Rightarrow> int \<Rightarrow> addr \<Rightarrow> int \<Rightarrow> 'cb \<Rightarrow>
     ('w, 'cb) machine \<Rightarrow> bool"
where
  "all_waiting P this s d opr fl buf len c m \<longleftrightarrow>
     (\<exists>k. waiting_at this s d opr fl buf len c k m \<and> P k (world m))"

text \<open>The callback is called with \<open>v\<close> as the last thing, with the slot free, and \<open>a\<close> is returned.\<close>

definition reports ::
  "('w, 'cb) env \<Rightarrow> ptr \<Rightarrow> slot \<Rightarrow> 'cb \<Rightarrow> int \<Rightarrow> 'w \<Rightarrow> 'a \<Rightarrow> ('a, ('w, 'cb) machine) result \<Rightarrow> bool" where
  "reports E this s c v w a x \<longleftrightarrow> (\<exists>m'. x = obind (usr E c v m') (\<lambda>_ m2. ret a m2) \<and> world m' = w \<and>
     (\<exists>opn. op_at m' this s = Some opn \<and> operation opn = Op_none))"

lemma reportsI:
  assumes "x = obind (usr E c v m') (\<lambda>_ m2. ret a m2)" and "world m' = w"
    and "\<exists>opn. op_at m' this s = Some opn \<and> operation opn = Op_none"
  shows "reports E this s c v w a x"
  using assms unfolding reports_def by blast

text \<open>
  The same for a value that tells what has been moved: \<open>v > 0\<close> when \<open>v\<close> bytes have been, \<open>v \<le> 0\<close>
  when none has. \<open>over\<close> holds of the result that is then returned.
\<close>

definition all_reports ::
  "('w, 'cb) env \<Rightarrow> (int \<Rightarrow> 'w \<Rightarrow> bool) \<Rightarrow> ptr \<Rightarrow> slot \<Rightarrow> int \<Rightarrow> 'cb \<Rightarrow> ('a \<Rightarrow> bool) \<Rightarrow>
     ('a, ('w, 'cb) machine) result \<Rightarrow> bool"
where
  "all_reports E P this s len c over x \<longleftrightarrow>
     (\<exists>v w a. reports E this s c v w a x \<and> over a \<and> v \<le> len \<and> P (max 0 v) w)"

section \<open>The synchronous attempt\<close>

lemma run_call_world:
  assumes "run_call E c m = (r, m1)"
  obtains e where "sys E c (world m) = ((r, e), world m1)"
  using assms by (auto simp: run_call_def split: prod.splits)

lemma moves_step:
  assumes "moves E call buf P" and "0 \<le> k" and "0 < n" and "P k (world m)"
    and "run_call E (call (buf + k) n) m = (r, m1)"
  shows "if 0 < r then r \<le> n \<and> P (k + r) (world m1) else P k (world m1)"
  using assms unfolding moves_def by (metis run_call_world)

text \<open>Every call moves something or would block: the stream neither fails nor ends before \<open>len\<close> bytes.\<close>

definition goes_on :: "(int \<times> int option) \<times> 'w \<Rightarrow> bool" where
  "goes_on x \<longleftrightarrow> (case x of ((r, e), w) \<Rightarrow> 0 < r \<or> r < 0 \<and> e = Some EAGAIN)"

definition never_ends ::
  "('w, 'cb) env \<Rightarrow> (addr \<Rightarrow> int \<Rightarrow> syscall) \<Rightarrow> addr \<Rightarrow> int \<Rightarrow> (int \<Rightarrow> 'w \<Rightarrow> bool) \<Rightarrow> bool" where
  "never_ends E call buf len P \<longleftrightarrow> (\<forall>k w. 0 \<le> k \<longrightarrow> k < len \<longrightarrow> P k w \<longrightarrow>
     goes_on (sys E (call (buf + k) (len - k)) w))"

text \<open>A call that moves less than it asks for, or would block, leaves the stream in \<open>Q\<close>.\<close>

definition exhausts ::
  "('w, 'cb) env \<Rightarrow> (addr \<Rightarrow> int \<Rightarrow> syscall) \<Rightarrow> addr \<Rightarrow> int \<Rightarrow> (int \<Rightarrow> 'w \<Rightarrow> bool) \<Rightarrow> ('w \<Rightarrow> bool) \<Rightarrow> bool" where
  "exhausts E call buf len P Q \<longleftrightarrow> (\<forall>k w r e w'. 0 \<le> k \<longrightarrow> k < len \<longrightarrow> P k w \<longrightarrow>
     sys E (call (buf + k) (len - k)) w = ((r, e), w') \<longrightarrow> r < len - k \<longrightarrow> Q w')"

lemma exhaustsD:
  assumes "exhausts E call buf len P Q" and "0 \<le> k" and "k < len" and "P k (world m)"
    and "run_call E (call (buf + k) (len - k)) m = (r, m1)" and "r < len - k"
  shows "Q (world m1)"
proof -
  obtain e where "sys E (call (buf + k) (len - k)) (world m) = ((r, e), world m1)"
    using run_call_world [OF assms(5)] .
  then show ?thesis using assms(1-4,6) unfolding exhausts_def by blast
qed

lemma never_endsD:
  assumes "never_ends E call buf len P" and "0 \<le> k" and "k < len" and "P k (world m)"
    and "run_call E (call (buf + k) (len - k)) m = (r, m1)"
  shows "0 < r \<or> r < 0 \<and> isWouldBlock m1"
proof -
  obtain e w' where c: "sys E (call (buf + k) (len - k)) (world m) = ((r, e), w')"
    and m1: "m1 = set_errno e (m\<lparr>world := w'\<rparr>)"
    using assms(5) by (auto simp: run_call_def split: prod.splits)
  have "goes_on (sys E (call (buf + k) (len - k)) (world m))" using assms(1-4) by (simp add: never_ends_def)
  then show ?thesis by (auto simp: goes_on_def c m1 set_errno_def isWouldBlock_def)
qed

lemma tryOperation2_loop_moves:
  assumes mv: "moves E call buf P" and len: "in_s32 len"
    and "0 \<le> br" and "br \<le> len" and "P br (world m)"
  shows "(\<exists>k m1. tryOperation2_loop E (Some c) call buf len br m = ret k m1 \<and>
            br \<le> k \<and> k < len \<and> P k (world m1) \<and> heap m1 = heap m \<and>
            (\<forall>Q. exhausts E call buf len P Q \<longrightarrow> Q (world m1))) \<or>
         (\<exists>v m1. tryOperation2_loop E (Some c) call buf len br m = obind (usr E c v m1) (\<lambda>_ m2. ret (-1) m2) \<and>
            v \<le> len \<and> P (max 0 v) (world m1) \<and> heap m1 = heap m \<and> (never_ends E call buf len P \<longrightarrow> v = len))"
  using assms(3-)
proof (induction "nat (len - br)" arbitrary: br m rule: less_induct)
  case less
  show ?case
  proof (cases "br < len")
    case False
    with less.prems have "br = len" by simp
    then show ?thesis
      using less.prems False tryOperation2_loop.simps [of E "Some c" call buf len br m]
      by (intro disjI2 exI [where x = br] exI [where x = m]) (simp add: max_def)
  next
    case True
    have sz: "s32 (len - br) = len - br"
      using True len less.prems(1) by (intro s32_id) (simp add: in_s32_def)
    obtain r m1 where c: "run_call E (call (buf + br) (len - br)) m = (r, m1)"
      by (cases "run_call E (call (buf + br) (len - br)) m")
    have st: "if 0 < r then r \<le> len - br \<and> P (br + r) (world m1) else P br (world m1)"
      using moves_step [OF mv less.prems(1) _ less.prems(3) c] True by simp
    have h: "heap m1 = heap m" using run_call_frame [OF c] by simp
    note unfolded = tryOperation2_loop.simps [of E "Some c" call buf len br m]
    consider (block) "r \<le> 0" "r < 0 \<and> isWouldBlock m1"
      | (stop) "r \<le> 0" "\<not> (r < 0 \<and> isWouldBlock m1)" | (more) "0 < r" by fastforce
    then show ?thesis
    proof cases
      case block
      then have "tryOperation2_loop E (Some c) call buf len br m = ret br m1"
        using True c sz by (simp add: unfolded)
      moreover have "Q (world m1)" if "exhausts E call buf len P Q" for Q
        using exhaustsD [where call = call and P = P, OF that less.prems(1) True less.prems(3) c] block True by simp
      ultimately show ?thesis using block st True h by (intro disjI1) auto
    next
      case stop
      then have "tryOperation2_loop E (Some c) call buf len br m =
          obind (usr E c (if br = 0 then r else br) m1) (\<lambda>_ m2. ret (-1) m2)"
        using True c sz by (auto simp: unfolded)
      moreover have "\<not> never_ends E call buf len P"
        using stop never_endsD [where call = call and P = P, OF _ less.prems(1) True less.prems(3) c] by auto
      ultimately show ?thesis using stop st True h less.prems(1)
        by (intro disjI2 exI [where x = "if br = 0 then r else br"] exI [where x = m1])
          (auto simp: max_def)
    next
      case more
      have br': "s32 (br + r) = br + r"
        using more st len less.prems(1) by (intro s32_id) (simp add: in_s32_def)
      have eq: "tryOperation2_loop E (Some c) call buf len br m =
          tryOperation2_loop E (Some c) call buf len (br + r) m1"
        using True c sz more br' by (simp add: unfolded)
      have "nat (len - (br + r)) < nat (len - br)" using more True by simp
      from less.hyps [OF this, of m1] more st less.prems(1) h
      show ?thesis unfolding eq by (auto split: if_splits)
    qed
  qed
qed

section \<open>Entry points and events\<close>

text \<open>The call of an \<open>*All\<close> operation on a plain buffer.\<close>

definition all_call :: "Operations \<Rightarrow> int \<Rightarrow> int \<Rightarrow> addr \<Rightarrow> int \<Rightarrow> syscall" where
  "all_call opr flags d b n = (case opr of
      Op_readAll \<Rightarrow> Sys_read d b n
    | Op_writeAll \<Rightarrow> Sys_write d b n
    | Op_sendAll \<Rightarrow> Sys_send d b n flags
    | _ \<Rightarrow> Sys_recv d b n flags)"

lemma all_call_simps [simp]:
  "all_call Op_readAll flags d = Sys_read d"
  "all_call Op_writeAll flags d = Sys_write d"
  by (simp_all add: all_call_def fun_eq_iff)

lemma all_attempt_call:
  assumes "is_all (operation opn)" and "\<not> is_rwv (operation opn)"
  shows "all_attempt E d opn m = Some (run_call E (all_call (operation opn) (rw_flags (readWrite opn)) d
    (rw_buf (readWrite opn) + rw_lenDone (readWrite opn))
    (s32 (rw_len (readWrite opn) - rw_lenDone (readWrite opn)))) m)"
  using assms unfolding is_all_cases is_rwv_def
  by (auto simp: all_attempt_def all_call_def Let_def)

text \<open>
  What \<open>readAll\<close> and its kin do on a free slot: they register what the attempt has left, or call the
  callback themselves.
\<close>

definition all_op :: "Operations \<Rightarrow> int \<Rightarrow> addr \<Rightarrow> int \<Rightarrow> 'cb \<Rightarrow> int \<Rightarrow> 'cb OperationInfo \<Rightarrow> 'cb OperationInfo" where
  "all_op opr fl buf len c k opn = opn\<lparr>operation := opr,
     readWrite := \<lparr>rw_buf = buf, rw_len = len, rw_lenDone = k, rw_flags = fl\<rparr>, repeating := False, op_cb := Some c\<rparr>"

lemma waiting_at_all_op:
  assumes "file_at m this = Some f" and "0 \<le> k" and "k < len"
  shows "waiting_at this s (fd f) opr fl buf len c k (put_op this s (all_op opr fl buf len c k x) m)"
  using assms by (simp add: waiting_at_def file_at_put_op all_op_def Let_def)

lemma try2_then_add_outcome:
  assumes free: "op_at m this s = Some opn" "operation opn = Op_none"
    and f: "file_at m this = Some f"
    and mv: "moves E (call (fd f)) buf P" and start: "P 0 (world m)"
    and len: "in_s32 len" "0 < len"
  shows "(\<exists>k m1. try2_then_add E this s opr call buf len (Some c) m =
              ret () (put_op this s (all_op opr 0 buf len c k opn) m1) \<and>
            0 \<le> k \<and> k < len \<and> P k (world m1) \<and> heap m1 = heap m \<and>
            (\<forall>Q. exhausts E (call (fd f)) buf len P Q \<longrightarrow> (skipSynchronousAttempt opn \<longrightarrow> Q (world m)) \<longrightarrow>
               Q (world m1))) \<or>
         (\<exists>v m1. try2_then_add E this s opr call buf len (Some c) m = obind (usr E c v m1) (\<lambda>_ m2. ret () m2) \<and>
            v \<le> len \<and> P (max 0 v) (world m1) \<and> heap m1 = heap m \<and> \<not> skipSynchronousAttempt opn \<and>
            (never_ends E (call (fd f)) buf len P \<longrightarrow> v = len))"
proof -
  have added: "addRWOp this s opr (Some c) buf len k 0 False m1 =
      ret () (put_op this s (all_op opr 0 buf len c k opn) m1)" if "heap m1 = heap m" for k m1
    using free(1) op_at_heap [OF that] by (simp add: addRWOp_def with_op_def all_op_def)
  note body = try2_then_add_def [of E this s opr call buf len "Some c" m]
    when_free_def with_op_Some [OF free(1)] with_file_Some [OF f]
  show ?thesis
  proof (cases "skipSynchronousAttempt opn")
    case True
    then have "try2_then_add E this s opr call buf len (Some c) m =
        ret () (put_op this s (all_op opr 0 buf len c 0 opn) m)"
      using free(2) added [of m 0] by (simp add: body)
    with True start len(2) show ?thesis by blast
  next
    case False
    then have eq: "try2_then_add E this s opr call buf len (Some c) m =
        obind (tryOperation2_loop E (Some c) (call (fd f)) buf len 0 m)
          (\<lambda>k m1. if k < 0 then ret () m1 else addRWOp this s opr (Some c) buf len k 0 False m1)"
      using free(2) by (simp add: body File_tryOperation2_def)
    from tryOperation2_loop_moves [OF mv len(1) order.refl less_imp_le [OF len(2)] start, of c]
    show ?thesis
    proof (elim disjE exE conjE)
      fix k m1
      assume "tryOperation2_loop E (Some c) (call (fd f)) buf len 0 m = ret k m1" and k: "0 \<le> k" "k < len"
        and m1: "P k (world m1)" "heap m1 = heap m" "\<forall>Q. exhausts E (call (fd f)) buf len P Q \<longrightarrow> Q (world m1)"
      then have "try2_then_add E this s opr call buf len (Some c) m =
          ret () (put_op this s (all_op opr 0 buf len c k opn) m1)"
        by (simp add: eq added)
      with k m1 show ?thesis by blast
    next
      fix v m1
      assume "tryOperation2_loop E (Some c) (call (fd f)) buf len 0 m = obind (usr E c v m1) (\<lambda>_ m2. ret (-1) m2)"
        and v: "v \<le> len" "P (max 0 v) (world m1)" "heap m1 = heap m" "never_ends E (call (fd f)) buf len P \<longrightarrow> v = len"
      then have "try2_then_add E this s opr call buf len (Some c) m = obind (usr E c v m1) (\<lambda>_ m2. ret () m2)"
        by (simp add: eq obind_assoc)
      with v False show ?thesis by blast
    qed
  qed
qed

lemma try2_then_add_transfer:
  assumes free: "op_at m this s = Some opn" "operation opn = Op_none"
    and f: "file_at m this = Some f"
    and mv: "moves E (call (fd f)) buf P" and start: "P 0 (world m)"
    and len: "in_s32 len" "0 < len"
  shows "(\<exists>m'. try2_then_add E this s opr call buf len (Some c) m = ret () m' \<and>
            all_waiting P this s (fd f) opr 0 buf len c m') \<or>
         all_reports E P this s len c (\<lambda>_. True) (try2_then_add E this s opr call buf len (Some c) m)"
  using try2_then_add_outcome [where call = call and P = P and c = c and opr = opr, OF assms]
proof (elim disjE exE conjE)
  fix k m1
  assume eq: "try2_then_add E this s opr call buf len (Some c) m =
      ret () (put_op this s (all_op opr 0 buf len c k opn) m1)"
    and k: "0 \<le> k" "k < len" and m1: "P k (world m1)" "heap m1 = heap m"
  have "file_at m1 this = Some f" using f file_at_heap [OF m1(2)] by simp
  from waiting_at_all_op [OF this k] m1(1)
  have "all_waiting P this s (fd f) opr 0 buf len c (put_op this s (all_op opr 0 buf len c k opn) m1)"
    unfolding all_waiting_def by (intro exI [where x = k]) simp
  with eq show ?thesis by blast
next
  fix v m1
  assume eq: "try2_then_add E this s opr call buf len (Some c) m = obind (usr E c v m1) (\<lambda>_ m2. ret () m2)"
    and v: "v \<le> len" "P (max 0 v) (world m1)" and h: "heap m1 = heap m"
  have "op_at m1 this s = Some opn" using free(1) op_at_heap [OF h] by simp
  with eq v free(2) show ?thesis unfolding all_reports_def reports_def by blast
qed

text \<open>An event clears \<open>skipSynchronousAttempt\<close>: it is not set when the callback of a transfer is called.\<close>

definition clear_report ::
  "('w, 'cb) env \<Rightarrow> ptr \<Rightarrow> slot \<Rightarrow> 'cb \<Rightarrow> int \<Rightarrow> 'w \<Rightarrow> 'a \<Rightarrow> ('a, ('w, 'cb) machine) result \<Rightarrow> bool" where
  "clear_report E this s c v w a x \<longleftrightarrow> (\<exists>m'. x = obind (usr E c v m') (\<lambda>_ m2. ret a m2) \<and> world m' = w \<and>
     (\<exists>opn. op_at m' this s = Some opn \<and> operation opn = Op_none \<and> \<not> skipSynchronousAttempt opn))"

lemma clear_report_reports: "clear_report E this s c v w a x \<Longrightarrow> reports E this s c v w a x"
  unfolding clear_report_def reports_def by blast

lemma clear_reportI:
  assumes "x = obind (usr E c v m') (\<lambda>_ m2. ret a m2)" and "world m' = w"
    and "\<exists>opn. op_at m' this s = Some opn \<and> operation opn = Op_none \<and> \<not> skipSynchronousAttempt opn"
  shows "clear_report E this s c v w a x"
  using assms unfolding clear_report_def by blast

text \<open>One event of a waiting operation, in the four cases of the call's result.\<close>

lemma doOperation_all_step:
  assumes wait: "waiting_at this s d opr fl buf len c k m"
    and opr: "is_all opr" "\<not> is_rwv opr" and len: "in_s32 len"
    and call: "run_call E (all_call opr fl d (buf + k) (len - k)) m = (r, m1)"
    and r: "0 < r \<longrightarrow> r \<le> len - k"
  shows "if r < 0 \<and> isWouldBlock m1 then
           \<exists>m'. File_doOperation E this s isWrite hup m = ret CONTINUE m' \<and> world m' = world m1 \<and>
             waiting_at this s d opr fl buf len c k m'
         else if r \<le> 0 then
           clear_report E this s c (if k = 0 then r else k) (world m1) DONE_PERMANENT
             (File_doOperation E this s isWrite hup m)
         else if k + r = len \<or> hup then
           clear_report E this s c (k + r) (world m1) DONE (File_doOperation E this s isWrite hup m)
         else \<exists>m'. File_doOperation E this s isWrite hup m = ret CONTINUE m' \<and> world m' = world m1 \<and>
             waiting_at this s d opr fl buf len c (k + r) m'"
proof -
  obtain f where f: "file_at m this = Some f" "fd f = d" and o: "operation (pendingOps f s) = opr"
      "\<not> repeating (pendingOps f s)" "op_cb (pendingOps f s) = Some c"
    and i: "rw_flags (readWrite (pendingOps f s)) = fl" "rw_buf (readWrite (pendingOps f s)) = buf"
      "rw_len (readWrite (pendingOps f s)) = len" "rw_lenDone (readWrite (pendingOps f s)) = k"
    and k: "0 \<le> k" "k < len"
    using wait unfolding waiting_at_def Let_def by blast
  have "s32 (len - k) = len - k" using k len by (intro s32_id) (simp add: in_s32_def)
  then have att: "all_attempt E (fd f) (pendingOps f s) m = Some (r, m1)"
    using opr o(1) call f(2) i by (simp add: all_attempt_call)
  let ?o1 = "(pendingOps f s)\<lparr>readWrite := (readWrite (pendingOps f s))\<lparr>rw_lenDone := s32 (k + r)\<rparr>\<rparr>"
  have rec: "all_record (pendingOps f s) r (iovs m1) = (?o1, iovs m1)"
    using opr o(1) i(4) by (simp add: all_record_def)
  have lens: "op_lenDone (pendingOps f s) = k" "op_lenTotal (pendingOps f s) = len"
    using opr o(1) i by (simp_all add: op_lenDone_def op_lenTotal_def)
  note eq = doOperation_all [OF f(1) refl _ o(2) att rec, unfolded o lens, OF opr(1), of isWrite hup]
  have fm1: "file_at m1 this = Some f" using run_call_frame [OF call] f(1) by simp
  have free: "\<exists>opn. op_at (put_op this s x m1) this s = Some opn \<and> operation opn = Op_none \<and>
      \<not> skipSynchronousAttempt opn"
    if "operation x = Op_none" "\<not> skipSynchronousAttempt x" for x using that op_at_file [OF fm1] by simp
  have wait': "waiting_at this s d opr fl buf len c j (put_op this s x m1)"
    if "operation x = opr" "\<not> repeating x" "op_cb x = Some c" "0 \<le> j" "j < len"
      "readWrite x = (readWrite (pendingOps f s))\<lparr>rw_lenDone := j\<rparr>" for x j
    using that fm1 f(2) i unfolding waiting_at_def by (auto simp: file_at_put_op Let_def)
  have same: "(readWrite (pendingOps f s))\<lparr>rw_lenDone := k\<rparr> = readWrite (pendingOps f s)"
    using i(4) by (cases "readWrite (pendingOps f s)") simp
  have kr: "s32 (k + r) = k + r" if "0 < r"
    using that r k len by (intro s32_id) (simp add: in_s32_def)
  consider (block) "r < 0 \<and> isWouldBlock m1"
    | (stop) "\<not> (r < 0 \<and> isWouldBlock m1)" "r \<le> 0"
    | (finish) "0 < r" "k + r = len \<or> hup" | (more) "0 < r" "\<not> (k + r = len \<or> hup)" by linarith
  then show ?thesis
  proof cases
    case block
    have "waiting_at this s d opr fl buf len c k
        (put_op this s ((pendingOps f s)\<lparr>skipSynchronousAttempt := False\<rparr>) m1)"
      by (rule wait') (simp_all add: o k same)
    then show ?thesis using block unfolding eq by simp
  next
    case stop
    have "clear_report E this s c (if k = 0 then r else k) (world m1) DONE_PERMANENT
        (File_doOperation E this s isWrite hup m)"
      by (rule clear_reportI [where m' = "put_op this s ((pendingOps f s)\<lparr>skipSynchronousAttempt := False,
            operation := Op_none\<rparr>) m1"]) (use stop free in \<open>auto simp: eq\<close>)
    then show ?thesis using stop by auto
  next
    case finish
    have "clear_report E this s c (k + r) (world m1) DONE (File_doOperation E this s isWrite hup m)"
      by (rule clear_reportI [where m' = "put_op this s (?o1\<lparr>skipSynchronousAttempt := False,
            operation := Op_none\<rparr>) m1"]) (use finish r free kr in \<open>auto simp: eq Let_def\<close>)
    then show ?thesis using finish by simp
  next
    case more
    have "waiting_at this s d opr fl buf len c (k + r)
        (put_op this s (?o1\<lparr>skipSynchronousAttempt := False\<rparr>) m1)"
      by (rule wait') (use more o k kr r in auto)
    then show ?thesis using more kr r unfolding eq by auto
  qed
qed

lemma all_reports_mono:
  assumes "all_reports E P this s len c over x" and "\<And>v w. v \<le> len \<Longrightarrow> P (max 0 v) w \<Longrightarrow> P' (max 0 v) w"
  shows "all_reports E P' this s len c over x"
  using assms unfolding all_reports_def by blast

text \<open>When no call fails and the event is no hang-up, what is reported is that all is done.\<close>

lemma doOperation_all_exact:
  assumes wait: "all_waiting P this s d opr fl buf len c m"
    and opr: "is_all opr" "\<not> is_rwv opr" and len: "in_s32 len"
    and mv: "moves E (all_call opr fl d) buf P"
  shows "(\<exists>m'. File_doOperation E this s isWrite hup m = ret CONTINUE m' \<and>
            all_waiting P this s d opr fl buf len c m') \<or>
         all_reports E (\<lambda>v w. P v w \<and> (never_ends E (all_call opr fl d) buf len P \<and> \<not> hup \<longrightarrow> v = len))
           this s len c (\<lambda>res. res \<noteq> CONTINUE) (File_doOperation E this s isWrite hup m)"
proof -
  obtain k where w: "waiting_at this s d opr fl buf len c k m" and P: "P k (world m)"
    using wait unfolding all_waiting_def by blast
  then have k: "0 \<le> k" "k < len" by (simp_all add: waiting_at_def)
  obtain r m1 where c: "run_call E (all_call opr fl d (buf + k) (len - k)) m = (r, m1)"
    by (cases "run_call E (all_call opr fl d (buf + k) (len - k)) m")
  have st: "if 0 < r then r \<le> len - k \<and> P (k + r) (world m1) else P k (world m1)"
    using moves_step [OF mv k(1) _ P c] k(2) by simp
  then have "0 < r \<longrightarrow> r \<le> len - k" by simp
  note step = doOperation_all_step [OF w opr len c this, of isWrite hup]
  let ?P = "\<lambda>v w. P v w \<and> (never_ends E (all_call opr fl d) buf len P \<and> \<not> hup \<longrightarrow> v = len)"
  consider (block) "r < 0 \<and> isWouldBlock m1"
    | (stop) "\<not> (r < 0 \<and> isWouldBlock m1)" "r \<le> 0"
    | (finish) "0 < r" "k + r = len \<or> hup" | (more) "0 < r" "\<not> (k + r = len \<or> hup)" by linarith
  then show ?thesis
  proof cases
    case block
    then show ?thesis using step st unfolding all_waiting_def by auto
  next
    case stop
    then have no: "\<not> never_ends E (all_call opr fl d) buf len P"
      using never_endsD [where call = "all_call opr fl d" and P = P, OF _ k P c] by auto
    have "all_reports E ?P this s len c (\<lambda>res. res \<noteq> CONTINUE) (File_doOperation E this s isWrite hup m)"
      unfolding all_reports_def
      by (rule exI [where x = "if k = 0 then r else k"], rule exI [where x = "world m1"],
          rule exI [where x = DONE_PERMANENT]) (use stop step st k no in \<open>auto simp: max_def intro: clear_report_reports\<close>)
    then show ?thesis ..
  next
    case finish
    have "all_reports E ?P this s len c (\<lambda>res. res \<noteq> CONTINUE) (File_doOperation E this s isWrite hup m)"
      unfolding all_reports_def
      by (rule exI [where x = "k + r"], rule exI [where x = "world m1"], rule exI [where x = DONE])
        (use finish step st k in \<open>auto simp: max_def intro: clear_report_reports\<close>)
    then show ?thesis ..
  next
    case more
    then show ?thesis using step st unfolding all_waiting_def by auto
  qed
qed

lemma doOperation_all_transfer:
  assumes "all_waiting P this s d opr fl buf len c m"
    and "is_all opr" "\<not> is_rwv opr" and "in_s32 len" and "moves E (all_call opr fl d) buf P"
  shows "(\<exists>m'. File_doOperation E this s isWrite hup m = ret CONTINUE m' \<and>
            all_waiting P this s d opr fl buf len c m') \<or>
         all_reports E P this s len c (\<lambda>res. res \<noteq> CONTINUE) (File_doOperation E this s isWrite hup m)"
  using doOperation_all_exact [OF assms, of isWrite hup] by (blast intro: all_reports_mono)

text \<open>If the call moves something, the operation gets further or reports that all is done.\<close>

definition always_moves ::
  "('w, 'cb) env \<Rightarrow> (addr \<Rightarrow> int \<Rightarrow> syscall) \<Rightarrow> addr \<Rightarrow> int \<Rightarrow> (int \<Rightarrow> 'w \<Rightarrow> bool) \<Rightarrow> bool" where
  "always_moves E call buf len P \<longleftrightarrow> (\<forall>k w. 0 \<le> k \<longrightarrow> k < len \<longrightarrow> P k w \<longrightarrow>
     0 < fst (fst (sys E (call (buf + k) (len - k)) w)))"

text \<open>A read call returns something as long as the stream has what is asked for.\<close>

definition data_ready ::
  "('w, 'cb) env \<Rightarrow> (addr \<Rightarrow> int \<Rightarrow> syscall) \<Rightarrow> ('w \<Rightarrow> byte list) \<Rightarrow> bool" where
  "data_ready E call inp \<longleftrightarrow> (\<forall>b n w. 0 < n \<longrightarrow> n \<le> int (length (inp w)) \<longrightarrow>
     0 < fst (fst (sys E (call b n) w)))"

lemma data_ready_moves:
  assumes "data_ready E call inp" and "len \<le> int (length (inp w0))"
  shows "always_moves E call buf len (read_so_far inp mem buf w0)"
  using assms by (auto simp: always_moves_def data_ready_def read_so_far_def)

lemma doOperation_all_moved:
  assumes w: "waiting_at this s d opr fl buf len c k m" and P: "P k (world m)"
    and opr: "is_all opr" "\<not> is_rwv opr" and len: "in_s32 len"
    and mv: "moves E (all_call opr fl d) buf P"
    and pos: "0 < fst (fst (sys E (all_call opr fl d (buf + k) (len - k)) (world m)))"
  shows "(\<exists>m' j. File_doOperation E this s isWrite False m = ret CONTINUE m' \<and> k < j \<and>
            waiting_at this s d opr fl buf len c j m' \<and> P j (world m') \<and>
            (\<forall>Q. exhausts E (all_call opr fl d) buf len P Q \<longrightarrow> Q (world m'))) \<or>
         (\<exists>w'. clear_report E this s c len w' DONE (File_doOperation E this s isWrite False m) \<and> P len w')"
proof -
  have k: "0 \<le> k" "k < len" using w by (simp_all add: waiting_at_def)
  obtain r m1 where c: "run_call E (all_call opr fl d (buf + k) (len - k)) m = (r, m1)"
    by (cases "run_call E (all_call opr fl d (buf + k) (len - k)) m")
  obtain e where "sys E (all_call opr fl d (buf + k) (len - k)) (world m) = ((r, e), world m1)"
    using run_call_world [OF c] .
  then have r: "0 < r" using pos by simp
  then have st: "r \<le> len - k" "P (k + r) (world m1)"
    using moves_step [OF mv k(1) _ P c] k(2) by simp_all
  then have "0 < r \<longrightarrow> r \<le> len - k" by simp
  note step = doOperation_all_step [OF w opr len c this, of isWrite False]
  show ?thesis
  proof (cases "k + r = len")
    case True
    then show ?thesis using step st r by auto
  next
    case False
    then obtain m' where m': "File_doOperation E this s isWrite False m = ret CONTINUE m'"
        "world m' = world m1" "waiting_at this s d opr fl buf len c (k + r) m'"
      using step r by auto
    have "Q (world m1)" if "exhausts E (all_call opr fl d) buf len P Q" for Q
      using exhaustsD [where call = "all_call opr fl d" and P = P, OF that k P c] st False by simp
    then have "\<forall>Q. exhausts E (all_call opr fl d) buf len P Q \<longrightarrow> Q (world m')" unfolding m'(2) by blast
    moreover have "k < k + r" and "P (k + r) (world m')" using r st(2) m'(2) by simp_all
    ultimately show ?thesis using m'(1,3) by blast
  qed
qed

lemma doOperation_all_progress:
  assumes w: "waiting_at this s d opr fl buf len c k m" and P: "P k (world m)"
    and opr: "is_all opr" "\<not> is_rwv opr" and len: "in_s32 len"
    and mv: "moves E (all_call opr fl d) buf P"
    and prog: "always_moves E (all_call opr fl d) buf len P"
  shows "(\<exists>m' j. File_doOperation E this s isWrite False m = ret CONTINUE m' \<and> k < j \<and>
            waiting_at this s d opr fl buf len c j m' \<and> P j (world m')) \<or>
         (\<exists>w'. reports E this s c len w' DONE (File_doOperation E this s isWrite False m) \<and> P len w')"
  using doOperation_all_moved [OF w P opr len mv, of isWrite] prog P w
  unfolding always_moves_def waiting_at_def by (blast intro: clear_report_reports)

end
