(* ===== verification/CPoll_Dispatch.thy ===== *)
theory CPoll_Dispatch
  imports CPoll_Transfer
begin

text \<open>
  \<open>dispatch\<close> over the two slots, proved once for every class that has the two operations it
  calls (\<open>File\<close> and \<open>Socket\<close> each have their own), and the properties of \<open>handleHup\<close> and of
  repeated operations.
\<close>

unbundle bit_operations_syntax

section \<open>The interface that dispatch uses\<close>

lemma has_event_zero [simp]: "\<not> has_event 0 b"
  by (simp add: has_event_def)

lemma with_events_Some: "events_at m ref = Some ev \<Longrightarrow> with_events ref m k = k ev"
  by (simp add: with_events_def)

text \<open>The state in which the callback of a one-shot operation runs.\<close>

definition settled ::
  "ptr \<Rightarrow> slot \<Rightarrow> 'cb OperationInfo \<Rightarrow> int \<Rightarrow> int \<Rightarrow> bool \<Rightarrow> ('w, 'cb) machine \<Rightarrow> ('w, 'cb) machine" where
  "settled this s opn r myLen hup m1 = put_op this s (opn\<lparr>operation := Op_none,
     skipSynchronousAttempt := (0 < r \<and> r < myLen \<and> \<not> hup)\<rparr>) m1"

locale fd_operations =
  fixes E :: "('w, 'cb) env" and this :: ptr
    and doOp :: "slot \<Rightarrow> bool \<Rightarrow> bool \<Rightarrow> ('w, 'cb) machine \<Rightarrow> (OperationResult, ('w, 'cb) machine) result"
    and hh :: "slot \<Rightarrow> bool \<Rightarrow> ('w, 'cb) machine \<Rightarrow> (unit, ('w, 'cb) machine) result"
  assumes doOp_idle: "\<And>m s opn w h. op_at m this s = Some opn \<Longrightarrow> operation opn = Op_none \<Longrightarrow>
      doOp s w h m = ret DONE_PERMANENT (put_op this s (opn\<lparr>skipSynchronousAttempt := False\<rparr>) m)"
    and hh_idle: "\<And>m s opn w. op_at m this s = Some opn \<Longrightarrow> operation opn = Op_none \<Longrightarrow> hh s w m = ret () m"
    and doOp_oneshot: "\<And>m f s opn r myLen m1 w h. file_at m this = Some f \<Longrightarrow> pendingOps f s = opn \<Longrightarrow>
      is_ordinary (operation opn) \<Longrightarrow> \<not> repeating opn \<Longrightarrow>
      ordinary_attempt E (fd f) opn m = Some (r, myLen, m1) \<Longrightarrow> \<not> (r < 0 \<and> isWouldBlock m1) \<Longrightarrow>
      doOp s w h m = obind (invoke E (op_cb opn) r (settled this s opn r myLen h m1))
        (\<lambda>_ m2. ret (if r \<le> 0 then DONE_PERMANENT else DONE) m2)"
begin

lemma quiet: "events_at m ref = Some 0 \<Longrightarrow> dispatch_slots doOp hh ref m = ret () m"
  by (simp add: dispatch_slots_def with_events_Some)

lemma idle:
  assumes "events_at m ref = Some ev"
    and "op_at m this Rd = Some o0" "operation o0 = Op_none"
    and "op_at m this Wr = Some o1" "operation o1 = Op_none"
  obtains m' where "dispatch_slots doOp hh ref m = ret () m'" and "world m' = world m"
    and "errno m' = errno m" and "events_at m' ref = Some ev"
proof -
  let ?m = "if has_event ev EPOLLIN then put_op this Rd (o0\<lparr>skipSynchronousAttempt := False\<rparr>) m else m"
  let ?m' = "if has_event ev EPOLLOUT then put_op this Wr (o1\<lparr>skipSynchronousAttempt := False\<rparr>) ?m else ?m"
  have w: "op_at ?m this Wr = Some o1" and ev: "events_at ?m ref = Some ev"
    using assms by simp_all
  have "dispatch_slots doOp hh ref m = ret () ?m'"
    using assms doOp_idle [OF w assms(5)] hh_idle [OF w assms(5)]
      doOp_idle [OF assms(2,3)] hh_idle [OF assms(2,3)] ev
    by (auto simp: dispatch_slots_def with_events_Some)
  moreover have "world ?m' = world m" "errno ?m' = errno m" "events_at ?m' ref = Some ev"
    using assms by simp_all
  ultimately show ?thesis by (rule that)
qed

lemma read_then_gone:
  assumes "events_at m ref = Some ev" and "has_event ev EPOLLIN"
    and "file_at m this = Some f" and "pendingOps f Rd = opn"
    and "is_ordinary (operation opn)" and "\<not> repeating opn" and "op_cb opn = Some c"
    and "ordinary_attempt E (fd f) opn m = Some (r, myLen, m1)" and "\<not> (r < 0 \<and> isWouldBlock m1)"
    and "usr E c r (settled this Rd opn r myLen (has_event ev EPOLLERR \<or> has_event ev EPOLLHUP) m1) =
      ret () m2"
    and "events_at m2 ref = Some 0"
  shows "dispatch_slots doOp hh ref m = ret () m2"
  using assms doOp_oneshot [OF assms(3-6,8,9)]
  by (simp add: dispatch_slots_def with_events_Some)

end

section \<open>File provides it\<close>

lemma File_doOperation_idle:
  assumes "op_at m this s = Some opn" "operation opn = Op_none"
  shows "File_doOperation E this s w h m =
    ret DONE_PERMANENT (put_op this s (opn\<lparr>skipSynchronousAttempt := False\<rparr>) m)"
  using assms
  by (simp add: File_doOperation_def with_op_def Let_def all_or_other_def other_block_def
      less_eq_Operations_def)

lemma File_handleHup_idle:
  "op_at m this s = Some opn \<Longrightarrow> operation opn = Op_none \<Longrightarrow> File_handleHup E this s w m = ret () m"
  by (simp add: File_handleHup_def with_op_def)

lemma File_doOperation_oneshot_report:
  assumes "file_at m this = Some f" and "pendingOps f s = opn"
    and "is_ordinary (operation opn)" and "\<not> repeating opn"
    and "ordinary_attempt E (fd f) opn m = Some (r, myLen, m1)" and "\<not> (r < 0 \<and> isWouldBlock m1)"
  shows "File_doOperation E this s w h m =
    obind (invoke E (op_cb opn) r (settled this s opn r myLen h m1))
      (\<lambda>_ m2. ret (if r \<le> 0 then DONE_PERMANENT else DONE) m2)"
  unfolding settled_def using doOperation_oneshot [OF assms(1-5), of w h] assms(6) by simp

interpretation file_ops: fd_operations E this "File_doOperation E this" "File_handleHup E this"
  for E :: "('w, 'cb) env" and this
proof (unfold_locales, goal_cases)
  case 1 then show ?case by (rule File_doOperation_idle)
next
  case 2 then show ?case by (rule File_handleHup_idle)
next
  case 3 then show ?case by (rule File_doOperation_oneshot_report)
qed

section \<open>Hang-up\<close>

text \<open>The operations of the first \<open>if\<close> of \<open>handleHup\<close>.\<close>

abbreviation hup_ordinary :: "Operations \<Rightarrow> bool" where
  "hup_ordinary opr \<equiv> Op_read \<le> opr \<and> opr \<le> Op_sendFileFrom"

abbreviation hup_all :: "Operations \<Rightarrow> bool" where
  "hup_all opr \<equiv> Op_readAll \<le> opr \<and> opr \<le> Op_recvAll"

lemma hup_ordinary_not_none: "hup_ordinary x \<Longrightarrow> x \<noteq> Op_none"
  by (auto simp: less_eq_Operations_def)

lemma hup_all_not: "hup_all x \<Longrightarrow> x \<noteq> Op_none \<and> \<not> hup_ordinary x"
  by (auto simp: less_eq_Operations_def)

definition hup_state ::
  "ptr \<Rightarrow> slot \<Rightarrow> 'cb OperationInfo \<Rightarrow> bool \<Rightarrow> ('w, 'cb) machine \<Rightarrow> ('w, 'cb) machine" where
  "hup_state this s opn isWrite m =
     (put_op this s (opn\<lparr>operation := Op_none\<rparr>) m)\<lparr>errno := hup_errno isWrite\<rparr>"

lemma handleHup_ordinary:
  assumes "op_at m this s = Some opn" and "hup_ordinary (operation opn)"
  shows "File_handleHup E this s isWrite m =
    obind (invoke E (op_cb opn) (hup_result isWrite) (hup_state this s opn isWrite m))
      (\<lambda>_ m1. hup_all_part E this s isWrite m1)"
  using assms hup_ordinary_not_none [OF assms(2)]
  by (simp add: File_handleHup_def with_op_def hup_state_def)

lemma handleHup_all:
  assumes "op_at m this s = Some opn" and "hup_all (operation opn)"
  shows "File_handleHup E this s isWrite m =
    obind (if rw_lenDone (readWrite opn) > 0
           then invoke E (op_cb opn) (rw_lenDone (readWrite opn)) (put_op this s (opn\<lparr>operation := Op_none\<rparr>) m)
           else ret () (put_op this s (opn\<lparr>operation := Op_none\<rparr>) m))
      (\<lambda>_ m2. with_op this s m2 (\<lambda>opn2.
         invoke E (op_cb opn2) (hup_result isWrite) (m2\<lparr>errno := hup_errno isWrite\<rparr>)))"
proof -
  have n: "operation opn \<noteq> Op_none" "\<not> hup_ordinary (operation opn)"
    using hup_all_not [OF assms(2)] by blast+
  show ?thesis
    unfolding File_handleHup_def with_op_Some [OF assms(1)] if_not_P [OF n(1)] if_not_P [OF n(2)]
      hup_all_part_def obind_simps Let_def if_P [OF assms(2)] ..
qed

lemma handleHup_others:
  assumes "op_at m this s = Some opn"
    and "\<not> hup_ordinary (operation opn)" and "\<not> hup_all (operation opn)"
  shows "File_handleHup E this s isWrite m = ret () m"
  unfolding File_handleHup_def with_op_Some [OF assms(1)] if_not_P [OF assms(2)]
    hup_all_part_def obind_simps if_not_P [OF assms(3)] by simp

end
