(* ===== verification/CPoll_Socket.thy ===== *)
theory CPoll_Socket
  imports CPoll_Dispatch
begin

text \<open>
  \<open>class Socket\<close> (src/cpoll.C): the two operations it adds to \<open>File\<close>'s (\<open>accept\<close> and
  \<open>connect\<close>), its entry points, and binding and connecting by host name, which tries the
  addresses of the host one after the other.
\<close>

unbundle bit_operations_syntax

section \<open>Pending accept and connect\<close>

definition SOCK_FLAGS :: int where "SOCK_FLAGS = 526336"  \<comment> \<open>SOCK\_CLOEXEC | SOCK\_NONBLOCK\<close>
definition SOCK_CLOEXEC :: int where "SOCK_CLOEXEC = 524288"
definition SOCK_STREAM :: int where "SOCK_STREAM = 1"
definition SO_REUSEADDR :: int where "SO_REUSEADDR = 2"
definition SO_REUSEPORT :: int where "SO_REUSEPORT = 15"

definition Socket_accept ::
  "('w, 'cb) env \<Rightarrow> ptr \<Rightarrow> ('w, 'cb) machine \<Rightarrow> (int, ('w, 'cb) machine) result" where
  "Socket_accept E this m = with_file this m (\<lambda>f.
     case run_call E (Sys_accept4 (fd f) SOCK_FLAGS) m of (r, m1) \<Rightarrow> ret r m1)"

partial_function (option) accept_loop ::
  "('w, 'cb) env \<Rightarrow> ptr \<Rightarrow> slot \<Rightarrow> ('w, 'cb) machine \<Rightarrow> (OperationResult, ('w, 'cb) machine) result"
where
  "accept_loop E this s m =
     obind (Socket_accept E this m) (\<lambda>r m1. with_op this s m1 (\<lambda>opn.
       if r < 0 then
         (if isWouldBlock m1 then ret CONTINUE m1
          else obind (invoke E (op_cb opn) r (put_op this s (opn\<lparr>operation := Op_none\<rparr>) m1))
                 (\<lambda>_ m2. ret DONE_PERMANENT m2))
       else obind (invoke E (op_cb opn) r m1) (\<lambda>_ m2.
         with_op this s m2 (\<lambda>opn2.
           if operation opn2 = Op_accept then accept_loop E this s m2 else ret DONE m2))))"

text \<open>The end of a pending \<open>connect\<close>: \<open>SO_ERROR\<close> goes to \<open>errno\<close> and decides the result.\<close>

definition finish_connect ::
  "('w, 'cb) env \<Rightarrow> ptr \<Rightarrow> slot \<Rightarrow> ('w, 'cb) machine \<Rightarrow> (unit, ('w, 'cb) machine) result" where
  "finish_connect E this s m = with_file this m (\<lambda>f. with_op this s m (\<lambda>opn.
     case run_out (sys_so_error E (fd f)) m of (r, val, m1) \<Rightarrow>
       let m2 = (if 0 \<le> r then m1\<lparr>errno := val\<rparr> else m1) in
       invoke E (op_cb opn) (if errno m2 = 0 then 0 else -1)
         (put_op this s (opn\<lparr>operation := Op_none\<rparr>) m2)))"

definition Socket_doOperation ::
  "('w, 'cb) env \<Rightarrow> ptr \<Rightarrow> slot \<Rightarrow> bool \<Rightarrow> bool \<Rightarrow> ('w, 'cb) machine \<Rightarrow>
     (OperationResult, ('w, 'cb) machine) result" where
  "Socket_doOperation E this s isWrite hup m = with_op this s m (\<lambda>opn.
     case operation opn of
       Op_accept \<Rightarrow>
         if repeating opn then accept_loop E this s m
         else obind (Socket_accept E this m) (\<lambda>r m1.
           if r < 0 \<and> isWouldBlock m1 then ret CONTINUE m1
           else obind (invoke E (op_cb opn) r (put_op this s (opn\<lparr>operation := Op_none\<rparr>) m1))
                  (\<lambda>_ m2. ret DONE m2))
     | Op_connect \<Rightarrow> obind (finish_connect E this s m) (\<lambda>_ m1. ret DONE m1)
     | _ \<Rightarrow> File_doOperation E this s isWrite hup m)"

definition Socket_handleHup ::
  "('w, 'cb) env \<Rightarrow> ptr \<Rightarrow> slot \<Rightarrow> bool \<Rightarrow> ('w, 'cb) machine \<Rightarrow> (unit, ('w, 'cb) machine) result"
where
  "Socket_handleHup E this s isWrite m = with_op this s m (\<lambda>opn.
     case operation opn of
       Op_accept \<Rightarrow> invoke E (op_cb opn) (-1)
         ((put_op this s (opn\<lparr>operation := Op_none\<rparr>) m)\<lparr>errno := EPIPE\<rparr>)
     | Op_connect \<Rightarrow> finish_connect E this s m
     | _ \<Rightarrow> File_handleHup E this s isWrite m)"

definition Socket_dispatch ::
  "('w, 'cb) env \<Rightarrow> ptr \<Rightarrow> evref \<Rightarrow> ('w, 'cb) machine \<Rightarrow> (unit, ('w, 'cb) machine) result" where
  "Socket_dispatch E this = dispatch_slots (Socket_doOperation E this) (Socket_handleHup E this)"

text \<open>A socket's operations satisfy the contract that \<open>dispatch\<close> relies on.\<close>

lemma Socket_doOperation_File:
  assumes "op_at m this s = Some opn" and "operation opn \<noteq> Op_accept" and "operation opn \<noteq> Op_connect"
  shows "Socket_doOperation E this s w h m = File_doOperation E this s w h m"
  using assms by (simp add: Socket_doOperation_def with_op_Some split: Operations.split)

lemma Socket_handleHup_File:
  assumes "op_at m this s = Some opn" and "operation opn \<noteq> Op_accept" and "operation opn \<noteq> Op_connect"
  shows "Socket_handleHup E this s w m = File_handleHup E this s w m"
  using assms by (simp add: Socket_handleHup_def with_op_Some split: Operations.split)

lemma ordinary_not_socket: "is_ordinary x \<Longrightarrow> x \<noteq> Op_accept \<and> x \<noteq> Op_connect"
  by (auto simp: less_eq_Operations_def)

interpretation socket_ops: fd_operations E this "Socket_doOperation E this" "Socket_handleHup E this"
  for E :: "('w, 'cb) env" and this
proof (unfold_locales, goal_cases)
  case (1 m s opn w h)
  then show ?case by (simp add: Socket_doOperation_File File_doOperation_idle)
next
  case (2 m s opn w)
  then show ?case by (simp add: Socket_handleHup_File File_handleHup_idle)
next
  case (3 m f s opn r myLen m1 w h)
  have "Socket_doOperation E this s w h m = File_doOperation E this s w h m"
    using 3(2) ordinary_not_socket [OF 3(3)] Socket_doOperation_File [OF op_at_file [OF 3(1)]] by simp
  with File_doOperation_oneshot_report [OF 3] show ?case by simp
qed

section \<open>Creation, addresses, listening\<close>

definition Socket_init ::
  "('w, 'cb) env \<Rightarrow> ptr \<Rightarrow> int \<Rightarrow> int \<Rightarrow> int \<Rightarrow> ('w, 'cb) machine \<Rightarrow> (unit, ('w, 'cb) machine) result"
where
  "Socket_init E this d t p m =
     (case run_call E (Sys_socket d (t OR SOCK_FLAGS) p) m of (r, m1) \<Rightarrow> File_init E this r m1)"

definition socket_init_if_not_already ::
  "('w, 'cb) env \<Rightarrow> ptr \<Rightarrow> int \<Rightarrow> ('w, 'cb) machine \<Rightarrow> (unit, ('w, 'cb) machine) result" where
  "socket_init_if_not_already E this af m = with_file this m (\<lambda>f.
     if fd f < 0 then Socket_init E this af SOCK_STREAM 0 m else ret () m)"

text \<open>
  \<open>getLocalEndPoint\<close> (\<open>peer\<close> false) and \<open>getRemoteEndPoint\<close>: the length is asserted to fit the
  buffer; an object of the address' class is made and set. For a family that the library does
  not know, \<open>create\<close> gives \<open>nullptr\<close>, which is dereferenced.
\<close>

definition Socket_getEndPoint ::
  "('w, 'cb) env \<Rightarrow> bool \<Rightarrow> ptr \<Rightarrow> ('w, 'cb) machine \<Rightarrow> (EndPoint, ('w, 'cb) machine) result" where
  "Socket_getEndPoint E peer this m = with_file this m (\<lambda>f.
     case run_out (sys_sockname E peer (fd f)) m of (r, (sa, l), m1) \<Rightarrow>
       if \<not> l \<le> 256 then Some (Fault Assertion_failed)
       else case EndPoint_create (uninitialised E) (sa_family sa) of
         None \<Rightarrow> Some (Fault Bad_pointer)
       | Some ep \<Rightarrow> (case EndPoint_setSockAddr (little_endian E) sa ep of
           None \<Rightarrow> Some (Fault Bad_pointer)
         | Some (Inl x) \<Rightarrow> Some (Throw x m1)
         | Some (Inr ep') \<Rightarrow> ret ep' m1))"

definition Socket_getLocalEndPoint ::
  "('w, 'cb) env \<Rightarrow> ptr \<Rightarrow> ('w, 'cb) machine \<Rightarrow> (EndPoint, ('w, 'cb) machine) result" where
  "Socket_getLocalEndPoint E = Socket_getEndPoint E False"

definition Socket_getRemoteEndPoint ::
  "('w, 'cb) env \<Rightarrow> ptr \<Rightarrow> ('w, 'cb) machine \<Rightarrow> (EndPoint, ('w, 'cb) machine) result" where
  "Socket_getRemoteEndPoint E = Socket_getEndPoint E True"

definition Socket_bind ::
  "('w, 'cb) env \<Rightarrow> ptr \<Rightarrow> sockaddr \<Rightarrow> int \<Rightarrow> ('w, 'cb) machine \<Rightarrow> (unit, ('w, 'cb) machine) result"
where
  "Socket_bind E this a addr_size m =
     obind (with_file this m (\<lambda>f. if fd f = -1 then Socket_init E this (sa_family a) SOCK_STREAM 0 m
                                   else ret () m))
       (\<lambda>_ m1. with_file this m1 (\<lambda>f.
          case run_call E (Sys_setsockopt (fd f) SO_REUSEADDR) m1 of (_, m2) \<Rightarrow>
          case run_call E (Sys_bind (fd f) a addr_size) m2 of (r, m3) \<Rightarrow>
            if r \<noteq> 0 then Some (Throw (CPollException_number E (errno m3)) m3) else ret () m3))"

definition Socket_bind_ep ::
  "('w, 'cb) env \<Rightarrow> ptr \<Rightarrow> EndPoint \<Rightarrow> ('w, 'cb) machine \<Rightarrow> (unit, ('w, 'cb) machine) result" where
  "Socket_bind_ep E this ep m =
     Socket_bind E this (EndPoint_getSockAddr (little_endian E) ep) (EndPoint_getSockAddrSize ep) m"

definition Socket_listen ::
  "('w, 'cb) env \<Rightarrow> ptr \<Rightarrow> int \<Rightarrow> ('w, 'cb) machine \<Rightarrow> (unit, ('w, 'cb) machine) result" where
  "Socket_listen E this backlog m = with_file this m (\<lambda>f.
     case run_call E (Sys_listen (fd f) backlog) m of (r, m1) \<Rightarrow>
       obind (checkError E r m1) (\<lambda>_ m2. ret () m2))"

definition Socket_shutdown ::
  "('w, 'cb) env \<Rightarrow> ptr \<Rightarrow> int \<Rightarrow> ('w, 'cb) machine \<Rightarrow> (int, ('w, 'cb) machine) result" where
  "Socket_shutdown E this how m = with_file this m (\<lambda>f.
     case run_call E (Sys_shutdown (fd f) how) m of (r, m1) \<Rightarrow> ret r m1)"

definition Socket_recvFrom ::
  "('w, 'cb) env \<Rightarrow> ptr \<Rightarrow> addr \<Rightarrow> int \<Rightarrow> int \<Rightarrow> EndPoint \<Rightarrow> ('w, 'cb) machine \<Rightarrow>
     (int \<times> EndPoint, ('w, 'cb) machine) result" where
  "Socket_recvFrom E this buf len flags ep m = with_file this m (\<lambda>f.
     case run_out (sys_recvfrom E (fd f) buf len flags (EndPoint_getSockAddrSize ep)) m of (r, sa, m1) \<Rightarrow>
       if 0 \<le> r then
         (case EndPoint_setSockAddr (little_endian E) sa ep of
            None \<Rightarrow> Some (Fault Bad_pointer)
          | Some (Inl x) \<Rightarrow> Some (Throw x m1)
          | Some (Inr ep') \<Rightarrow> ret (r, ep') m1)
       else ret (r, ep) m1)"

definition Socket_sendTo ::
  "('w, 'cb) env \<Rightarrow> ptr \<Rightarrow> addr \<Rightarrow> int \<Rightarrow> int \<Rightarrow> EndPoint \<Rightarrow> ('w, 'cb) machine \<Rightarrow>
     (int, ('w, 'cb) machine) result" where
  "Socket_sendTo E this buf len flags ep m = with_file this m (\<lambda>f.
     case run_call E (Sys_sendto (fd f) buf len flags
         (EndPoint_getSockAddr (little_endian E) ep) (EndPoint_getSockAddrSize ep)) m of (r, m1) \<Rightarrow> ret r m1)"

section \<open>Connecting and accepting\<close>

definition Socket_connect_sync ::
  "('w, 'cb) env \<Rightarrow> ptr \<Rightarrow> sockaddr \<Rightarrow> int \<Rightarrow> ('w, 'cb) machine \<Rightarrow> (int, ('w, 'cb) machine) result"
where
  "Socket_connect_sync E this a addr_size m =
     obind (socket_init_if_not_already E this (sa_family a) m) (\<lambda>_ m1. with_file this m1 (\<lambda>f.
       case run_call E (Sys_connect (fd f) a addr_size) m1 of (r, m2) \<Rightarrow> ret r m2))"

definition Socket_connect_sync_ep ::
  "('w, 'cb) env \<Rightarrow> ptr \<Rightarrow> EndPoint \<Rightarrow> ('w, 'cb) machine \<Rightarrow> (int, ('w, 'cb) machine) result" where
  "Socket_connect_sync_ep E this ep m =
     Socket_connect_sync E this (EndPoint_getSockAddr (little_endian E) ep) (EndPoint_getSockAddrSize ep) m"

definition set_connect ::
  "ptr \<Rightarrow> 'cb option \<Rightarrow> ('w, 'cb) machine \<Rightarrow> (unit, ('w, 'cb) machine) result" where
  "set_connect this c m = with_op this Wr m (\<lambda>opn.
     ret () (put_op this Wr (opn\<lparr>operation := Op_connect, repeating := False, op_cb := c\<rparr>) m))"

definition Socket_connect ::
  "('w, 'cb) env \<Rightarrow> ptr \<Rightarrow> sockaddr \<Rightarrow> int \<Rightarrow> 'cb option \<Rightarrow> ('w, 'cb) machine \<Rightarrow>
     (unit, ('w, 'cb) machine) result" where
  "Socket_connect E this a addr_size c m =
     obind (socket_init_if_not_already E this (sa_family a) m) (\<lambda>_ m1. when_free this Wr m1 (\<lambda>_.
       obind (Socket_connect_sync E this a addr_size m1) (\<lambda>r m2.
         if 0 \<le> r \<or> errno m2 \<noteq> EINPROGRESS then invoke E c r m2 else set_connect this c m2)))"

definition Socket_connect_ep ::
  "('w, 'cb) env \<Rightarrow> ptr \<Rightarrow> EndPoint \<Rightarrow> 'cb option \<Rightarrow> ('w, 'cb) machine \<Rightarrow> (unit, ('w, 'cb) machine) result"
where
  "Socket_connect_ep E this ep c m =
     obind (socket_init_if_not_already E this (EndPoint_addressFamily ep) m) (\<lambda>_ m1.
       Socket_connect E this (EndPoint_getSockAddr (little_endian E) ep) (EndPoint_getSockAddrSize ep) c m1)"

definition Socket_accept_async ::
  "('w, 'cb) env \<Rightarrow> ptr \<Rightarrow> 'cb option \<Rightarrow> bool \<Rightarrow> ('w, 'cb) machine \<Rightarrow> (unit, ('w, 'cb) machine) result"
where
  "Socket_accept_async E this c rep m = with_op this Rd m (\<lambda>opn.
     if operation opn \<noteq> Op_none
     then Some (Throw (Logic_error ''accept(): this socket is already reading'') m)
     else with_file this m (\<lambda>f.
       obind (File_tryOperation E c rep (\<lambda>_. Sys_accept (fd f)) m) (\<lambda>done m1.
         if done then ret () m1
         else with_op this Rd m1 (\<lambda>opn1. ret () (put_op this Rd
                (opn1\<lparr>operation := Op_accept, repeating := rep, op_cb := c\<rparr>) m1)))))"

section \<open>By host name\<close>

text \<open>
  The loops over a host's addresses. A null entry is dereferenced. A socket whose \<open>bind\<close> or
  \<open>connect\<close> fails is closed before the next address is tried.
\<close>

fun bind_hosts ::
  "('w, 'cb) env \<Rightarrow> ptr \<Rightarrow> int \<Rightarrow> int \<Rightarrow> bool \<Rightarrow> EndPoint option list \<Rightarrow> ('w, 'cb) machine \<Rightarrow>
     (unit, ('w, 'cb) machine) result" where
  "bind_hosts E this socktype proto reusePort [] m =
     Some (Throw (CPoll_exception (''no bindable hosts were found; last error: '' @ strerror E (errno m)) 0) m)"
| "bind_hosts E this socktype proto reusePort (None # hosts) m = Some (Fault Bad_pointer)"
| "bind_hosts E this socktype proto reusePort (Some h # hosts) m =
     (case run_call E (Sys_socket (EndPoint_addressFamily h) (socktype OR SOCK_FLAGS) proto) m of (sock, m1) \<Rightarrow>
        if sock < 0 then bind_hosts E this socktype proto reusePort hosts m1
        else
          (case run_call E (Sys_setsockopt sock SO_REUSEADDR) m1 of (_, m2) \<Rightarrow>
           case (if reusePort then run_call E (Sys_setsockopt sock SO_REUSEPORT) m2 else (0, m2)) of (_, m3) \<Rightarrow>
           case run_call E (Sys_bind sock (EndPoint_getSockAddr (little_endian E) h)
                  (EndPoint_getSockAddrSize h)) m3 of (r, m4) \<Rightarrow>
             if r = 0 then File_init E this sock m4
             else bind_hosts E this socktype proto reusePort hosts (snd (run_call E (Sys_close sock) m4))))"

definition lookup_hosts ::
  "('w, 'cb) env \<Rightarrow> string \<Rightarrow> string \<Rightarrow> int \<Rightarrow> int \<Rightarrow> int \<Rightarrow> ('w, 'cb) machine \<Rightarrow>
     (EndPoint option list, ('w, 'cb) machine) result" where
  "lookup_hosts E hostname port family socktype proto m =
     (case host_answer E hostname port family socktype proto (world m) of (ans, w) \<Rightarrow>
        case EndPoint_lookupHost (little_endian E) (gai_strerror E) ans of
          None \<Rightarrow> Some (Fault Bad_pointer)
        | Some (Inl x) \<Rightarrow> Some (Throw x (m\<lparr>world := w\<rparr>))
        | Some (Inr hosts) \<Rightarrow> ret hosts (m\<lparr>world := w\<rparr>))"

definition already_initialized :: "string \<Rightarrow> exn" where
  "already_initialized f = CPoll_exception
     (''Socket::'' @ f @ ''(string, ...) creates a socket, but the socket is already initialized'') 0"

definition Socket_bind_host ::
  "('w, 'cb) env \<Rightarrow> ptr \<Rightarrow> string \<Rightarrow> string \<Rightarrow> int \<Rightarrow> int \<Rightarrow> int \<Rightarrow> bool \<Rightarrow> ('w, 'cb) machine \<Rightarrow>
     (unit, ('w, 'cb) machine) result" where
  "Socket_bind_host E this hostname port family socktype proto reusePort m = with_file this m (\<lambda>f.
     if fd f \<noteq> -1 then Some (Throw (already_initialized ''bind'') m)
     else obind (lookup_hosts E hostname port family socktype proto m)
       (\<lambda>hosts m1. bind_hosts E this socktype proto reusePort hosts m1))"

text \<open>The blocking form returns the result of \<open>connect\<close>; its sockets are created
  blocking (\<open>init\<close> then makes the chosen one nonblocking).\<close>

fun connect_hosts_sync ::
  "('w, 'cb) env \<Rightarrow> ptr \<Rightarrow> int \<Rightarrow> int \<Rightarrow> EndPoint option list \<Rightarrow> ('w, 'cb) machine \<Rightarrow>
     (int, ('w, 'cb) machine) result" where
  "connect_hosts_sync E this socktype proto [] m =
     Some (Throw (CPoll_exception (''no reachable hosts were found; last error: '' @ strerror E (errno m)) 0) m)"
| "connect_hosts_sync E this socktype proto (None # hosts) m = Some (Fault Bad_pointer)"
| "connect_hosts_sync E this socktype proto (Some h # hosts) m =
     (case run_call E (Sys_socket (EndPoint_addressFamily h) (socktype OR SOCK_CLOEXEC) proto) m of (sock, m1) \<Rightarrow>
        if sock < 0 then connect_hosts_sync E this socktype proto hosts m1
        else
          (case run_call E (Sys_connect sock (EndPoint_getSockAddr (little_endian E) h)
                  (EndPoint_getSockAddrSize h)) m1 of (r, m2) \<Rightarrow>
             if 0 \<le> r \<or> errno m2 = EINPROGRESS
             then obind (File_init E this sock m2) (\<lambda>_ m3. ret r m3)
             else connect_hosts_sync E this socktype proto hosts (snd (run_call E (Sys_close sock) m2))))"

definition Socket_connect_host_sync ::
  "('w, 'cb) env \<Rightarrow> ptr \<Rightarrow> string \<Rightarrow> string \<Rightarrow> int \<Rightarrow> int \<Rightarrow> int \<Rightarrow> ('w, 'cb) machine \<Rightarrow>
     (int, ('w, 'cb) machine) result" where
  "Socket_connect_host_sync E this hostname port family socktype proto m = with_file this m (\<lambda>f.
     if fd f \<noteq> -1 then Some (Throw (already_initialized ''connect'') m)
     else obind (lookup_hosts E hostname port 0 socktype proto m)
       (\<lambda>hosts m1. connect_hosts_sync E this socktype proto hosts m1))"

fun connect_hosts ::
  "('w, 'cb) env \<Rightarrow> ptr \<Rightarrow> 'cb option \<Rightarrow> int \<Rightarrow> int \<Rightarrow> EndPoint option list \<Rightarrow> ('w, 'cb) machine \<Rightarrow>
     (unit, ('w, 'cb) machine) result" where
  "connect_hosts E this c socktype proto [] m =
     Some (Throw (CPoll_exception (''no reachable hosts were found; last error: '' @ strerror E (errno m)) 0) m)"
| "connect_hosts E this c socktype proto (None # hosts) m = Some (Fault Bad_pointer)"
| "connect_hosts E this c socktype proto (Some h # hosts) m =
     (case run_call E (Sys_socket (EndPoint_addressFamily h) (socktype OR SOCK_FLAGS) proto) m of (sock, m1) \<Rightarrow>
        if sock < 0 then connect_hosts E this c socktype proto hosts m1
        else
          (case run_call E (Sys_connect sock (EndPoint_getSockAddr (little_endian E) h)
                  (EndPoint_getSockAddrSize h)) m1 of (r, m2) \<Rightarrow>
             if 0 \<le> r then obind (File_init E this sock m2) (\<lambda>_ m3. invoke E c r m3)
             else if errno m2 = EINPROGRESS
             then obind (File_init E this sock m2) (\<lambda>_ m3. set_connect this c m3)
             else connect_hosts E this c socktype proto hosts (snd (run_call E (Sys_close sock) m2))))"

definition Socket_connect_host ::
  "('w, 'cb) env \<Rightarrow> ptr \<Rightarrow> string \<Rightarrow> string \<Rightarrow> 'cb option \<Rightarrow> int \<Rightarrow> int \<Rightarrow> int \<Rightarrow> ('w, 'cb) machine \<Rightarrow>
     (unit, ('w, 'cb) machine) result" where
  "Socket_connect_host E this hostname port c family socktype proto m = when_free this Wr m (\<lambda>_.
     with_file this m (\<lambda>f.
       if fd f \<noteq> -1 then Some (Throw (already_initialized ''connect'') m)
       else obind (lookup_hosts E hostname port 0 socktype proto m)
         (\<lambda>hosts m1. connect_hosts E this c socktype proto hosts m1)))"

end
