(* ===== verification/CPoll_Timer.thy ===== *)
theory CPoll_Timer
  imports CPoll_Async
begin

text \<open>
  \<open>class Timer\<close> (src/cpoll.C): a timer descriptor with its interval and callback.
\<close>

section \<open>Definitions\<close>

definition timer_at :: "('w, 'cb) machine \<Rightarrow> ptr \<Rightarrow> 'cb Timer option" where
  "timer_at m this = (case heap m this of Some (Timer_object t) \<Rightarrow> Some t | _ \<Rightarrow> None)"

definition put_timer :: "ptr \<Rightarrow> 'cb Timer \<Rightarrow> ('w, 'cb) machine \<Rightarrow> ('w, 'cb) machine" where
  "put_timer this t m = m\<lparr>heap := (heap m)(this \<mapsto> Timer_object t)\<rparr>"

definition with_timer ::
  "ptr \<Rightarrow> ('w, 'cb) machine \<Rightarrow> ('cb Timer \<Rightarrow> ('a, ('w, 'cb) machine) result) \<Rightarrow>
     ('a, ('w, 'cb) machine) result" where
  "with_timer this m k = (case timer_at m this of None \<Rightarrow> Some (Fault Bad_pointer) | Some t \<Rightarrow> k t)"

text \<open>The interval is stored and given to the kernel as both the period and the first expiry.\<close>

definition Timer_doSetInterval ::
  "('w, 'cb) env \<Rightarrow> ptr \<Rightarrow> timespec \<Rightarrow> ('w, 'cb) machine \<Rightarrow> (unit, ('w, 'cb) machine) result" where
  "Timer_doSetInterval E this iv m = with_timer this m (\<lambda>t.
     ret () (snd (run_call E (Sys_timerfd_settime (timer_fd t) iv iv) (put_timer this (t\<lparr>interval := iv\<rparr>) m))))"

definition ms_timespec :: "64 word \<Rightarrow> timespec" where
  "ms_timespec ms = \<lparr>tv_sec = uint (ms div 1000), tv_nsec = uint ((ms mod 1000) * 1000000)\<rparr>"

definition Timer_doSetInterval_ms ::
  "('w, 'cb) env \<Rightarrow> ptr \<Rightarrow> 64 word \<Rightarrow> ('w, 'cb) machine \<Rightarrow> (unit, ('w, 'cb) machine) result" where
  "Timer_doSetInterval_ms E this ms m = with_timer this m (\<lambda>t.
     let iv = ms_timespec ms in
     ret () (snd (run_call E (Sys_timerfd_settime (timer_fd t) iv iv) (put_timer this (t\<lparr>interval := iv\<rparr>) m))))"

text \<open>The members \<open>setInterval\<close>, and \<open>FD::init\<close> on a timer.\<close>

definition Timer_setInterval ::
  "('w, 'cb) env \<Rightarrow> ptr \<Rightarrow> timespec \<Rightarrow> ('w, 'cb) machine \<Rightarrow> (unit, ('w, 'cb) machine) result" where
  "Timer_setInterval E this iv m = Timer_doSetInterval E this iv m"

definition Timer_setInterval_ms ::
  "('w, 'cb) env \<Rightarrow> ptr \<Rightarrow> 64 word \<Rightarrow> ('w, 'cb) machine \<Rightarrow> (unit, ('w, 'cb) machine) result" where
  "Timer_setInterval_ms E this ms m = Timer_doSetInterval_ms E this ms m"

definition Timer_FD_init ::
  "('w, 'cb) env \<Rightarrow> ptr \<Rightarrow> int \<Rightarrow> ('w, 'cb) machine \<Rightarrow> (unit, ('w, 'cb) machine) result" where
  "Timer_FD_init E this d m = with_timer this m (\<lambda>t.
     if timer_fd t \<noteq> -1 then Some (Fault Assertion_failed)
     else ret () (FD_setBlocking E d False (put_timer this (t\<lparr>timer_fd := d\<rparr>) m)))"

definition Timer_init ::
  "('w, 'cb) env \<Rightarrow> ptr \<Rightarrow> timespec \<Rightarrow> ('w, 'cb) machine \<Rightarrow> (unit, ('w, 'cb) machine) result" where
  "Timer_init E this iv m = (case run_call E (Sys_timerfd_create 1 (524288 + 2048)) m of (d, m1) \<Rightarrow>
     obind (Timer_FD_init E this d m1) (\<lambda>_ m2. Timer_setInterval E this iv m2))"

definition Timer_init_ms ::
  "('w, 'cb) env \<Rightarrow> ptr \<Rightarrow> 64 word \<Rightarrow> ('w, 'cb) machine \<Rightarrow> (unit, ('w, 'cb) machine) result" where
  "Timer_init_ms E this ms m = (case run_call E (Sys_timerfd_create 1 (524288 + 2048)) m of (d, m1) \<Rightarrow>
     obind (Timer_FD_init E this d m1) (\<lambda>_ m2. Timer_setInterval_ms E this ms m2))"

definition Timer_init_handle ::
  "('w, 'cb) env \<Rightarrow> ptr \<Rightarrow> int \<Rightarrow> ('w, 'cb) machine \<Rightarrow> (unit, ('w, 'cb) machine) result" where
  "Timer_init_handle E this handle m =
     obind (Timer_FD_init E this handle m) (\<lambda>_ m1.
       case run_out (sys_timer_gettime E handle) m1 of (r, iv, m2) \<Rightarrow>
         with_timer this m2 (\<lambda>t. ret () (put_timer this (t\<lparr>interval := iv\<rparr>) m2)))"

definition Timer_getInterval :: "'cb Timer \<Rightarrow> timespec" where
  "Timer_getInterval t = interval t"

definition Timer_running :: "'cb Timer \<Rightarrow> bool" where
  "Timer_running t \<longleftrightarrow> \<not> (tv_nsec (interval t) = 0 \<and> tv_sec (interval t) = 0)"

definition Timer_setCallback :: "ptr \<Rightarrow> 'cb option \<Rightarrow> ('w, 'cb) machine \<Rightarrow> (unit, ('w, 'cb) machine) result"
where
  "Timer_setCallback this c m = with_timer this m (\<lambda>t. ret () (put_timer this (t\<lparr>timer_cb := c\<rparr>) m))"

text \<open>
  \<open>dispatch\<close>: the expiration count is read; the callback gets it as an \<open>int\<close> when all of its
  8 bytes were read.
\<close>

definition Timer_dispatch ::
  "('w, 'cb) env \<Rightarrow> ptr \<Rightarrow> evref \<Rightarrow> ('w, 'cb) machine \<Rightarrow> (unit, ('w, 'cb) machine) result" where
  "Timer_dispatch E this ref m = with_events ref m (\<lambda>ev.
     if has_event ev EPOLLIN then
       with_timer this m (\<lambda>t.
         case run_out (sys_timer_read E (timer_fd t)) m of (i, n, m1) \<Rightarrow>
           if 8 \<le> i \<and> timer_cb t \<noteq> None then invoke E (timer_cb t) (s32 n) m1 else ret () m1)
     else ret () m)"

definition Timer_close ::
  "('w, 'cb) env \<Rightarrow> ptr \<Rightarrow> ('w, 'cb) machine \<Rightarrow> (unit, ('w, 'cb) machine) result" where
  "Timer_close E this m = with_timer this m (\<lambda>t.
     case run_call E (Sys_close (timer_fd t)) m of (r, m1) \<Rightarrow>
       ret () (put_timer this (t\<lparr>timer_fd := -1\<rparr>) m1))"

definition Timer_destroy ::
  "('w, 'cb) env \<Rightarrow> ptr \<Rightarrow> ('w, 'cb) machine \<Rightarrow> (unit, ('w, 'cb) machine) result" where
  "Timer_destroy E this m = with_timer this m (\<lambda>t.
     obind (if timer_fd t < 0 then ret () m else Timer_close E this m)
       (\<lambda>_ m1. ret () (free_object this m1)))"

section \<open>Milliseconds\<close>

lemma uint_ms_parts:
  "tv_sec (ms_timespec ms) = uint ms div 1000"
  "tv_nsec (ms_timespec ms) = uint ms mod 1000 * 1000000"
proof -
  have m: "uint (ms mod 1000) = uint ms mod 1000" by (simp add: uint_mod)
  have "uint ms mod 1000 * 1000000 < 2 ^ 64"
    using pos_mod_bound [of 1000 "uint ms"] by simp
  then show "tv_nsec (ms_timespec ms) = uint ms mod 1000 * 1000000"
    by (simp add: ms_timespec_def uint_word_ariths m)
  show "tv_sec (ms_timespec ms) = uint ms div 1000"
    by (simp add: ms_timespec_def uint_div)
qed

lemma timer_at_put_timer [simp]:
  "timer_at (put_timer this t m) that = (if that = this then Some t else timer_at m that)"
  by (simp add: timer_at_def put_timer_def)

lemma timer_at_run_call [simp]: "timer_at (snd (run_call E c m)) this = timer_at m this"
  by (cases "run_call E c m") (auto simp: timer_at_def dest: run_call_frame)

end
