(* ===== verification/CPoll_EPoll.thy ===== *)
theory CPoll_EPoll
  imports CPoll_Socket CPoll_Timer
begin

text \<open>
  \<open>class EPoll\<close> (src/cpoll.C): registration, removal with the cancelling of outstanding
  notifications, and one cycle of the event loop, which dispatches to the objects.
\<close>

section \<open>Definitions\<close>

definition EVENTSPERCYCLE :: nat where "EVENTSPERCYCLE = 32"
definition EPOLL_CLOEXEC :: int where "EPOLL_CLOEXEC = 524288"

definition put_epoll :: "ptr \<Rightarrow> EPoll \<Rightarrow> ('w, 'cb) machine \<Rightarrow> ('w, 'cb) machine" where
  "put_epoll this e m = m\<lparr>heap := (heap m)(this \<mapsto> EPoll_object e)\<rparr>"

definition with_epoll ::
  "ptr \<Rightarrow> ('w, 'cb) machine \<Rightarrow> (EPoll \<Rightarrow> ('a, ('w, 'cb) machine) result) \<Rightarrow>
     ('a, ('w, 'cb) machine) result" where
  "with_epoll this m k = (case epoll_at m this of None \<Rightarrow> Some (Fault Bad_pointer) | Some e \<Rightarrow> k e)"

lemma with_epoll_mono [partial_function_mono]:
  "(\<And>e. mono_option (\<lambda>f. C e f)) \<Longrightarrow> mono_option (\<lambda>f. with_epoll this m (\<lambda>e. C e f))"
  by (cases "epoll_at m this") (simp_all add: with_epoll_def option.const_mono)

text \<open>The member \<open>fd\<close> that every object inherits from \<open>FD\<close>.\<close>

definition fd_of :: "('w, 'cb) machine \<Rightarrow> ptr \<Rightarrow> int option" where
  "fd_of m p = (case heap m p of
      Some (File_object f) \<Rightarrow> Some (fd f)
    | Some (Socket_object f) \<Rightarrow> Some (fd f)
    | Some (Timer_object t) \<Rightarrow> Some (timer_fd t)
    | Some (EPoll_object e) \<Rightarrow> Some (epoll_fd e)
    | None \<Rightarrow> None)"

text \<open>The constructor, on the memory at \<open>this\<close>; the array's contents are of no account while the count is 0.\<close>

definition EPoll_construct ::
  "('w, 'cb) env \<Rightarrow> ptr \<Rightarrow> ('w, 'cb) machine \<Rightarrow> (unit, ('w, 'cb) machine) result" where
  "EPoll_construct E this m = (case run_call E (Sys_epoll_create EPOLL_CLOEXEC) m of (d, m1) \<Rightarrow>
     obind (checkError E d m1) (\<lambda>_ m2. ret () (disableSignals E (put_epoll this \<lparr>epoll_fd = d,
         currCycleNotifications = replicate EVENTSPERCYCLE \<lparr>ev_events = 0, ev_ptr = 0\<rparr>,
         currCycleNotificationsCount = 0\<rparr> m2))))"

definition EPoll_destroy ::
  "('w, 'cb) env \<Rightarrow> ptr \<Rightarrow> ('w, 'cb) machine \<Rightarrow> (unit, ('w, 'cb) machine) result" where
  "EPoll_destroy E this m = with_epoll this m (\<lambda>e.
     ret () (free_object this (snd (run_call E (Sys_close (epoll_fd e)) m))))"

definition EPoll_add ::
  "('w, 'cb) env \<Rightarrow> ptr \<Rightarrow> ptr \<Rightarrow> ('w, 'cb) machine \<Rightarrow> (unit, ('w, 'cb) machine) result" where
  "EPoll_add E this p m = with_epoll this m (\<lambda>e. case fd_of m p of
       None \<Rightarrow> Some (Fault Bad_pointer)
     | Some d \<Rightarrow>
         (case run_call E (Sys_epoll_add (epoll_fd e) d (EPOLLIN OR EPOLLOUT OR EPOLLET) p) m of (r, m1) \<Rightarrow>
            obind (checkError E r m1) (\<lambda>_ m2. ret () m2)))"

text \<open>The loop of \<open>remove\<close> over the notifications of the current cycle.\<close>

definition cancel_event :: "ptr \<Rightarrow> epoll_event \<Rightarrow> epoll_event" where
  "cancel_event p x = (if ev_ptr x = p then \<lparr>ev_events = 0, ev_ptr = 0\<rparr> else x)"

definition cancel_events :: "ptr \<Rightarrow> int \<Rightarrow> epoll_event list \<Rightarrow> epoll_event list" where
  "cancel_events p n xs = map (cancel_event p) (take (nat n) xs) @ drop (nat n) xs"

definition EPoll_remove ::
  "('w, 'cb) env \<Rightarrow> ptr \<Rightarrow> ptr \<Rightarrow> ('w, 'cb) machine \<Rightarrow> (unit, ('w, 'cb) machine) result" where
  "EPoll_remove E this p m = with_epoll this m (\<lambda>e.
     if \<not> currCycleNotificationsCount e \<le> int EVENTSPERCYCLE then Some (Fault Assertion_failed)
     else
       (let m1 = put_epoll this (e\<lparr>currCycleNotifications :=
              cancel_events p (currCycleNotificationsCount e) (currCycleNotifications e)\<rparr>) m
        in case fd_of m1 p of
             None \<Rightarrow> Some (Fault Bad_pointer)
           | Some d \<Rightarrow>
               (case run_call E (Sys_epoll_del (epoll_fd e) d) m1 of (r, m2) \<Rightarrow>
                  obind (checkError E r m2) (\<lambda>_ m3. ret () m3))))"

text \<open>
  \<open>epoll_wait\<close> writes its events to the head of the array, at most as many as it was asked for; then
  \<open>checkError\<close>, the new count and the assertion.
\<close>

definition store_events :: "epoll_event list \<Rightarrow> epoll_event list \<Rightarrow> epoll_event list" where
  "store_events evs xs = (let got = take EVENTSPERCYCLE evs in got @ drop (length got) xs)"

definition EPoll_wait ::
  "('w, 'cb) env \<Rightarrow> ptr \<Rightarrow> int \<Rightarrow> ('w, 'cb) machine \<Rightarrow> (unit, ('w, 'cb) machine) result" where
  "EPoll_wait E this timeoutMs m = with_epoll this m (\<lambda>e.
     case run_out (sys_epoll_wait E (epoll_fd e) (int EVENTSPERCYCLE) timeoutMs) m of (r, evs, m1) \<Rightarrow>
       let e1 = e\<lparr>currCycleNotifications := store_events evs (currCycleNotifications e)\<rparr> in
       obind (checkError E r (put_epoll this e1 m1)) (\<lambda>n m2.
         if n \<le> int EVENTSPERCYCLE
         then ret () (put_epoll this (e1\<lparr>currCycleNotificationsCount := n\<rparr>) m2)
         else Some (Fault Assertion_failed)))"

text \<open>
  A cycle: \<open>Start\<close> is \<open>run\<close> from its beginning, \<open>Next p i\<close> its loop at index \<open>i\<close>. A nested
  \<open>EPoll\<close> object is dispatched by \<open>run(0)\<close> on it. The array, the count and the pointer are
  read again in every round, because callbacks change them.
\<close>

datatype cycle = Start ptr int | Next ptr nat

partial_function (option) EPoll_cycle ::
  "('w, 'cb) env \<Rightarrow> cycle \<Rightarrow> ('w, 'cb) machine \<Rightarrow> (unit, ('w, 'cb) machine) result" where
  "EPoll_cycle E c m = (case c of
     Start this timeoutMs \<Rightarrow> obind (EPoll_wait E this timeoutMs m) (\<lambda>_ m1. EPoll_cycle E (Next this 0) m1)
   | Next this i \<Rightarrow> with_epoll this m (\<lambda>e.
       if int i < currCycleNotificationsCount e then
         (if i < length (currCycleNotifications e) then
            (let p = ev_ptr (currCycleNotifications e ! i); ref = Notification this i in
             if p \<noteq> 0 then
               obind (case heap m p of
                   Some (File_object f) \<Rightarrow> File_dispatch E p ref m
                 | Some (Socket_object f) \<Rightarrow> Socket_dispatch E p ref m
                 | Some (Timer_object t) \<Rightarrow> Timer_dispatch E p ref m
                 | Some (EPoll_object e') \<Rightarrow> EPoll_cycle E (Start p 0) m
                 | None \<Rightarrow> Some (Fault Stale_notification))
                 (\<lambda>_ m1. EPoll_cycle E (Next this (Suc i)) m1)
             else EPoll_cycle E (Next this (Suc i)) m)
          else Some (Fault Out_of_bounds))
       else ret () (put_epoll this (e\<lparr>currCycleNotificationsCount := 0\<rparr>) m)))"

definition EPoll_run ::
  "('w, 'cb) env \<Rightarrow> ptr \<Rightarrow> int \<Rightarrow> ('w, 'cb) machine \<Rightarrow> (unit, ('w, 'cb) machine) result" where
  "EPoll_run E this timeoutMs m = EPoll_cycle E (Start this timeoutMs) m"

definition EPoll_dispatch ::
  "('w, 'cb) env \<Rightarrow> ptr \<Rightarrow> evref \<Rightarrow> ('w, 'cb) machine \<Rightarrow> (unit, ('w, 'cb) machine) result" where
  "EPoll_dispatch E this ref m = EPoll_run E this 0 m"

partial_function (option) EPoll_loop ::
  "('w, 'cb) env \<Rightarrow> ptr \<Rightarrow> ('w, 'cb) machine \<Rightarrow> (unit, ('w, 'cb) machine) result" where
  "EPoll_loop E this m = obind (EPoll_run E this (-1) m) (\<lambda>_ m1. EPoll_loop E this m1)"

text \<open>The virtual call \<open>inst->dispatch(events)\<close>.\<close>

definition virtual_dispatch ::
  "('w, 'cb) env \<Rightarrow> ptr \<Rightarrow> evref \<Rightarrow> ('w, 'cb) machine \<Rightarrow> (unit, ('w, 'cb) machine) result" where
  "virtual_dispatch E p ref m = (case heap m p of
       Some (File_object f) \<Rightarrow> File_dispatch E p ref m
     | Some (Socket_object f) \<Rightarrow> Socket_dispatch E p ref m
     | Some (Timer_object t) \<Rightarrow> Timer_dispatch E p ref m
     | Some (EPoll_object e) \<Rightarrow> EPoll_dispatch E p ref m
     | None \<Rightarrow> Some (Fault Stale_notification))"

section \<open>Rounds of a cycle\<close>

lemma with_epoll_Some: "epoll_at m this = Some e \<Longrightarrow> with_epoll this m k = k e"
  by (simp add: with_epoll_def)

lemma epoll_at_put_epoll [simp]:
  "epoll_at (put_epoll this e m) that = (if that = this then Some e else epoll_at m that)"
  by (simp add: epoll_at_def put_epoll_def)

lemma epoll_at_run_call:
  "run_call E c m = (r, m') \<Longrightarrow> epoll_at m' p = epoll_at m p"
  by (simp add: epoll_at_def run_call_frame(1))

lemma epoll_at_run_out:
  "run_out k m = (r, out, m') \<Longrightarrow> epoll_at m' p = epoll_at m p"
  by (simp add: epoll_at_def run_out_frame(1))

lemma cycle_start: "EPoll_run E this t m = obind (EPoll_wait E this t m) (\<lambda>_ m1. EPoll_cycle E (Next this 0) m1)"
  by (simp add: EPoll_run_def EPoll_cycle.simps [of E "Start this t" m])

lemma cycle_end:
  assumes "epoll_at m this = Some e" and "currCycleNotificationsCount e \<le> int i"
  shows "EPoll_cycle E (Next this i) m = ret () (put_epoll this (e\<lparr>currCycleNotificationsCount := 0\<rparr>) m)"
  using assms by (simp add: EPoll_cycle.simps [of E "Next this i" m] with_epoll_Some)

lemma cycle_skip:
  assumes "epoll_at m this = Some e" and "int i < currCycleNotificationsCount e"
    and "i < length (currCycleNotifications e)" and "ev_ptr (currCycleNotifications e ! i) = 0"
  shows "EPoll_cycle E (Next this i) m = EPoll_cycle E (Next this (Suc i)) m"
  using assms by (simp add: EPoll_cycle.simps [of E "Next this i" m] with_epoll_Some)

lemma cycle_dispatch:
  assumes "epoll_at m this = Some e" and "int i < currCycleNotificationsCount e"
    and "i < length (currCycleNotifications e)"
    and "ev_ptr (currCycleNotifications e ! i) = p" and "p \<noteq> 0"
  shows "EPoll_cycle E (Next this i) m =
    obind (virtual_dispatch E p (Notification this i) m) (\<lambda>_ m1. EPoll_cycle E (Next this (Suc i)) m1)"
  using assms
  by (subst EPoll_cycle.simps)
    (simp add: with_epoll_Some virtual_dispatch_def EPoll_dispatch_def EPoll_run_def Let_def
      split: option.split fd_object.split)

section \<open>Storing\<close>

lemma store_events_few: "length evs \<le> EVENTSPERCYCLE \<Longrightarrow> store_events evs xs = evs @ drop (length evs) xs"
  by (simp add: store_events_def)

lemma length_store_events: "EVENTSPERCYCLE \<le> length xs \<Longrightarrow> length (store_events evs xs) = length xs"
  by (simp add: store_events_def Let_def)

lemma store_events_none [simp]: "store_events [] xs = xs"
  by (simp add: store_events_def)

lemma store_events_nth: "i < length evs \<Longrightarrow> i < EVENTSPERCYCLE \<Longrightarrow> store_events evs xs ! i = evs ! i"
  by (simp add: store_events_def Let_def nth_append)

section \<open>Cancelling\<close>

lemma length_cancel_events [simp]: "length (cancel_events p n xs) = length xs"
  by (simp add: cancel_events_def)

lemma cancel_events_nth:
  assumes "int i < n" and "i < length xs"
  shows "cancel_events p n xs ! i = cancel_event p (xs ! i)"
  using assms by (simp add: cancel_events_def nth_append)

text \<open>A removal that returns leaves the array without notifications of the object.\<close>

lemma EPoll_remove_ret:
  assumes "EPoll_remove E this p m = ret () m'"
  obtains e where "epoll_at m this = Some e" and "currCycleNotificationsCount e \<le> int EVENTSPERCYCLE"
    and "heap m' = (heap m)(this \<mapsto> EPoll_object (e\<lparr>currCycleNotifications :=
       cancel_events p (currCycleNotificationsCount e) (currCycleNotifications e)\<rparr>))"
proof -
  from assms obtain e where e: "epoll_at m this = Some e"
    unfolding EPoll_remove_def with_epoll_def by (auto split: option.splits)
  let ?m1 = "put_epoll this (e\<lparr>currCycleNotifications :=
      cancel_events p (currCycleNotificationsCount e) (currCycleNotifications e)\<rparr>) m"
  note eq = assms [unfolded EPoll_remove_def with_epoll_Some [OF e]]
  have c: "currCycleNotificationsCount e \<le> int EVENTSPERCYCLE"
    using eq by (auto split: if_splits)
  obtain d where d: "fd_of ?m1 p = Some d"
    using eq c by (cases "fd_of ?m1 p") simp_all
  obtain r m2 where call: "run_call E (Sys_epoll_del (epoll_fd e) d) ?m1 = (r, m2)"
    by (cases "run_call E (Sys_epoll_del (epoll_fd e) d) ?m1")
  have "obind (checkError E r m2) (\<lambda>_ m3. ret () m3) = ret () m'"
    using eq by (simp only: Let_def c not_True_eq_False if_False d option.case call prod.case)
  then have "m' = m2" by (cases "checkError E r m2 = ret r m2") (use checkError_cases [of E r m2] in auto)
  then have "heap m' = heap ?m1" using run_call_frame(1) [OF call] by simp
  then show ?thesis using that [OF e c] by (simp add: put_epoll_def)
qed

lemma EPoll_remove_events:
  assumes "EPoll_remove E ep p m = ret () m'" and "epoll_at m ep = Some e"
    and "i < length (currCycleNotifications e)" and "int i < currCycleNotificationsCount e"
    and "ev_ptr (currCycleNotifications e ! i) = p"
  shows "events_at m' (Notification ep i) = Some 0"
proof -
  obtain e' where "epoll_at m ep = Some e'"
    and h: "heap m' = (heap m)(ep \<mapsto> EPoll_object (e'\<lparr>currCycleNotifications :=
       cancel_events p (currCycleNotificationsCount e') (currCycleNotifications e')\<rparr>))"
    using assms(1) by (rule EPoll_remove_ret)
  then have "e' = e" using assms(2) by simp
  then show ?thesis using assms(3-) h by (simp add: epoll_at_def cancel_events_nth cancel_event_def)
qed

lemma events_at_free_object:
  "p \<noteq> ep \<Longrightarrow> events_at (free_object p m) (Notification ep i) = events_at m (Notification ep i)"
  by (simp add: epoll_at_def)

end
