(* ===== verification/CPoll_Util.thy ===== *)
theory CPoll_Util
  imports CPoll_Exceptions
begin

text \<open>
  The small pieces: the \<open>sdbm\<close> hash, \<open>memrmem\<close>, \<open>listDirectory\<close>, the scoped lock and its
  mutex, and the byte transformation of examples/bitflip_proxy.C.
\<close>

section \<open>sdbm\<close>

text \<open>\<open>unsigned long\<close> has 64 bits; the loop runs over the \<open>len\<close> bytes given.\<close>

definition sdbm_step :: "64 word \<Rightarrow> byte \<Rightarrow> 64 word" where
  "sdbm_step hash c = ucast c + push_bit 6 hash + push_bit 16 hash - hash"

definition sdbm :: "byte list \<Rightarrow> 64 word" where
  "sdbm str = foldl sdbm_step 0 str"

lemma sdbm_step_mult: "sdbm_step h c = h * 65599 + ucast c"
  by (simp add: sdbm_step_def push_bit_eq_mult algebra_simps)

section \<open>memrmem\<close>

text \<open>The \<open>do ... while (i-- != 0)\<close> loop from index \<open>i\<close> down; the result is an offset in \<open>s\<close>.\<close>

definition matches_at :: "byte list \<Rightarrow> byte list \<Rightarrow> nat \<Rightarrow> bool" where
  "matches_at s t i \<longleftrightarrow> take (length t) (drop i s) = t"

fun memrmem_from :: "byte list \<Rightarrow> byte list \<Rightarrow> nat \<Rightarrow> nat option" where
  "memrmem_from s t 0 = (if matches_at s t 0 then Some 0 else None)"
| "memrmem_from s t (Suc i) = (if matches_at s t (Suc i) then Some (Suc i) else memrmem_from s t i)"

definition memrmem :: "byte list \<Rightarrow> byte list \<Rightarrow> nat option" where
  "memrmem s t = (if length s \<ge> length t then memrmem_from s t (length s - length t) else None)"

lemma memrmem_from_Some:
  "memrmem_from s t n = Some i \<longleftrightarrow> i \<le> n \<and> matches_at s t i \<and> (\<forall>j. i < j \<and> j \<le> n \<longrightarrow> \<not> matches_at s t j)"
proof (induction n)
  case 0
  then show ?case by auto
next
  case (Suc n)
  show ?case
  proof (cases "matches_at s t (Suc n)")
    case True
    then show ?thesis by (auto simp: not_le) (metis Suc_leI le_neq_implies_less order_refl)
  next
    case False
    then show ?thesis using Suc.IH by (auto simp: le_Suc_eq)
  qed
qed

lemma matches_at_bound:
  assumes "matches_at s t i" and "t \<noteq> []"
  shows "i + length t \<le> length s"
proof -
  have "length (take (length t) (drop i s)) = length t"
    using assms(1) by (simp only: matches_at_def)
  moreover have "0 < length t" using assms(2) by simp
  ultimately have "length t \<le> length s - i" and "0 < length t" by simp_all
  then show ?thesis by linarith
qed

text \<open>The result is the last place where \<open>t\<close> occurs in \<open>s\<close>; there is none iff \<open>t\<close> does not occur.\<close>

lemma memrmem_last:
  "memrmem s t = Some i \<longleftrightarrow> i + length t \<le> length s \<and> matches_at s t i \<and>
     (\<forall>j. i < j \<and> j + length t \<le> length s \<longrightarrow> \<not> matches_at s t j)"
  by (auto simp: memrmem_def memrmem_from_Some)

section \<open>listDirectory\<close>

text \<open>
  What \<open>opendir\<close> and the \<open>readdir_r\<close> loop give: nothing, or the entries' names in order.
\<close>

fun list_entries ::
  "(string \<Rightarrow> 'm \<Rightarrow> (unit, 'm) result) \<Rightarrow> string list \<Rightarrow> 'm \<Rightarrow> (unit, 'm) result" where
  "list_entries cb [] m = ret () m"
| "list_entries cb (d_name # names) m =
     (if d_name = ''.'' \<or> d_name = ''..'' then list_entries cb names m
      else obind (cb d_name m) (\<lambda>_ m1. list_entries cb names m1))"

definition listDirectory ::
  "('w, 'cb) env \<Rightarrow> string \<Rightarrow> string list option \<Rightarrow>
     (string \<Rightarrow> ('w, 'cb) machine \<Rightarrow> (unit, ('w, 'cb) machine) result) \<Rightarrow> ('w, 'cb) machine \<Rightarrow>
     (unit, ('w, 'cb) machine) result" where
  "listDirectory E path dir cb m = (case dir of
      None \<Rightarrow> Some (Throw (UNIXException_object E (errno m) path) m)
    | Some names \<Rightarrow> list_entries cb names m)"

fun call_each :: "(string \<Rightarrow> 'm \<Rightarrow> (unit, 'm) result) \<Rightarrow> string list \<Rightarrow> 'm \<Rightarrow> (unit, 'm) result" where
  "call_each cb [] m = ret () m"
| "call_each cb (x # xs) m = obind (cb x m) (\<lambda>_ m1. call_each cb xs m1)"

lemma list_entries_call_each:
  "list_entries cb names m = call_each cb (filter (\<lambda>n. n \<noteq> ''.'' \<and> n \<noteq> ''..'') names) m"
  by (induction names arbitrary: m) (auto cong: obind_cong)

section \<open>Locks\<close>

text \<open>
  A scoped lock keeps the pointer to its mutex until it has unlocked it. The state is whether
  the pointer is set, and the mutex.
\<close>

locale mutex =
  fixes lock :: "'m \<Rightarrow> 'm" and unlock :: "'m \<Rightarrow> 'm"
  assumes unlock_lock: "unlock (lock x) = x"

definition ScopeLock_construct :: "('m \<Rightarrow> 'm) \<Rightarrow> 'm \<Rightarrow> bool \<times> 'm" where
  "ScopeLock_construct lock x = (True, lock x)"

definition ScopeLock_earlyUnlock :: "('m \<Rightarrow> 'm) \<Rightarrow> bool \<times> 'm \<Rightarrow> bool \<times> 'm" where
  "ScopeLock_earlyUnlock unlock l = (if fst l then (False, unlock (snd l)) else (False, snd l))"

definition ScopeLock_destroy :: "('m \<Rightarrow> 'm) \<Rightarrow> bool \<times> 'm \<Rightarrow> 'm" where
  "ScopeLock_destroy unlock l = (if fst l then unlock (snd l) else snd l)"

context mutex begin

lemma early_unlocked: "(ScopeLock_earlyUnlock unlock ^^ n) (False, x) = (False, x)"
  by (induction n) (simp_all add: ScopeLock_earlyUnlock_def)

lemma balanced: "ScopeLock_destroy unlock ((ScopeLock_earlyUnlock unlock ^^ n) (ScopeLock_construct lock x)) = x"
proof (cases n)
  case 0
  then show ?thesis by (simp add: ScopeLock_construct_def ScopeLock_destroy_def unlock_lock)
next
  case (Suc k)
  have "(ScopeLock_earlyUnlock unlock ^^ Suc k) (True, lock x) = (ScopeLock_earlyUnlock unlock ^^ k) (False, x)"
    unfolding funpow_Suc_right by (simp add: ScopeLock_earlyUnlock_def unlock_lock)
  then show ?thesis using Suc
    by (simp add: ScopeLock_construct_def early_unlocked ScopeLock_destroy_def del: funpow.simps)
qed

end

text \<open>
  \<open>PThreadMutex\<close> is made with \<open>PTHREAD_MUTEX_RECURSIVE\<close>: for the thread that holds it, its
  state is how often it has been locked.
\<close>

definition PThreadMutex_construct :: nat where "PThreadMutex_construct = 0"
definition PThreadMutex_lock :: "nat \<Rightarrow> nat" where "PThreadMutex_lock depth = depth + 1"
definition PThreadMutex_unlock :: "nat \<Rightarrow> nat" where "PThreadMutex_unlock depth = depth - 1"

interpretation pthread: mutex PThreadMutex_lock PThreadMutex_unlock
  by unfold_locales (simp add: PThreadMutex_lock_def PThreadMutex_unlock_def)

text \<open>
  However often a lock on a new mutex is released early, the mutex is free after its destruction; locks
  of the same thread nest.
\<close>

lemma nested_locks:
  "ScopeLock_destroy PThreadMutex_unlock ((ScopeLock_earlyUnlock PThreadMutex_unlock ^^ n)
     (ScopeLock_construct PThreadMutex_lock ((PThreadMutex_lock ^^ k) PThreadMutex_construct))) = k"
proof -
  have "(PThreadMutex_lock ^^ k) PThreadMutex_construct = k"
    by (induction k) (simp_all add: PThreadMutex_construct_def PThreadMutex_lock_def)
  then show ?thesis by (simp add: pthread.balanced)
qed

section \<open>The proxy's transformation\<close>

text \<open>The loop over the first \<open>len\<close> bytes of the buffer, in either direction (\<open>cfg.r\<close>).\<close>

definition proxy_transform :: "bool \<Rightarrow> nat \<Rightarrow> byte list \<Rightarrow> byte list" where
  "proxy_transform r len buf =
     map (\<lambda>x. if r then x - 69 else x + 69) (take len buf) @ drop len buf"

end
