(* ===== verification/CPoll_String.thy ===== *)
theory CPoll_String
  imports CPoll_Prelude
begin

text \<open>
  src/include/cpoll-ng/string_builder.H, for \<open>CharT = char\<close>: a growable buffer with 32 bit
  length and capacity. Sizes are words, so that their arithmetic wraps as \<open>uint32_t\<close> does.
\<close>

section \<open>Data\<close>

text \<open>
  The buffer is \<open>None\<close> for \<open>nullptr\<close>, else the allocated bytes. The allocator is a parameter:
  which sizes it grants, and what fresh memory holds.
\<close>

record string_builder =
  buffer :: "string option"
  bufferLength :: "32 word"
  bufferCapacity :: "32 word"

record allocator =
  grants :: "32 word \<Rightarrow> bool"
  fresh :: "nat \<Rightarrow> char"

type_synonym 'a sb_result = "('a, string_builder) result"

definition minCapacity :: "32 word" where "minCapacity = 256"
definition npos :: "32 word" where "npos = - 1"

definition empty_builder :: string_builder where
  "empty_builder = \<lparr>buffer = None, bufferLength = 0, bufferCapacity = 0\<rparr>"

text \<open>Writing a byte string into the buffer: \<open>None\<close> if it does not lie inside.\<close>

definition write_at :: "string \<Rightarrow> nat \<Rightarrow> string \<Rightarrow> string option" where
  "write_at bs pos s =
     (if pos + length s \<le> length bs then Some (take pos bs @ s @ drop (pos + length s) bs) else None)"

definition buffer_write :: "nat \<Rightarrow> string \<Rightarrow> string_builder \<Rightarrow> unit sb_result" where
  "buffer_write pos s b = (case buffer b of
      None \<Rightarrow> if s = [] then ret () b else Some (Fault Bad_pointer)
    | Some bs \<Rightarrow> (case write_at bs pos s of
        None \<Rightarrow> Some (Fault Bad_pointer) | Some bs' \<Rightarrow> ret () (b\<lparr>buffer := Some bs'\<rparr>)))"

section \<open>Capacity\<close>

text \<open>\<open>while(newCapacity < (count + 1)) newCapacity *= 2\<close>: the product can wrap to 0.\<close>

partial_function (option) grow :: "32 word \<Rightarrow> 32 word \<Rightarrow> 32 word option" where
  "grow newCapacity need =
     (if newCapacity < need then grow (newCapacity * 2) need else Some newCapacity)"

definition realloc_bytes :: "allocator \<Rightarrow> string option \<Rightarrow> nat \<Rightarrow> string" where
  "realloc_bytes A old n =
     (let o' = (case old of None \<Rightarrow> [] | Some bs \<Rightarrow> take n bs) in o' @ map (fresh A) [length o'..<n])"

definition reserve :: "allocator \<Rightarrow> 32 word \<Rightarrow> string_builder \<Rightarrow> unit sb_result" where
  "reserve A count b =
     (if count + 1 \<le> bufferCapacity b then ret () b
      else Option.bind
        (grow (if bufferCapacity b < minCapacity then minCapacity else bufferCapacity b) (count + 1))
        (\<lambda>newCapacity.
           if grants A newCapacity
           then ret () (b\<lparr>buffer := Some (realloc_bytes A (buffer b) (unat newCapacity)),
                         bufferCapacity := newCapacity\<rparr>)
           else Some (Throw Bad_alloc b)))"

definition resize :: "allocator \<Rightarrow> 32 word \<Rightarrow> string_builder \<Rightarrow> unit sb_result" where
  "resize A count b = obind (reserve A count b) (\<lambda>_ b1. ret () (b1\<lparr>bufferLength := count\<rparr>))"

text \<open>\<open>_init(length)\<close>, on an object whose members are not set yet.\<close>

definition init_length :: "allocator \<Rightarrow> 32 word \<Rightarrow> unit sb_result" where
  "init_length A n = Option.bind (grow minCapacity (n + 1)) (\<lambda>cap.
     if grants A cap
     then ret () \<lparr>buffer = Some (realloc_bytes A None (unat cap)), bufferLength = n, bufferCapacity = cap\<rparr>
     else Some (Throw Bad_alloc empty_builder))"

text \<open>\<open>_init(s, count)\<close> and \<open>_assign(s, count)\<close>; the count is the length of the source.\<close>

definition init_from :: "allocator \<Rightarrow> string \<Rightarrow> unit sb_result" where
  "init_from A s = obind (init_length A (word_of_nat (length s))) (\<lambda>_ b. buffer_write 0 s b)"

definition assign_from :: "allocator \<Rightarrow> string \<Rightarrow> string_builder \<Rightarrow> unit sb_result" where
  "assign_from A s b = obind (resize A (word_of_nat (length s)) b) (\<lambda>_ b1. buffer_write 0 s b1)"

text \<open>\<open>basic_string_builder(count, ch)\<close> with one-byte characters fills with 0, not with \<open>ch\<close>.\<close>

definition construct_fill :: "allocator \<Rightarrow> 32 word \<Rightarrow> char \<Rightarrow> unit sb_result" where
  "construct_fill A count ch = obind (init_length A count) (\<lambda>_ b.
     buffer_write 0 (replicate (unat count) (CHR 0x00)) b)"

text \<open>The move constructor: the new object and the other one, which is reset.\<close>

definition move_construct :: "string_builder \<Rightarrow> string_builder \<times> string_builder" where
  "move_construct other = (other, empty_builder)"

section \<open>Appending\<close>

definition append_chars :: "allocator \<Rightarrow> string \<Rightarrow> string_builder \<Rightarrow> unit sb_result" where
  "append_chars A s b =
     (let count = word_of_nat (length s) in
      obind (reserve A (bufferLength b + count) b) (\<lambda>_ b1.
      obind (buffer_write (unat (bufferLength b1)) s b1) (\<lambda>_ b2.
        ret () (b2\<lparr>bufferLength := bufferLength b2 + count\<rparr>))))"

definition append_char :: "allocator \<Rightarrow> char \<Rightarrow> string_builder \<Rightarrow> unit sb_result" where
  "append_char A c b =
     obind (if bufferLength b + 2 \<ge> bufferCapacity b then reserve A (bufferLength b + 1) b else ret () b)
       (\<lambda>_ b1. obind (buffer_write (unat (bufferLength b1)) [c] b1) (\<lambda>_ b2.
          ret () (b2\<lparr>bufferLength := bufferLength b2 + 1\<rparr>)))"

text \<open>\<open>begin_append\<close> returns the position \<open>buffer + bufferLength\<close>.\<close>

definition begin_append :: "allocator \<Rightarrow> 32 word \<Rightarrow> string_builder \<Rightarrow> nat sb_result" where
  "begin_append A count b =
     obind (reserve A (bufferLength b + count) b) (\<lambda>_ b1. ret (unat (bufferLength b1)) b1)"

definition end_append :: "32 word \<Rightarrow> string_builder \<Rightarrow> string_builder" where
  "end_append count b = b\<lparr>bufferLength := bufferLength b + count\<rparr>"

text \<open>
  \<open>snprintf(s, n, ...)\<close>: the whole text of the conversion is a parameter, \<open>None\<close> for an
  encoding error, whose result is \<open>-1\<close>. At most \<open>n - 1\<close> characters and a null byte are written.
\<close>

definition snprintf_at :: "string option \<Rightarrow> nat \<Rightarrow> nat \<Rightarrow> string_builder \<Rightarrow> int sb_result" where
  "snprintf_at text pos n b = (case text of
      None \<Rightarrow> ret (-1) b
    | Some t \<Rightarrow> obind (if n = 0 then ret () b else buffer_write pos (take (n - 1) t @ [CHR 0x00]) b)
        (\<lambda>_ b1. ret (int (length t)) b1))"

text \<open>\<open>append_format\<close>: the comparison \<open>len >= space\<close> converts the \<open>int\<close> to \<open>uint32_t\<close>.\<close>

definition append_format :: "allocator \<Rightarrow> string option \<Rightarrow> string_builder \<Rightarrow> (32 word) sb_result" where
  "append_format A text b =
     obind (begin_append A 32 b) (\<lambda>s b1.
       let space = bufferCapacity b1 - bufferLength b1 in
       obind (snprintf_at text s (unat space) b1) (\<lambda>len b2.
       let lenw = (word_of_int len :: 32 word) in
       obind (if space \<le> lenw
              then obind (begin_append A lenw b2) (\<lambda>s2 b3.
                     obind (snprintf_at text s2 (unat (lenw + 1)) b3) (\<lambda>_ b4. ret () b4))
              else ret () b2)
         (\<lambda>_ b5. ret lenw (end_append lenw b5))))"

definition clear :: "string_builder \<Rightarrow> string_builder" where
  "clear b = b\<lparr>bufferLength := 0\<rparr>"

section \<open>Reading\<close>

definition sb_at :: "32 word \<Rightarrow> string_builder \<Rightarrow> char sb_result" where
  "sb_at i b =
     (if i \<ge> bufferLength b then Some (Throw (Out_of_range ''string_builder .at() out of bounds'') b)
      else case buffer b of
        None \<Rightarrow> Some (Fault Bad_pointer)
      | Some bs \<Rightarrow> if unat i < length bs then ret (bs ! unat i) b else Some (Fault Bad_pointer))"

text \<open>\<open>c_str\<close>: the string that the returned pointer points to, up to its null byte.\<close>

definition c_str :: "string_builder \<Rightarrow> string sb_result" where
  "c_str b =
     (if bufferCapacity b = 0 then ret [] b
      else obind (buffer_write (unat (bufferLength b)) [CHR 0x00] b) (\<lambda>_ b1.
        case buffer b1 of
          None \<Rightarrow> Some (Fault Bad_pointer)
        | Some bs \<Rightarrow> ret (takeWhile (\<lambda>c. c \<noteq> CHR 0x00) bs) b1))"

text \<open>\<open>substr\<close>: the result is a view, an offset and a length in the buffer.\<close>

definition substr :: "32 word \<Rightarrow> 32 word \<Rightarrow> string_builder \<Rightarrow> (32 word \<times> 32 word) sb_result" where
  "substr pos count b =
     (if pos > bufferLength b then Some (Throw (Out_of_range ''string_builder .substr() out of bounds'') b)
      else if count = npos then ret (pos, bufferLength b - pos) b
      else if pos + count \<ge> bufferLength b
        then Some (Throw (Out_of_range ''string_builder .substr() out of bounds'') b)
      else ret (pos, count) b)"

definition capacity :: "string_builder \<Rightarrow> 32 word" where
  "capacity b = bufferCapacity b - 1"

definition sb_empty :: "string_builder \<Rightarrow> bool" where
  "sb_empty b \<longleftrightarrow> bufferLength b = 0"

section \<open>Invariant and abstraction\<close>

text \<open>
  An allocated buffer has a capacity of 256 times a power of two, at most \<open>2 ^ 31\<close>, and room
  for the null byte.
\<close>

definition sb_wf :: "string_builder \<Rightarrow> bool" where
  "sb_wf b \<longleftrightarrow> (case buffer b of
      None \<Rightarrow> bufferLength b = 0 \<and> bufferCapacity b = 0
    | Some bs \<Rightarrow> length bs = unat (bufferCapacity b) \<and>
        (\<exists>k \<in> {8..<32}. unat (bufferCapacity b) = 2 ^ k) \<and>
        unat (bufferLength b) < unat (bufferCapacity b))"

definition content :: "string_builder \<Rightarrow> string" where
  "content b = (case buffer b of None \<Rightarrow> [] | Some bs \<Rightarrow> take (unat (bufferLength b)) bs)"

definition limit :: nat where "limit = 2 ^ 31"

lemma empty_builder_wf [simp]: "sb_wf empty_builder" "content empty_builder = []"
  by (simp_all add: sb_wf_def content_def empty_builder_def)

lemma sb_wf_Some:
  assumes "sb_wf b" and "buffer b = Some bs"
  obtains k where "8 \<le> k" "k < 32" "unat (bufferCapacity b) = 2 ^ k" "length bs = 2 ^ k"
    "unat (bufferLength b) < 2 ^ k"
  using assms unfolding sb_wf_def by auto

lemma sb_wf_not_null: "sb_wf b \<Longrightarrow> n < unat (bufferCapacity b) \<Longrightarrow> buffer b \<noteq> None"
  by (cases "buffer b") (simp_all add: sb_wf_def)

lemma length_content: "sb_wf b \<Longrightarrow> length (content b) = unat (bufferLength b)"
  by (auto simp: sb_wf_def content_def split: option.splits)

section \<open>Growing\<close>

lemma unat_two_power: "k < 32 \<Longrightarrow> unat (2 ^ k :: 32 word) = 2 ^ k"
proof -
  assume k: "k < 32"
  have "unat (word_of_nat (2 ^ k) :: 32 word) = take_bit 32 (2 ^ k)"
    by (simp only: unat_of_nat take_bit_eq_mod) simp
  also have "\<dots> = 2 ^ k" using power_strict_increasing [OF k, of "2::nat"] by (intro take_bit_nat_eq_self) simp
  finally show ?thesis by simp
qed

text \<open>From a power of two the loop stops at the next power of two that suffices, up to \<open>2 ^ 31\<close>.\<close>

lemma grow_power:
  assumes "k < 32" and "unat need \<le> 2 ^ 31"
  shows "\<exists>j. k \<le> j \<and> j < 32 \<and> grow (2 ^ k) need = Some (2 ^ j) \<and> unat need \<le> 2 ^ j"
  using assms(1)
proof (induction "31 - k" arbitrary: k)
  case 0
  then have "k = 31" by simp
  then have "\<not> (2 ^ k :: 32 word) < need"
    using assms(2) unat_two_power [of 31] by (simp add: word_less_nat_alt)
  then show ?case using \<open>k = 31\<close> assms(2) by (subst grow.simps) auto
next
  case (Suc n)
  show ?case
  proof (cases "(2 ^ k :: 32 word) < need")
    case True
    have "n = 31 - Suc k" "Suc k < 32" using Suc(2) by simp_all
    from Suc(1) [OF this] obtain j where "Suc k \<le> j" "j < 32"
        "grow (2 ^ Suc k) need = Some (2 ^ j)" "unat need \<le> 2 ^ j" by blast
    moreover have "grow (2 ^ k) need = grow (2 ^ Suc k) need"
      using True by (subst grow.simps) (simp add: mult.commute)
    ultimately show ?thesis by (intro exI [where x = j]) simp
  next
    case False
    then have "grow (2 ^ k) need = Some (2 ^ k)" by (subst grow.simps) simp
    then show ?thesis using False Suc.prems unat_two_power [of k]
      by (intro exI [where x = k]) (simp add: word_less_nat_alt)
  qed
qed

text \<open>Above \<open>2 ^ 31\<close> the product wraps to 0 and the loop does not end.\<close>

lemma grow_diverges:
  assumes "unat need > 2 ^ 31"
  shows "grow (2 ^ k) need = None"
proof -
  have no: "\<not> (unat n > 2 ^ 31 \<and> (\<exists>k. c = (2 ^ k :: 32 word)))" if "grow c n = Some r" for c n r
  proof (rule grow.raw_induct [where P = "\<lambda>c n r. \<not> (unat n > 2 ^ 31 \<and> (\<exists>k. c = (2 ^ k :: 32 word)))",
        OF _ that], rule notI, elim conjE)
    fix f newCapacity n r
    assume IH: "\<And>c n r. f c n = Some r \<Longrightarrow> \<not> (unat n > 2 ^ 31 \<and> (\<exists>k. c = (2 ^ k :: 32 word)))"
      and eq: "(if newCapacity < n then f (newCapacity * 2) n else Some newCapacity) = Some r"
      and n: "unat n > 2 ^ 31" and k: "\<exists>k. newCapacity = (2 ^ k :: 32 word)"
    from k obtain k where k: "newCapacity = 2 ^ k" by blast
    have "newCapacity < n"
    proof (cases "k < 32")
      case True
      then have "(2::nat) ^ k \<le> 2 ^ 31" by (intro power_increasing) simp_all
      then show ?thesis using n k True unat_two_power [of k] by (simp add: word_less_nat_alt)
    next
      case False
      then have "newCapacity = 0" using k by simp
      then show ?thesis using n by (simp add: word_less_nat_alt)
    qed
    with eq have "f (2 ^ Suc k) n = Some r" by (simp add: k mult.commute)
    from IH [OF this] n show False by blast
  qed
  show ?thesis using no [of "2 ^ k" need] assms by (cases "grow (2 ^ k) need") auto
qed

section \<open>Operations refine the operations on strings\<close>

text \<open>
  \<open>outcome_ok b x Q\<close>: the operation either returns a well-formed builder that satisfies \<open>Q\<close>,
  or the allocator refuses and the content is as before.
\<close>

definition outcome_ok ::
  "string_builder \<Rightarrow> 'a sb_result \<Rightarrow> ('a \<Rightarrow> string_builder \<Rightarrow> bool) \<Rightarrow> bool" where
  "outcome_ok b x Q \<longleftrightarrow> (\<exists>a b'. x = ret a b' \<and> sb_wf b' \<and> Q a b') \<or>
     (\<exists>b'. x = Some (Throw Bad_alloc b') \<and> sb_wf b' \<and> content b' = content b)"

lemma outcome_ok_ret: "sb_wf b' \<Longrightarrow> Q a b' \<Longrightarrow> outcome_ok b (ret a b') Q"
  by (simp add: outcome_ok_def)

lemma outcome_ok_bind:
  assumes "outcome_ok b x Q"
    and "\<And>a b'. sb_wf b' \<Longrightarrow> Q a b' \<Longrightarrow> outcome_ok b (k a b') R"
  shows "outcome_ok b (obind x k) R"
  using assms by (fastforce simp: outcome_ok_def)

lemma outcome_ok_weaken:
  "outcome_ok b x Q \<Longrightarrow> (\<And>a b'. sb_wf b' \<Longrightarrow> Q a b' \<Longrightarrow> R a b') \<Longrightarrow> outcome_ok b x R"
  by (fastforce simp: outcome_ok_def)

lemma unat_plus_small:
  fixes x y :: "32 word"
  assumes "unat x + unat y < 2 ^ 32"
  shows "unat (x + y) = unat x + unat y"
  using assms unat_add_lem [of x y] by simp

lemma unat_of_nat_small: "n < 2 ^ 32 \<Longrightarrow> unat (word_of_nat n :: 32 word) = n"
  by (simp add: unat_of_nat)

definition reserved :: "string_builder \<Rightarrow> nat \<Rightarrow> string_builder \<Rightarrow> bool" where
  "reserved b n b' \<longleftrightarrow> content b' = content b \<and> bufferLength b' = bufferLength b \<and>
     buffer b' \<noteq> None \<and> n < unat (bufferCapacity b')"

lemma realloc_wf:
  assumes "sb_wf b" and "j < 32" and "8 \<le> j"
    and "unat (bufferCapacity b) \<le> 2 ^ j" and "unat (bufferLength b) < (2::nat) ^ j"
  shows "sb_wf (b\<lparr>buffer := Some (realloc_bytes A (buffer b) (2 ^ j)), bufferCapacity := 2 ^ j\<rparr>)"
    and "content (b\<lparr>buffer := Some (realloc_bytes A (buffer b) (2 ^ j)), bufferCapacity := 2 ^ j\<rparr>) = content b"
proof -
  have len: "length (realloc_bytes A (buffer b) (2 ^ j)) = 2 ^ j"
    using assms by (auto simp: realloc_bytes_def Let_def split: option.split)
  show "sb_wf (b\<lparr>buffer := Some (realloc_bytes A (buffer b) (2 ^ j)), bufferCapacity := 2 ^ j\<rparr>)"
    using assms len by (auto simp: sb_wf_def unat_two_power)
  show "content (b\<lparr>buffer := Some (realloc_bytes A (buffer b) (2 ^ j)), bufferCapacity := 2 ^ j\<rparr>) = content b"
    using assms by (auto simp: content_def realloc_bytes_def sb_wf_def Let_def split: option.splits)
qed

lemma reserve_ok:
  assumes wf: "sb_wf b" and n: "unat count < limit"
  shows "outcome_ok b (reserve A count b) (\<lambda>_ b'. reserved b (unat count) b')"
proof -
  have c1: "unat (count + 1) = unat count + 1"
    using unat_plus_small [of count 1] n by (simp add: limit_def)
  show ?thesis
  proof (cases "count + 1 \<le> bufferCapacity b")
    case True
    then have le: "unat count < unat (bufferCapacity b)" using c1 by (simp add: word_le_nat_alt)
    then have "buffer b \<noteq> None" by (rule sb_wf_not_null [OF wf])
    then show ?thesis using True wf le
      by (simp add: reserve_def reserved_def outcome_ok_ret)
  next
    case False
    then have lt: "unat (bufferCapacity b) \<le> unat count" using c1 by (simp add: word_le_nat_alt)
    obtain k where k: "8 \<le> k" "k < 32" and start:
      "(if bufferCapacity b < minCapacity then minCapacity else bufferCapacity b) = 2 ^ k"
      "unat (bufferCapacity b) \<le> 2 ^ k"
    proof (cases "buffer b")
      case None
      then have "bufferCapacity b = 0" using wf by (simp add: sb_wf_def)
      then show ?thesis using that [of 8] by (simp add: minCapacity_def)
    next
      case (Some bs)
      from sb_wf_Some [OF wf this] obtain k where k: "8 \<le> k" "k < 32" "unat (bufferCapacity b) = 2 ^ k"
        by blast
      then have e: "bufferCapacity b = 2 ^ k" by (simp add: word_unat_eq_iff unat_two_power)
      have "\<not> (2 ^ k :: 32 word) < 256"
        using k unat_two_power [of k] power_increasing [of 8 k "2::nat"] by (simp add: word_less_nat_alt)
      then show ?thesis using that [of k] k e by (simp add: minCapacity_def)
    qed
    obtain j where j: "k \<le> j" "j < 32" "grow (2 ^ k) (count + 1) = Some (2 ^ j)" "unat count + 1 \<le> 2 ^ j"
      using grow_power [OF k(2), of "count + 1"] n c1 by (auto simp: limit_def)
    have bl: "unat (bufferLength b) < (2::nat) ^ j"
    proof -
      have "unat (bufferLength b) \<le> unat (bufferCapacity b)"
        using wf by (auto simp: sb_wf_def split: option.splits)
      then show ?thesis using lt j(4) by simp
    qed
    have cap: "unat (bufferCapacity b) \<le> 2 ^ j" using lt j(4) by simp
    note wf' = realloc_wf [OF wf j(2) _ cap bl, of A]
    have "8 \<le> j" using k j by simp
    then show ?thesis using False wf wf' start(1) j unat_two_power [OF j(2)]
      by (auto simp: reserve_def outcome_ok_def reserved_def content_def)
  qed
qed

text \<open>Writing inside the allocated bytes.\<close>

lemma buffer_write_ok:
  assumes "sb_wf b" and "buffer b \<noteq> None" and "pos + length s \<le> unat (bufferCapacity b)"
  obtains bs where "buffer b = Some bs" and "length bs = unat (bufferCapacity b)"
    and "buffer_write pos s b = ret () (b\<lparr>buffer := Some (take pos bs @ s @ drop (pos + length s) bs)\<rparr>)"
  using assms by (auto simp: sb_wf_def buffer_write_def write_at_def)

lemma append_write:
  assumes wf: "sb_wf b" and nn: "buffer b \<noteq> None"
    and room: "unat (bufferLength b) + length s < unat (bufferCapacity b)"
  shows "\<exists>b'. obind (buffer_write (unat (bufferLength b)) s b)
       (\<lambda>_ b2. ret () (b2\<lparr>bufferLength := bufferLength b2 + word_of_nat (length s)\<rparr>)) = ret () b' \<and>
     sb_wf b' \<and> content b' = content b @ s"
proof -
  have room': "unat (bufferLength b) + length s \<le> unat (bufferCapacity b)" using room by simp
  from buffer_write_ok [OF wf nn room'] obtain bs where bs: "buffer b = Some bs"
      "length bs = unat (bufferCapacity b)"
      "buffer_write (unat (bufferLength b)) s b =
         ret () (b\<lparr>buffer := Some (take (unat (bufferLength b)) bs @ s @ drop (unat (bufferLength b) + length s) bs)\<rparr>)"
    by blast
  have cap: "unat (bufferCapacity b) < 2 ^ 32" by (rule order.strict_trans2 [OF unsigned_less]) simp
  have "length s < 2 ^ 32" using room cap by simp
  then have l: "unat (bufferLength b + word_of_nat (length s)) = unat (bufferLength b) + length s"
    using room cap unat_plus_small [of "bufferLength b" "word_of_nat (length s)"]
    by (simp add: unat_of_nat_small)
  show ?thesis unfolding bs(3) using wf bs(1,2) room l
    by (auto simp: sb_wf_def content_def)
qed

lemma append_chars_ok:
  assumes wf: "sb_wf b" and room: "length (content b) + length s < limit"
  shows "outcome_ok b (append_chars A s b) (\<lambda>_ b'. content b' = content b @ s)"
proof -
  have l: "unat (bufferLength b) + length s < limit" using room length_content [OF wf] by simp
  then have c: "unat (bufferLength b + word_of_nat (length s)) = unat (bufferLength b) + length s"
    using unat_plus_small [of "bufferLength b" "word_of_nat (length s)"]
    by (simp add: unat_of_nat_small limit_def)
  have r: "outcome_ok b (reserve A (bufferLength b + word_of_nat (length s)) b)
      (\<lambda>_ b'. reserved b (unat (bufferLength b) + length s) b')"
    using reserve_ok [OF wf, of "bufferLength b + word_of_nat (length s)" A] l c by simp
  show ?thesis unfolding append_chars_def Let_def
  proof (rule outcome_ok_bind [OF r])
    fix a b1 assume "sb_wf b1" "reserved b (unat (bufferLength b) + length s) b1"
    then have b1: "sb_wf b1" "buffer b1 \<noteq> None"
        "unat (bufferLength b1) + length s < unat (bufferCapacity b1)" "content b1 = content b"
      by (simp_all add: reserved_def)
    from append_write [OF b1(1-3)] b1(4)
    show "outcome_ok b (obind (buffer_write (unat (bufferLength b1)) s b1)
        (\<lambda>_ b2. ret () (b2\<lparr>bufferLength := bufferLength b2 + word_of_nat (length s)\<rparr>)))
        (\<lambda>_ b'. content b' = content b @ s)"
      by (auto simp: outcome_ok_def)
  qed
qed

lemma append_char_ok:
  assumes wf: "sb_wf b" and room: "length (content b) + 1 < limit"
  shows "outcome_ok b (append_char A c b) (\<lambda>_ b'. content b' = content b @ [c])"
proof -
  have l: "unat (bufferLength b) + 1 < limit" using room length_content [OF wf] by simp
  have c1: "unat (bufferLength b + 1) = unat (bufferLength b) + 1"
    and c2: "unat (bufferLength b + 2) = unat (bufferLength b) + 2"
    using unat_plus_small [of "bufferLength b" 1] unat_plus_small [of "bufferLength b" 2] l
    by (simp_all add: limit_def)
  have r: "outcome_ok b
      (if bufferLength b + 2 \<ge> bufferCapacity b then reserve A (bufferLength b + 1) b else ret () b)
      (\<lambda>_ b'. reserved b (unat (bufferLength b) + 1) b')"
  proof (cases "bufferLength b + 2 \<ge> bufferCapacity b")
    case True
    then show ?thesis using reserve_ok [OF wf, of "bufferLength b + 1" A] l c1 by simp
  next
    case False
    then have "unat (bufferLength b) + 2 < unat (bufferCapacity b)"
      using c2 by (simp add: word_le_nat_alt)
    moreover from this have "buffer b \<noteq> None" by (rule sb_wf_not_null [OF wf])
    ultimately show ?thesis using False wf by (simp add: outcome_ok_ret reserved_def)
  qed
  show ?thesis unfolding append_char_def
  proof (rule outcome_ok_bind [OF r])
    fix a b1 assume "sb_wf b1" "reserved b (unat (bufferLength b) + 1) b1"
    then have b1: "sb_wf b1" "buffer b1 \<noteq> None"
        "unat (bufferLength b1) + length [c] < unat (bufferCapacity b1)" "content b1 = content b"
      by (simp_all add: reserved_def)
    from append_write [OF b1(1-3)] b1(4)
    show "outcome_ok b (obind (buffer_write (unat (bufferLength b1)) [c] b1)
        (\<lambda>_ b2. ret () (b2\<lparr>bufferLength := bufferLength b2 + 1\<rparr>))) (\<lambda>_ b'. content b' = content b @ [c])"
      by (auto simp: outcome_ok_def)
  qed
qed

lemma resize_wf:
  assumes wf: "sb_wf b" and n: "unat count < limit"
  shows "outcome_ok b (resize A count b) (\<lambda>_ b'. bufferLength b' = count \<and> buffer b' \<noteq> None \<and>
     take (min (unat count) (length (content b))) (content b') = take (min (unat count) (length (content b))) (content b))"
  unfolding resize_def
proof (rule outcome_ok_bind [OF reserve_ok [OF wf n]])
  fix a b1 assume b1: "sb_wf b1" "reserved b (unat count) b1"
  then obtain bs where bs: "buffer b1 = Some bs" by (auto simp: reserved_def)
  have c: "content (b1\<lparr>bufferLength := count\<rparr>) = take (unat count) bs"
    and c0: "content b = take (unat (bufferLength b)) bs"
    using b1 bs by (auto simp: content_def reserved_def)
  have wf1: "sb_wf (b1\<lparr>bufferLength := count\<rparr>)"
    using b1 bs by (simp add: sb_wf_def reserved_def)
  have t: "take (min (unat count) (length (content b))) (content (b1\<lparr>bufferLength := count\<rparr>)) =
      take (min (unat count) (length (content b))) (content b)"
    unfolding c using length_content [OF wf] by (simp add: c0)
  show "outcome_ok b (ret () (b1\<lparr>bufferLength := count\<rparr>)) (\<lambda>_ b'. bufferLength b' = count \<and>
      buffer b' \<noteq> None \<and> take (min (unat count) (length (content b))) (content b') =
        take (min (unat count) (length (content b))) (content b))"
    by (rule outcome_ok_ret [OF wf1]) (simp add: bs t)
qed

lemma write_start:
  assumes wf: "sb_wf b" and nn: "buffer b \<noteq> None" and l: "unat (bufferLength b) = length s"
  shows "\<exists>b'. buffer_write 0 s b = ret () b' \<and> sb_wf b' \<and> content b' = s"
proof -
  obtain bs where bs: "buffer b = Some bs" "length bs = unat (bufferCapacity b)"
      "length s < unat (bufferCapacity b)"
    using wf nn l by (auto simp: sb_wf_def)
  let ?b = "b\<lparr>buffer := Some (s @ drop (length s) bs)\<rparr>"
  have "buffer_write 0 s b = ret () ?b" using bs by (simp add: buffer_write_def write_at_def)
  moreover have "sb_wf ?b" using wf bs by (simp add: sb_wf_def)
  moreover have "content ?b = s" using l by (simp add: content_def)
  ultimately show ?thesis by blast
qed

lemma assign_ok:
  assumes wf: "sb_wf b" and room: "length s < limit"
  shows "outcome_ok b (assign_from A s b) (\<lambda>_ b'. content b' = s)"
proof -
  have l: "unat (word_of_nat (length s) :: 32 word) = length s"
    using room by (simp add: unat_of_nat_small limit_def)
  show ?thesis unfolding assign_from_def
  proof (rule outcome_ok_bind [OF resize_wf [OF wf]])
    show "unat (word_of_nat (length s) :: 32 word) < limit" using l room by simp
    fix a b1 assume "sb_wf b1" "bufferLength b1 = word_of_nat (length s) \<and> buffer b1 \<noteq> None \<and>
      take (min (unat (word_of_nat (length s) :: 32 word)) (length (content b))) (content b1) =
      take (min (unat (word_of_nat (length s) :: 32 word)) (length (content b))) (content b)"
    then show "outcome_ok b (buffer_write 0 s b1) (\<lambda>_ b'. content b' = s)"
      using write_start [of b1 s] l by (auto simp: outcome_ok_def)
  qed
qed

lemma init_length_ok:
  assumes "unat n < limit"
  shows "outcome_ok empty_builder (init_length A n) (\<lambda>_ b. bufferLength b = n \<and> buffer b \<noteq> None)"
proof -
  have c1: "unat (n + 1) = unat n + 1"
    using unat_plus_small [of n 1] assms by (simp add: limit_def)
  obtain j where j: "8 \<le> j" "j < 32" "grow (2 ^ 8) (n + 1) = Some (2 ^ j)" "unat n + 1 \<le> 2 ^ j"
    using grow_power [of 8 "n + 1"] assms c1 by (auto simp: limit_def)
  have "grow minCapacity (n + 1) = Some (2 ^ j)" using j(3) by (simp add: minCapacity_def)
  moreover have "length (realloc_bytes A None (2 ^ j)) = 2 ^ j" by (simp add: realloc_bytes_def)
  ultimately show ?thesis using j unat_two_power [OF j(2)] empty_builder_wf
    by (auto simp: init_length_def outcome_ok_def sb_wf_def)
qed

lemma init_from_ok:
  assumes "length s < limit"
  shows "outcome_ok empty_builder (init_from A s) (\<lambda>_ b. content b = s)"
proof -
  have l: "unat (word_of_nat (length s) :: 32 word) = length s"
    using assms by (simp add: unat_of_nat_small limit_def)
  show ?thesis unfolding init_from_def
  proof (rule outcome_ok_bind [OF init_length_ok])
    show "unat (word_of_nat (length s) :: 32 word) < limit" using l assms by simp
    fix a b assume "sb_wf b" "bufferLength b = word_of_nat (length s) \<and> buffer b \<noteq> None"
    then show "outcome_ok empty_builder (buffer_write 0 s b) (\<lambda>_ b'. content b' = s)"
      using write_start [of b s] l by (auto simp: outcome_ok_def)
  qed
qed

lemma c_str_ok:
  assumes wf: "sb_wf b"
  shows "\<exists>b'. c_str b = ret (takeWhile (\<lambda>c. c \<noteq> CHR 0x00) (content b)) b' \<and> sb_wf b' \<and> content b' = content b"
proof (cases "buffer b")
  case None
  then show ?thesis using wf by (auto simp: c_str_def sb_wf_def content_def)
next
  case (Some bs)
  from sb_wf_Some [OF wf Some] obtain k where k: "unat (bufferCapacity b) = 2 ^ k" "length bs = 2 ^ k"
      "unat (bufferLength b) < 2 ^ k" by blast
  have cap: "bufferCapacity b \<noteq> 0" using k(1) by (metis unat_0 power_not_zero zero_neq_numeral)
  let ?l = "unat (bufferLength b)"
  let ?bs = "take ?l bs @ [CHR 0x00] @ drop (?l + 1) bs"
  have w: "buffer_write ?l [CHR 0x00] b = ret () (b\<lparr>buffer := Some ?bs\<rparr>)"
    using Some k by (simp add: buffer_write_def write_at_def)
  have t: "takeWhile (\<lambda>c. c \<noteq> CHR 0x00) (xs @ CHR 0x00 # ys) = takeWhile (\<lambda>c. c \<noteq> CHR 0x00) xs" for xs ys
    by (induction xs) auto
  show ?thesis using wf Some k cap w by (auto simp: c_str_def sb_wf_def content_def t)
qed

section \<open>Formatted appending\<close>

lemma snprintf_ok:
  assumes wf: "sb_wf b" and bs: "buffer b = Some bs" and n: "0 < n"
    and room: "unat (bufferLength b) + n \<le> unat (bufferCapacity b)"
  shows "\<exists>bs'. snprintf_at (Some t) (unat (bufferLength b)) n b = ret (int (length t)) (b\<lparr>buffer := Some bs'\<rparr>) \<and>
     length bs' = length bs \<and> take (unat (bufferLength b)) bs' = content b \<and>
     (length t < n \<longrightarrow> take (unat (bufferLength b) + length t) bs' = content b @ t)"
proof -
  let ?l = "unat (bufferLength b)" and ?s = "take (n - 1) t @ [CHR 0x00]"
  let ?bs = "take ?l bs @ ?s @ drop (?l + length ?s) bs"
  have len: "length bs = unat (bufferCapacity b)" "?l \<le> length bs"
    using wf bs room by (simp_all add: sb_wf_def)
  have fits: "?l + length ?s \<le> length bs" using n room len(1) by simp
  have w: "buffer_write ?l ?s b = ret () (b\<lparr>buffer := Some ?bs\<rparr>)"
    using bs fits by (simp add: buffer_write_def write_at_def)
  have "snprintf_at (Some t) ?l n b = ret (int (length t)) (b\<lparr>buffer := Some ?bs\<rparr>)"
    using n w by (simp add: snprintf_at_def)
  moreover have "length ?bs = length bs" using fits len(2) by simp
  moreover have "take ?l ?bs = content b" using len(2) bs by (simp add: content_def)
  moreover have "take (?l + length t) ?bs = content b @ t" if "length t < n"
    using that len(2) bs by (simp add: content_def)
  ultimately show ?thesis by blast
qed

lemma sb_wf_buffer:
  "sb_wf b \<Longrightarrow> buffer b = Some bs \<Longrightarrow> length bs' = length bs \<Longrightarrow> sb_wf (b\<lparr>buffer := Some bs'\<rparr>)"
  by (simp add: sb_wf_def)

lemma begin_append_ok:
  assumes wf: "sb_wf b" and n: "length (content b) + unat count < limit"
  shows "outcome_ok b (begin_append A count b)
    (\<lambda>s b'. s = unat (bufferLength b) \<and> reserved b (unat (bufferLength b) + unat count) b')"
proof -
  have l: "unat (bufferLength b) + unat count < limit" using n length_content [OF wf] by simp
  then have c: "unat (bufferLength b + count) = unat (bufferLength b) + unat count"
    using unat_plus_small [of "bufferLength b" count] by (simp add: limit_def)
  show ?thesis unfolding begin_append_def
    by (rule outcome_ok_bind [OF reserve_ok [OF wf]])
      (use l c in \<open>auto intro!: outcome_ok_ret simp: reserved_def\<close>)
qed

lemma outcome_ok_trans:
  "outcome_ok b1 x Q \<Longrightarrow> content b1 = content b \<Longrightarrow> outcome_ok b x Q"
  by (simp add: outcome_ok_def)

lemma end_append_ok:
  assumes "sb_wf b" and "buffer b = Some bs"
    and "unat (bufferLength b) + length t < unat (bufferCapacity b)"
    and "take (unat (bufferLength b) + length t) bs = c @ t"
  shows "sb_wf (end_append (word_of_nat (length t)) b)"
    and "content (end_append (word_of_nat (length t)) b) = c @ t"
proof -
  have cap: "unat (bufferCapacity b) < 2 ^ 32" by (rule order.strict_trans2 [OF unsigned_less]) simp
  have lt: "length t < 2 ^ 32" using assms(3) cap by simp
  then have l: "unat (bufferLength b + word_of_nat (length t)) = unat (bufferLength b) + length t"
    using assms(3) cap unat_plus_small [of "bufferLength b" "word_of_nat (length t)"]
    by (simp add: unat_of_nat_small)
  show "sb_wf (end_append (word_of_nat (length t)) b)"
    using assms(1-3) l by (simp add: end_append_def sb_wf_def)
  show "content (end_append (word_of_nat (length t)) b) = c @ t"
    using assms(2,4) l by (simp add: end_append_def content_def)
qed

lemma append_format_ok:
  assumes wf: "sb_wf b" and room: "length (content b) + max 32 (length t) < limit"
  shows "outcome_ok b (append_format A (Some t) b)
    (\<lambda>n b'. n = word_of_nat (length t) \<and> content b' = content b @ t)"
proof -
  have t: "length t < limit" and r32: "length (content b) + unat (32 :: 32 word) < limit"
    using room by simp_all
  have lw: "unat (word_of_nat (length t) :: 32 word) = length t"
    using t by (simp add: unat_of_nat_small limit_def)
  show ?thesis unfolding append_format_def
  proof (rule outcome_ok_bind [OF begin_append_ok [OF wf r32]], elim conjE)
    fix s b1 assume wf1: "sb_wf b1" and s: "s = unat (bufferLength b)"
      and r1: "reserved b (unat (bufferLength b) + unat (32 :: 32 word)) b1"
    from r1 obtain bs1 where b1: "buffer b1 = Some bs1" "content b1 = content b"
        "bufferLength b1 = bufferLength b" "unat (bufferLength b) + 32 < unat (bufferCapacity b1)"
      by (auto simp: reserved_def)
    define space where "space = bufferCapacity b1 - bufferLength b1"
    have sp: "unat space = unat (bufferCapacity b1) - unat (bufferLength b1)"
      unfolding space_def using b1(3,4) by (intro unat_sub) (simp add: word_le_nat_alt)
    have pos: "0 < unat space" "unat (bufferLength b1) + unat space \<le> unat (bufferCapacity b1)"
      using sp b1(3,4) by simp_all
    obtain bs2 where bs2: "snprintf_at (Some t) (unat (bufferLength b1)) (unat space) b1 =
          ret (int (length t)) (b1\<lparr>buffer := Some bs2\<rparr>)" "length bs2 = length bs1"
        "take (unat (bufferLength b1)) bs2 = content b1"
        "length t < unat space \<longrightarrow> take (unat (bufferLength b1) + length t) bs2 = content b1 @ t"
      using snprintf_ok [OF wf1 b1(1) pos, of t] by blast
    let ?b2 = "b1\<lparr>buffer := Some bs2\<rparr>"
    have wf2: "sb_wf ?b2" by (rule sb_wf_buffer [OF wf1 b1(1) bs2(2)])
    have c2: "content ?b2 = content b" using bs2(3) b1(2) by (simp add: content_def)
    have tail: "outcome_ok b (obind (if space \<le> word_of_nat (length t)
          then obind (begin_append A (word_of_nat (length t)) ?b2) (\<lambda>s2 b3.
            obind (snprintf_at (Some t) s2 (unat (word_of_nat (length t) + 1 :: 32 word)) b3) (\<lambda>_ b4. ret () b4))
          else ret () ?b2) (\<lambda>_ b5. ret (word_of_nat (length t)) (end_append (word_of_nat (length t)) b5)))
        (\<lambda>n b'. n = word_of_nat (length t) \<and> content b' = content b @ t)"
    proof (cases "space \<le> word_of_nat (length t)")
      case False
      then have lt: "length t < unat space" using lw by (simp add: word_le_nat_alt)
      have "unat (bufferLength ?b2) + length t < unat (bufferCapacity ?b2)"
        "take (unat (bufferLength ?b2) + length t) bs2 = content b @ t"
        using lt sp bs2(4) b1(2) by simp_all
      from end_append_ok [OF wf2 _ this] False show ?thesis by (simp add: outcome_ok_ret)
    next
      case True
      have l1: "unat (word_of_nat (length t) + 1 :: 32 word) = length t + 1"
        using unat_plus_small [of "word_of_nat (length t)" 1] lw t by (simp add: limit_def)
      have r2: "length (content ?b2) + unat (word_of_nat (length t) :: 32 word) < limit"
        using room c2 lw by simp
      show ?thesis unfolding if_P [OF True] obind_assoc
      proof (rule outcome_ok_bind [OF outcome_ok_trans [OF begin_append_ok [OF wf2 r2] c2]], elim conjE)
        fix s2 b3 assume wf3: "sb_wf b3" and s2: "s2 = unat (bufferLength ?b2)"
          and r3: "reserved ?b2 (unat (bufferLength ?b2) + unat (word_of_nat (length t) :: 32 word)) b3"
        from r3 obtain bs3 where b3: "buffer b3 = Some bs3" "content b3 = content b"
            "bufferLength b3 = bufferLength b1" "unat (bufferLength b1) + length t < unat (bufferCapacity b3)"
          using c2 lw by (auto simp: reserved_def)
        obtain bs4 where bs4: "snprintf_at (Some t) (unat (bufferLength b3)) (length t + 1) b3 =
              ret (int (length t)) (b3\<lparr>buffer := Some bs4\<rparr>)" "length bs4 = length bs3"
            "take (unat (bufferLength b3) + length t) bs4 = content b3 @ t"
          using snprintf_ok [OF wf3 b3(1), of "length t + 1" t] b3(3,4) by auto
        have wf4: "sb_wf (b3\<lparr>buffer := Some bs4\<rparr>)" by (rule sb_wf_buffer [OF wf3 b3(1) bs4(2)])
        have "unat (bufferLength (b3\<lparr>buffer := Some bs4\<rparr>)) + length t <
            unat (bufferCapacity (b3\<lparr>buffer := Some bs4\<rparr>))"
          "take (unat (bufferLength (b3\<lparr>buffer := Some bs4\<rparr>)) + length t) bs4 = content b @ t"
          using b3 bs4(3) by simp_all
        from end_append_ok [OF wf4 _ this] bs4(1) l1 b3(3) s2
        show "outcome_ok b (obind (snprintf_at (Some t) s2 (unat (word_of_nat (length t) + 1 :: 32 word)) b3)
            (\<lambda>a m. obind (ret () m) (\<lambda>_ b5. ret (word_of_nat (length t)) (end_append (word_of_nat (length t)) b5))))
            (\<lambda>n b'. n = word_of_nat (length t) \<and> content b' = content b @ t)"
          by (simp add: outcome_ok_ret)
      qed
    qed
    show "outcome_ok b (let space = bufferCapacity b1 - bufferLength b1 in
       obind (snprintf_at (Some t) s (unat space) b1) (\<lambda>len b2.
       let lenw = (word_of_int len :: 32 word) in
       obind (if space \<le> lenw
              then obind (begin_append A lenw b2) (\<lambda>s2 b3.
                     obind (snprintf_at (Some t) s2 (unat (lenw + 1)) b3) (\<lambda>_ b4. ret () b4))
              else ret () b2)
         (\<lambda>_ b5. ret lenw (end_append lenw b5))))
      (\<lambda>n b'. n = word_of_nat (length t) \<and> content b' = content b @ t)"
      unfolding Let_def s b1(3) [symmetric] space_def [symmetric] bs2(1) obind_simps of_int_of_nat_eq
      by (rule tail)
  qed
qed

section \<open>Sequences of appends\<close>

fun put_all :: "('t \<Rightarrow> 'b \<Rightarrow> (unit, 'b) result) \<Rightarrow> 't list \<Rightarrow> 'b \<Rightarrow> (unit, 'b) result" where
  "put_all put [] b = ret () b"
| "put_all put (s # ss) b = obind (put s b) (\<lambda>_ b'. put_all put ss b')"

text \<open>
  The contract of an append operation, for \<open>operator+=\<close> on its various operands: \<open>chars\<close> gives
  the characters an operand stands for.
\<close>

locale text_buffer =
  fixes textof :: "'b \<Rightarrow> string" and valid :: "'b \<Rightarrow> bool" and chars :: "'t \<Rightarrow> string"
    and put :: "'t \<Rightarrow> 'b \<Rightarrow> (unit, 'b) result" and room :: nat
  assumes put_ok: "valid b \<Longrightarrow> length (textof b) + length (chars s) < room \<Longrightarrow>
     (\<exists>b'. put s b = ret () b' \<and> valid b' \<and> textof b' = textof b @ chars s) \<or>
     (\<exists>b'. put s b = Some (Throw Bad_alloc b') \<and> valid b' \<and> textof b' = textof b)"
begin

lemma put_all_ok:
  "valid b \<Longrightarrow> length (textof b) + length (concat (map chars ss)) < room \<Longrightarrow>
     (\<exists>b'. put_all put ss b = ret () b' \<and> valid b' \<and> textof b' = textof b @ concat (map chars ss)) \<or>
     (\<exists>b' k. put_all put ss b = Some (Throw Bad_alloc b') \<and> valid b' \<and> k < length ss \<and>
        textof b' = textof b @ concat (map chars (take k ss)))"
proof (induction ss arbitrary: b)
  case Nil
  then show ?case by simp
next
  case (Cons s ss)
  have "length (textof b) + length (chars s) < room" using Cons.prems(2) by simp
  from put_ok [OF Cons.prems(1) this] show ?case
  proof (elim disjE exE conjE)
    fix b1 assume b1: "put s b = ret () b1" "valid b1" "textof b1 = textof b @ chars s"
    then have "length (textof b1) + length (concat (map chars ss)) < room" using Cons.prems(2) by simp
    from Cons.IH [OF b1(2) this] show ?thesis
    proof (elim disjE exE conjE)
      fix b' k assume "put_all put ss b1 = Some (Throw Bad_alloc b')" "valid b'" "k < length ss"
        "textof b' = textof b1 @ concat (map chars (take k ss))"
      then show ?thesis using b1 by (intro disjI2 exI [where x = b'] exI [where x = "Suc k"]) simp
    qed (use b1 in simp)
  next
    fix b' assume "put s b = Some (Throw Bad_alloc b')" "valid b'" "textof b' = textof b"
    then show ?thesis by (intro disjI2 exI [where x = b'] exI [where x = 0]) simp
  qed
qed

end

interpretation sb_strings: text_buffer content sb_wf "\<lambda>s. s" "append_chars A" limit for A
  by unfold_locales (use append_chars_ok in \<open>fastforce simp: outcome_ok_def\<close>)

interpretation sb_chars: text_buffer content sb_wf "\<lambda>c. [c]" "append_char A" limit for A
  by unfold_locales (use append_char_ok in \<open>fastforce simp: outcome_ok_def\<close>)

end
