(* ===== verification/CPoll_Surface.thy ===== *)
theory CPoll_Surface
  imports CPoll_EPoll CPoll_Util CPoll_String
begin

text \<open>
  The thin parts of the interface: constructors, the synchronous calls, the entry points with some
  arguments fixed, threads, the parsing constructors of addresses, and the access and copying
  functions of \<open>string_builder\<close>.
\<close>

section \<open>Constructors\<close>

text \<open>
  \<open>Socket(int)\<close> and \<open>Socket(d, t, p)\<close> on fresh memory at \<open>this\<close>; the second one makes the object and
  then calls \<open>init\<close>. \<open>Socket(d, t, p)\<close> does not check the result of \<open>socket\<close>.
\<close>

definition Socket_construct :: "('w, 'cb) env \<Rightarrow> ptr \<Rightarrow> ('w, 'cb) machine \<Rightarrow> ('w, 'cb) machine" where
  "Socket_construct E this m = m\<lparr>heap := (heap m)(this \<mapsto> Socket_object (new_File (uninitialised E)))\<rparr>"

definition Socket_construct_fd ::
  "('w, 'cb) env \<Rightarrow> ptr \<Rightarrow> int \<Rightarrow> ('w, 'cb) machine \<Rightarrow> ('w, 'cb) machine" where
  "Socket_construct_fd E this d m =
     FD_setBlocking E d False (m\<lparr>heap := (heap m)(this \<mapsto> Socket_object (new_File (uninitialised E)\<lparr>fd := d\<rparr>))\<rparr>)"

definition Socket_construct_new ::
  "('w, 'cb) env \<Rightarrow> ptr \<Rightarrow> int \<Rightarrow> int \<Rightarrow> int \<Rightarrow> ('w, 'cb) machine \<Rightarrow> (unit, ('w, 'cb) machine) result"
where
  "Socket_construct_new E this d t p m = Socket_init E this d t p (Socket_construct E this m)"

text \<open>The timer's constructors; \<open>interval\<close> is indeterminate until \<open>init\<close> sets it.\<close>

definition new_Timer :: "timespec \<Rightarrow> 'cb Timer" where
  "new_Timer g = \<lparr>timer_fd = -1, timer_cb = None, interval = g\<rparr>"

definition Timer_construct_handle ::
  "('w, 'cb) env \<Rightarrow> ptr \<Rightarrow> timespec \<Rightarrow> int \<Rightarrow> ('w, 'cb) machine \<Rightarrow> (unit, ('w, 'cb) machine) result" where
  "Timer_construct_handle E this g handle m = Timer_init_handle E this handle (put_timer this (new_Timer g) m)"

definition Timer_construct_ms ::
  "('w, 'cb) env \<Rightarrow> ptr \<Rightarrow> timespec \<Rightarrow> 64 word \<Rightarrow> ('w, 'cb) machine \<Rightarrow> (unit, ('w, 'cb) machine) result" where
  "Timer_construct_ms E this g ms m = Timer_init_ms E this ms (put_timer this (new_Timer g) m)"

definition Timer_construct ::
  "('w, 'cb) env \<Rightarrow> ptr \<Rightarrow> timespec \<Rightarrow> timespec \<Rightarrow> ('w, 'cb) machine \<Rightarrow> (unit, ('w, 'cb) machine) result" where
  "Timer_construct E this g iv m = Timer_init E this iv (put_timer this (new_Timer g) m)"

section \<open>Synchronous calls\<close>

definition sync_call ::
  "('w, 'cb) env \<Rightarrow> ptr \<Rightarrow> (int \<Rightarrow> ('w, 'cb) machine \<Rightarrow> syscall) \<Rightarrow> ('w, 'cb) machine \<Rightarrow>
     (int, ('w, 'cb) machine) result" where
  "sync_call E this call m = with_file this m (\<lambda>f. case run_call E (call (fd f) m) m of (r, m1) \<Rightarrow> ret r m1)"

definition File_read_sync ::
  "('w, 'cb) env \<Rightarrow> ptr \<Rightarrow> addr \<Rightarrow> int \<Rightarrow> ('w, 'cb) machine \<Rightarrow> (int, ('w, 'cb) machine) result" where
  "File_read_sync E this buf len = sync_call E this (\<lambda>d m. Sys_read d buf len)"

definition File_write_sync ::
  "('w, 'cb) env \<Rightarrow> ptr \<Rightarrow> addr \<Rightarrow> int \<Rightarrow> ('w, 'cb) machine \<Rightarrow> (int, ('w, 'cb) machine) result" where
  "File_write_sync E this buf len = sync_call E this (\<lambda>d m. Sys_write d buf len)"

definition File_readv_sync ::
  "('w, 'cb) env \<Rightarrow> ptr \<Rightarrow> addr \<Rightarrow> int \<Rightarrow> ('w, 'cb) machine \<Rightarrow> (int, ('w, 'cb) machine) result" where
  "File_readv_sync E this iov n = sync_call E this (\<lambda>d m. Sys_readv d (iov_slice m iov n))"

definition File_writev_sync ::
  "('w, 'cb) env \<Rightarrow> ptr \<Rightarrow> addr \<Rightarrow> int \<Rightarrow> ('w, 'cb) machine \<Rightarrow> (int, ('w, 'cb) machine) result" where
  "File_writev_sync E this iov n = sync_call E this (\<lambda>d m. Sys_writev d (iov_slice m iov n))"

definition File_send_sync ::
  "('w, 'cb) env \<Rightarrow> ptr \<Rightarrow> addr \<Rightarrow> int \<Rightarrow> int \<Rightarrow> ('w, 'cb) machine \<Rightarrow> (int, ('w, 'cb) machine) result" where
  "File_send_sync E this buf len flags = sync_call E this (\<lambda>d m. Sys_send d buf len flags)"

definition File_recv_sync ::
  "('w, 'cb) env \<Rightarrow> ptr \<Rightarrow> addr \<Rightarrow> int \<Rightarrow> int \<Rightarrow> ('w, 'cb) machine \<Rightarrow> (int, ('w, 'cb) machine) result" where
  "File_recv_sync E this buf len flags = sync_call E this (\<lambda>d m. Sys_recv d buf len flags)"

section \<open>Entry points with fixed arguments\<close>

definition File_repeatRead ::
  "('w, 'cb) env \<Rightarrow> ptr \<Rightarrow> addr \<Rightarrow> int \<Rightarrow> 'cb option \<Rightarrow> ('w, 'cb) machine \<Rightarrow> (unit, ('w, 'cb) machine) result"
where
  "File_repeatRead E this buf len c m = File_read E this buf len c True m"

definition File_repeatWrite ::
  "('w, 'cb) env \<Rightarrow> ptr \<Rightarrow> addr \<Rightarrow> int \<Rightarrow> 'cb option \<Rightarrow> ('w, 'cb) machine \<Rightarrow> (unit, ('w, 'cb) machine) result"
where
  "File_repeatWrite E this buf len c m = File_write E this buf len c True m"

definition File_repeatRecv ::
  "('w, 'cb) env \<Rightarrow> ptr \<Rightarrow> addr \<Rightarrow> int \<Rightarrow> int \<Rightarrow> 'cb option \<Rightarrow> ('w, 'cb) machine \<Rightarrow>
     (unit, ('w, 'cb) machine) result" where
  "File_repeatRecv E this buf len flags c m = File_recv E this buf len flags c True m"

definition File_repeatSend ::
  "('w, 'cb) env \<Rightarrow> ptr \<Rightarrow> addr \<Rightarrow> int \<Rightarrow> int \<Rightarrow> 'cb option \<Rightarrow> ('w, 'cb) machine \<Rightarrow>
     (unit, ('w, 'cb) machine) result" where
  "File_repeatSend E this buf len flags c m = File_send E this buf len flags c True m"

definition File_repeatSendFileFrom ::
  "('w, 'cb) env \<Rightarrow> ptr \<Rightarrow> int \<Rightarrow> int \<Rightarrow> int \<Rightarrow> 'cb option \<Rightarrow> ('w, 'cb) machine \<Rightarrow>
     (unit, ('w, 'cb) machine) result" where
  "File_repeatSendFileFrom E this src offset len c m = File_sendFileFrom E this src offset len c True m"

definition File_cancelSend :: "ptr \<Rightarrow> ('w, 'cb) machine \<Rightarrow> (unit, ('w, 'cb) machine) result" where
  "File_cancelSend this m = File_cancelWrite this m"

definition File_cancelRecv :: "ptr \<Rightarrow> ('w, 'cb) machine \<Rightarrow> (unit, ('w, 'cb) machine) result" where
  "File_cancelRecv this m = File_cancelRead this m"

definition Socket_repeatAccept ::
  "('w, 'cb) env \<Rightarrow> ptr \<Rightarrow> 'cb option \<Rightarrow> ('w, 'cb) machine \<Rightarrow> (unit, ('w, 'cb) machine) result" where
  "Socket_repeatAccept E this c m = Socket_accept_async E this c True m"

section \<open>Threads\<close>

text \<open>
  \<open>createThread\<close>: \<open>created\<close> is the result of \<open>pthread_create\<close> and the thread that it stored, if any.
  Its failures are positive numbers, which the assertion lets pass; then the result is the
  indeterminate value \<open>g\<close>. \<open>threadFunc\<close> runs the copy of the function and deletes it.
\<close>

definition createThread :: "nat \<Rightarrow> int \<times> nat option \<Rightarrow> 'm \<Rightarrow> (nat, 'm) result" where
  "createThread g created m =
     (if fst created \<ge> 0 then ret (case snd created of Some t \<Rightarrow> t | None \<Rightarrow> g) m
      else Some (Fault Assertion_failed))"

definition threadFunc :: "('m \<Rightarrow> (unit, 'm) result) \<Rightarrow> ('m \<Rightarrow> 'm) \<Rightarrow> 'm \<Rightarrow> (unit, 'm) result" where
  "threadFunc func delete_copy m = obind (func m) (\<lambda>_ m1. ret () (delete_copy m1))"

section \<open>Addresses and endpoints\<close>

text \<open>
  The parsing constructors. \<open>pton\<close> is \<open>inet_pton\<close>, whose result is not checked: for a text that is no
  address the member keeps the indeterminate value \<open>g\<close>.
\<close>

definition IPAddress_parse :: "(string \<Rightarrow> IPAddress option) \<Rightarrow> IPAddress \<Rightarrow> string \<Rightarrow> IPAddress" where
  "IPAddress_parse pton g txt = (case pton txt of Some a \<Rightarrow> a | None \<Rightarrow> g)"

definition IPv6Address_parse :: "(string \<Rightarrow> 128 word option) \<Rightarrow> 128 word \<Rightarrow> string \<Rightarrow> 128 word" where
  "IPv6Address_parse pton g txt = (case pton txt of Some a \<Rightarrow> a | None \<Rightarrow> g)"

text \<open>\<open>getSize\<close>, with the \<open>sizeof\<close> of the three classes given, and \<open>construct\<close>, which is \<open>create\<close> in place.\<close>

definition EndPoint_getSize :: "int \<times> int \<times> int \<Rightarrow> int \<Rightarrow> int" where
  "EndPoint_getSize sizes fam = (case sizes of (ip, ip6, un) \<Rightarrow>
     if fam = AF_INET then ip else if fam = AF_INET6 then ip6 else if fam = AF_UNIX then un else 0)"

definition EndPoint_construct :: "128 word \<Rightarrow> (nat \<Rightarrow> EndPoint option) \<Rightarrow> nat \<Rightarrow> int \<Rightarrow> nat option \<times> (nat \<Rightarrow> EndPoint option)"
where
  "EndPoint_construct g mem p fam = (case EndPoint_create g fam of
      Some e \<Rightarrow> (Some p, mem(p \<mapsto> e)) | None \<Rightarrow> (None, mem))"

section \<open>Access to a string_builder\<close>

text \<open>Unchecked access: outside the allocated bytes it is a fault, up to the capacity it is not.\<close>

definition sb_index :: "32 word \<Rightarrow> string_builder \<Rightarrow> char sb_result" where
  "sb_index i b = (case buffer b of
      None \<Rightarrow> Some (Fault Bad_pointer)
    | Some bs \<Rightarrow> if unat i < length bs then ret (bs ! unat i) b else Some (Fault Bad_pointer))"

definition sb_front :: "string_builder \<Rightarrow> char sb_result" where
  "sb_front b = sb_index 0 b"

definition sb_back :: "string_builder \<Rightarrow> char sb_result" where
  "sb_back b = sb_index (bufferLength b - 1) b"

text \<open>\<open>begin\<close> and \<open>end\<close>, and the conversion to a view: the characters between them.\<close>

definition sb_view :: "string_builder \<Rightarrow> string sb_result" where
  "sb_view b = (case buffer b of
      None \<Rightarrow> if bufferLength b = 0 then ret [] b else Some (Fault Bad_pointer)
    | Some bs \<Rightarrow> if unat (bufferLength b) \<le> length bs then ret (take (unat (bufferLength b)) bs) b
        else Some (Fault Bad_pointer))"

definition sb_length :: "string_builder \<Rightarrow> 32 word" where "sb_length b = bufferLength b"
definition max_size :: "32 word" where "max_size = 1073741822"

text \<open>Copying: the other builder's \<open>data()\<close> and \<open>length()\<close>, a different object.\<close>

definition copy_construct :: "allocator \<Rightarrow> string_builder \<Rightarrow> unit sb_result" where
  "copy_construct A other = init_from A (case buffer other of None \<Rightarrow> [] | Some bs \<Rightarrow> take (unat (bufferLength other)) bs)"

definition copy_assign :: "allocator \<Rightarrow> string_builder \<Rightarrow> string_builder \<Rightarrow> unit sb_result" where
  "copy_assign A other b =
     assign_from A (case buffer other of None \<Rightarrow> [] | Some bs \<Rightarrow> take (unat (bufferLength other)) bs) b"

text \<open>
  \<open>append(const basic_string_builder&)\<close>: for another object, its characters. For the object itself the
  source pointer is taken before \<open>reserve\<close>, so that it dangles when the buffer is reallocated.
\<close>

definition append_builder :: "allocator \<Rightarrow> string_builder \<Rightarrow> string_builder \<Rightarrow> unit sb_result" where
  "append_builder A other b =
     append_chars A (case buffer other of None \<Rightarrow> [] | Some bs \<Rightarrow> take (unat (bufferLength other)) bs) b"

definition append_self :: "allocator \<Rightarrow> string_builder \<Rightarrow> unit sb_result" where
  "append_self A b =
     (let s = (case buffer b of None \<Rightarrow> [] | Some bs \<Rightarrow> take (unat (bufferLength b)) bs); count = bufferLength b in
      obind (reserve A (bufferLength b + count) b) (\<lambda>_ b1.
        if bufferCapacity b1 \<noteq> bufferCapacity b \<and> s \<noteq> [] then Some (Fault Bad_pointer)
        else obind (buffer_write (unat (bufferLength b1)) s b1) (\<lambda>_ b2.
          ret () (b2\<lparr>bufferLength := bufferLength b2 + count\<rparr>))))"

text \<open>
  The overloads for other sources of characters pass a pointer and a length that is cut to
  \<open>size_type\<close>. A \<open>std::string\<close>, a view or a range \<open>[s, end)\<close> is its list of characters; a C string is
  the memory from its pointer on, and \<open>strlen\<close> needs a null character there.
\<close>

definition sized :: "string \<Rightarrow> string" where
  "sized s = take (unat (word_of_nat (length s) :: 32 word)) s"

definition with_cstring :: "(string \<Rightarrow> unit sb_result) \<Rightarrow> string \<Rightarrow> unit sb_result" where
  "with_cstring k mem = (case cstring mem of None \<Rightarrow> Some (Fault Bad_pointer) | Some s \<Rightarrow> k (sized s))"

definition construct_string :: "allocator \<Rightarrow> string \<Rightarrow> unit sb_result" where
  "construct_string A s = init_from A (sized s)"

definition construct_chars :: "allocator \<Rightarrow> string \<Rightarrow> unit sb_result" where
  "construct_chars A s = init_from A s"

definition construct_cstring :: "allocator \<Rightarrow> string \<Rightarrow> unit sb_result" where
  "construct_cstring A = with_cstring (construct_chars A)"

definition assign_string :: "allocator \<Rightarrow> string \<Rightarrow> string_builder \<Rightarrow> unit sb_result" where
  "assign_string A s b = assign_from A (sized s) b"

definition assign_cstring :: "allocator \<Rightarrow> string \<Rightarrow> string_builder \<Rightarrow> unit sb_result" where
  "assign_cstring A mem b = with_cstring (\<lambda>s. assign_from A s b) mem"

definition append_string :: "allocator \<Rightarrow> string \<Rightarrow> string_builder \<Rightarrow> unit sb_result" where
  "append_string A s b = append_chars A (sized s) b"

definition append_cstring :: "allocator \<Rightarrow> string \<Rightarrow> string_builder \<Rightarrow> unit sb_result" where
  "append_cstring A mem b = with_cstring (\<lambda>s. append_chars A s b) mem"

definition append_range :: "allocator \<Rightarrow> string \<Rightarrow> string_builder \<Rightarrow> unit sb_result" where
  "append_range A s b = append_chars A (sized s) b"

section \<open>Facts\<close>

lemma sb_view_content: "sb_wf b \<Longrightarrow> sb_view b = ret (content b) b"
  by (auto simp: sb_view_def sb_wf_def content_def split: option.splits)

lemma data_content: "(case buffer b of None \<Rightarrow> [] | Some bs \<Rightarrow> take (unat (bufferLength b)) bs) = content b"
  by (simp add: content_def)

lemma copy_construct_ok:
  assumes "sb_wf other" and "length (content other) < limit"
  shows "outcome_ok empty_builder (copy_construct A other) (\<lambda>_ b. content b = content other)"
  unfolding copy_construct_def data_content using assms(2) by (rule init_from_ok)

lemma append_builder_ok:
  assumes "sb_wf b" and "length (content b) + length (content other) < limit"
  shows "outcome_ok b (append_builder A other b) (\<lambda>_ b'. content b' = content b @ content other)"
  unfolding append_builder_def data_content using assms by (rule append_chars_ok)

lemma sized_id [simp]: "length s < 2 ^ 32 \<Longrightarrow> sized s = s"
  by (simp add: sized_def unat_of_nat take_bit_nat_eq_self)

lemma append_cstring_terminated:
  assumes "CHR 0x00 \<notin> set s" and "length s < 2 ^ 32"
  shows "append_cstring A (s @ CHR 0x00 # rest) b = append_chars A s b"
proof -
  have "takeWhile (\<lambda>c. c \<noteq> CHR 0x00) (s @ CHR 0x00 # rest) = s" using assms(1) by (subst takeWhile_append2) auto
  then show ?thesis using assms(2) by (simp add: append_cstring_def with_cstring_def cstring_def)
qed

end
