(* ===== verification/CPoll_Invariant.thy ===== *)
theory CPoll_Invariant
  imports CPoll_Surface
begin

text \<open>
  What an invariant of the machine needs in order to be kept by the whole library: a contract (locale
  \<open>library_invariant\<close>) over the steps that change objects, and the proof, through a small calculus of
  invariants over results (\<open>holds_after\<close>), that then every operation, every class' \<open>dispatch\<close> and the
  event loop keep it.
\<close>

section \<open>Invariants over results\<close>

text \<open>
  Whatever the machine is when the code returns or throws, \<open>P\<close> holds of it; and none of the faults in
  \<open>F\<close> happens.
\<close>

fun holds_after :: "fault set \<Rightarrow> ('m \<Rightarrow> bool) \<Rightarrow> ('a, 'm) result \<Rightarrow> bool" where
  "holds_after F P None \<longleftrightarrow> True"
| "holds_after F P (Some (Ret a m)) \<longleftrightarrow> P m"
| "holds_after F P (Some (Throw e m)) \<longleftrightarrow> P m"
| "holds_after F P (Some (Fault f)) \<longleftrightarrow> f \<notin> F"

lemma holds_obind:
  assumes "holds_after F P x" and "\<And>a m. P m \<Longrightarrow> holds_after F P (k a m)"
  shows "holds_after F P (obind x k)"
proof (cases x)
  case (Some out)
  then show ?thesis using assms by (cases out) simp_all
qed simp

section \<open>The interface\<close>

text \<open>
  The operations that the code puts into each slot, and those that it may repeat: a cancelled operation
  may have left the flag behind, an operation on all of a buffer never has it.
\<close>

fun slot_allows :: "slot \<Rightarrow> Operations \<Rightarrow> bool" where
  "slot_allows Rd opr \<longleftrightarrow> opr \<in> {Op_none, Op_read, Op_recv, Op_readv, Op_wait, Op_readAll, Op_recvAll,
     Op_readvAll, Op_accept}"
| "slot_allows Wr opr \<longleftrightarrow> opr \<in> {Op_none, Op_write, Op_send, Op_writev, Op_sendFileFrom, Op_wait, Op_writeAll,
     Op_sendAll, Op_writevAll, Op_connect, Op_close}"

definition may_repeat :: "Operations \<Rightarrow> bool" where
  "may_repeat opr \<longleftrightarrow> opr \<in> {Op_none, Op_read, Op_write, Op_recv, Op_send, Op_readv, Op_writev, Op_sendFileFrom,
     Op_accept}"

definition slot_ok :: "slot \<Rightarrow> 'cb OperationInfo \<Rightarrow> bool" where
  "slot_ok s opn \<longleftrightarrow> slot_allows s (operation opn) \<and> (repeating opn \<longrightarrow> may_repeat (operation opn))"

lemma slot_ok_skip [simp]: "slot_ok s (opn\<lparr>skipSynchronousAttempt := b\<rparr>) = slot_ok s opn"
  by (simp add: slot_ok_def)

text \<open>
  The count of an \<open>EPoll\<close> never exceeds its array, so neither the loop of \<open>run\<close> nor that of \<open>remove\<close>
  leaves it.
\<close>

definition epoll_ok :: "EPoll \<Rightarrow> bool" where
  "epoll_ok e \<longleftrightarrow> currCycleNotificationsCount e \<le> int EVENTSPERCYCLE \<and>
     EVENTSPERCYCLE \<le> length (currCycleNotifications e)"

lemma slot_allows_none [simp]: "slot_allows s Op_none"
  by (cases s) simp_all

lemma may_repeat_simps [simp]:
  "may_repeat Op_none" "may_repeat Op_read" "may_repeat Op_write" "may_repeat Op_recv" "may_repeat Op_send"
  "may_repeat Op_readv" "may_repeat Op_writev" "may_repeat Op_sendFileFrom" "may_repeat Op_accept"
  by (simp_all add: may_repeat_def)

lemma slot_ok_none [simp]: "operation opn = Op_none \<Longrightarrow> slot_ok s opn"
  by (simp add: slot_ok_def)

lemma slot_ok_cong: "operation x = operation y \<Longrightarrow> repeating x = repeating y \<Longrightarrow> slot_ok s x = slot_ok s y"
  by (simp add: slot_ok_def)

text \<open>A new object: nothing pending, no notification outstanding.\<close>

fun new_object :: "'cb fd_object \<Rightarrow> bool" where
  "new_object (File_object f) \<longleftrightarrow> (\<forall>s. operation (pendingOps f s) = Op_none)"
| "new_object (Socket_object f) \<longleftrightarrow> (\<forall>s. operation (pendingOps f s) = Op_none)"
| "new_object (Timer_object t) \<longleftrightarrow> True"
| "new_object (EPoll_object e) \<longleftrightarrow> length (currCycleNotifications e) = EVENTSPERCYCLE \<and>
     currCycleNotificationsCount e = 0"

fun registers :: "syscall \<Rightarrow> bool" where
  "registers (Sys_epoll_add epfd d ev p) \<longleftrightarrow> True"
| "registers c \<longleftrightarrow> False"

text \<open>
  \<open>R\<close>: changes of the world that every call may make, except for the registration of a descriptor with
  an \<open>EPoll\<close> and the waiting for its events.
\<close>

locale quiet_kernel =
  fixes E :: "('w, 'cb) env" and R :: "'w \<Rightarrow> 'w \<Rightarrow> bool"
  assumes sys_quiet: "\<And>c w. \<not> registers c \<Longrightarrow> R w (snd (sys E c w))"
    and so_error_quiet: "\<And>d w. R w (snd (sys_so_error E d w))"
    and timer_read_quiet: "\<And>d w. R w (snd (sys_timer_read E d w))"
    and timer_gettime_quiet: "\<And>d w. R w (snd (sys_timer_gettime E d w))"
    and sockname_quiet: "\<And>peer d w. R w (snd (sys_sockname E peer d w))"
    and recvfrom_quiet: "\<And>d b n fl sz w. R w (snd (sys_recvfrom E d b n fl sz w))"
    and host_quiet: "\<And>h port fam st pr w. R w (snd (host_answer E h port fam st pr w))"

text \<open>
  The laws of an invariant \<open>I\<close> under which the faults in \<open>F\<close> do not happen. It survives what user code
  does and quiet changes of the world; slots hold what \<open>slot_ok\<close> allows; descriptors are opened in
  objects that have none and closed before an object forgets them; objects are made where \<open>room\<close> holds
  and deleted when \<open>idle\<close> holds, with their descriptor closed; the notifications that \<open>epoll_wait\<close>
  reports may be stored, cancelled and counted; and the loop finds them in the array, and their objects.
\<close>

locale library_invariant = quiet_kernel E R
  for E :: "('w, 'cb) env" and R :: "'w \<Rightarrow> 'w \<Rightarrow> bool" +
  fixes I :: "('w, 'cb) machine \<Rightarrow> bool" and F :: "fault set"
    and room :: "('w, 'cb) machine \<Rightarrow> ptr \<Rightarrow> bool" and idle :: "('w, 'cb) machine \<Rightarrow> ptr \<Rightarrow> bool"
  assumes faults: "F \<subseteq> {Stale_notification, Out_of_bounds}"
    and user: "\<And>k r m. I m \<Longrightarrow> holds_after F I (usr E k r m)"
    and quiet: "\<And>m w. I m \<Longrightarrow> R (world m) w \<Longrightarrow> I (m\<lparr>world := w\<rparr>)"
    and errno_keeps: "\<And>m e. I m \<Longrightarrow> I (m\<lparr>errno := e\<rparr>)"
    and iovs_keeps: "\<And>m v. I m \<Longrightarrow> I (m\<lparr>iovs := v\<rparr>)"
    and allowed: "\<And>m p s opn. I m \<Longrightarrow> op_at m p s = Some opn \<Longrightarrow> slot_ok s opn"
    and slot_changed: "\<And>m p s opn. I m \<Longrightarrow> slot_ok s opn \<Longrightarrow> I (put_op p s opn m)"
    and file_opened: "\<And>m p f d. I m \<Longrightarrow> file_at m p = Some f \<Longrightarrow> fd f = -1 \<Longrightarrow> I (put_file p (f\<lparr>fd := d\<rparr>) m)"
    and file_closed: "\<And>m p f r m1. I m \<Longrightarrow> file_at m p = Some f \<Longrightarrow> run_call E (Sys_close (fd f)) m = (r, m1) \<Longrightarrow>
      I (put_file p (f\<lparr>fd := -1\<rparr>) m1)"
    and timer_changed: "\<And>m p t t'. I m \<Longrightarrow> timer_at m p = Some t \<Longrightarrow> timer_fd t = -1 \<or> timer_fd t' = timer_fd t \<Longrightarrow>
      I (put_timer p t' m)"
    and timer_closed: "\<And>m p t r m1. I m \<Longrightarrow> timer_at m p = Some t \<Longrightarrow>
      run_call E (Sys_close (timer_fd t)) m = (r, m1) \<Longrightarrow> I (put_timer p (t\<lparr>timer_fd := -1\<rparr>) m1)"
    and made: "\<And>m p x. I m \<Longrightarrow> room m p \<Longrightarrow> new_object x \<Longrightarrow> I (m\<lparr>heap := (heap m)(p \<mapsto> x)\<rparr>)"
    and deleted: "\<And>m p d r m1. I m \<Longrightarrow> idle m p \<Longrightarrow> fd_of m p = Some d \<Longrightarrow>
      run_call E (Sys_close d) m = (r, m1) \<Longrightarrow> I (free_object p m1)"
    and deleted_closed: "\<And>m p d. I m \<Longrightarrow> idle m p \<Longrightarrow> fd_of m p = Some d \<Longrightarrow> d < 0 \<Longrightarrow> I (free_object p m)"
    and room_heap: "\<And>m m1 p. heap m1 = heap m \<Longrightarrow> room m p \<Longrightarrow> room m1 p"
    and registered: "\<And>m p e q d ev r m1. I m \<Longrightarrow> epoll_at m p = Some e \<Longrightarrow> fd_of m q = Some d \<Longrightarrow>
      run_call E (Sys_epoll_add (epoll_fd e) d ev q) m = (r, m1) \<Longrightarrow> I m1"
    and received: "\<And>m p e t r evs m1 e1. I m \<Longrightarrow> epoll_at m p = Some e \<Longrightarrow>
      run_out (sys_epoll_wait E (epoll_fd e) (int EVENTSPERCYCLE) t) m = (r, evs, m1) \<Longrightarrow>
      e1 = e\<lparr>currCycleNotifications := store_events evs (currCycleNotifications e)\<rparr> \<Longrightarrow>
      (r < 0 \<longrightarrow> I (put_epoll p e1 m1)) \<and>
      (r \<le> int EVENTSPERCYCLE \<longrightarrow> I (put_epoll p (e1\<lparr>currCycleNotificationsCount := r\<rparr>) m1))"
    and counted: "\<And>m p e. I m \<Longrightarrow> epoll_at m p = Some e \<Longrightarrow> I (put_epoll p (e\<lparr>currCycleNotificationsCount := 0\<rparr>) m)"
    and cancelled: "\<And>m p e q. I m \<Longrightarrow> epoll_at m p = Some e \<Longrightarrow> I (put_epoll p (e\<lparr>currCycleNotifications :=
      cancel_events q (currCycleNotificationsCount e) (currCycleNotifications e)\<rparr>) m)"
    and in_bounds: "\<And>m p e i. I m \<Longrightarrow> epoll_at m p = Some e \<Longrightarrow> int i < currCycleNotificationsCount e \<Longrightarrow>
      i < length (currCycleNotifications e)"
    and live: "\<And>m p e i. Stale_notification \<in> F \<Longrightarrow> I m \<Longrightarrow> epoll_at m p = Some e \<Longrightarrow>
      int i < currCycleNotificationsCount e \<Longrightarrow> ev_ptr (currCycleNotifications e ! i) \<noteq> 0 \<Longrightarrow>
      heap m (ev_ptr (currCycleNotifications e ! i)) \<noteq> None"
begin

lemma other_faults [simp]: "Bad_pointer \<notin> F" "Assertion_failed \<notin> F"
  using faults by auto

lemma invoke_keeps: "I m \<Longrightarrow> holds_after F I (invoke E c r m)"
  by (cases c) (simp_all add: user)

lemma set_errno_keeps: "I m \<Longrightarrow> I (set_errno e m)"
  by (simp add: set_errno_def errno_keeps split: option.split)

lemma run_call_keeps: "run_call E c m = (r, m1) \<Longrightarrow> I m \<Longrightarrow> \<not> registers c \<Longrightarrow> I m1"
  using sys_quiet [of c "world m"] by (auto simp: run_call_def intro!: set_errno_keeps quiet split: prod.splits)

lemma run_out_keeps: "I m \<Longrightarrow> R (world m) (snd (g (world m))) \<Longrightarrow> run_out g m = (r, x, m1) \<Longrightarrow> I m1"
  by (auto simp: run_out_def intro!: set_errno_keeps quiet split: prod.splits)

lemma with_op_keeps:
  "I m \<Longrightarrow> (\<And>opn. op_at m this s = Some opn \<Longrightarrow> slot_ok s opn \<Longrightarrow> holds_after F I (k opn)) \<Longrightarrow>
     holds_after F I (with_op this s m k)"
  by (cases "op_at m this s") (simp_all add: with_op_def allowed)

lemma with_file_keeps:
  "(\<And>f. file_at m this = Some f \<Longrightarrow> holds_after F I (k f)) \<Longrightarrow> holds_after F I (with_file this m k)"
  by (cases "file_at m this") (simp_all add: with_file_def)

lemma with_events_keeps: "(\<And>ev. holds_after F I (k ev)) \<Longrightarrow> holds_after F I (with_events ref m k)"
  by (cases "events_at m ref") (simp_all add: with_events_def)

lemma call_keeps:
  assumes "I m" and "\<not> registers c"
    and "\<And>r m1. I m1 \<Longrightarrow> (\<And>p. file_at m1 p = file_at m p) \<Longrightarrow> holds_after F I (k r m1)"
  shows "holds_after F I (case run_call E c m of (r, m1) \<Rightarrow> k r m1)"
proof -
  obtain r m1 where r: "run_call E c m = (r, m1)" by fastforce
  show ?thesis unfolding r prod.case
    by (rule assms(3)) (use run_call_keeps [OF r assms(1,2)] run_call_frame(3) [OF r] in simp_all)
qed

lemma out_keeps:
  assumes "I m" and "R (world m) (snd (g (world m)))" and "\<And>r x m1. I m1 \<Longrightarrow> holds_after F I (k r x m1)"
  shows "holds_after F I (case run_out g m of (r, x, m1) \<Rightarrow> k r x m1)"
proof -
  obtain r x m1 where r: "run_out g m = (r, x, m1)" by (metis prod_cases3)
  show ?thesis unfolding r prod.case by (rule assms(3)) (rule run_out_keeps [OF assms(1,2) r])
qed

lemma snd_call_keeps: "I m \<Longrightarrow> \<not> registers c \<Longrightarrow> I (snd (run_call E c m))"
  using run_call_keeps by (cases "run_call E c m") auto

lemmas kernel_quiet = so_error_quiet timer_read_quiet timer_gettime_quiet sockname_quiet recvfrom_quiet host_quiet

lemmas steps = holds_obind with_op_keeps with_file_keeps with_events_keeps call_keeps invoke_keeps
  slot_changed errno_keeps iovs_keeps

text \<open>Performing pending operations.\<close>

lemma attempts_keep:
  "ordinary_attempt E d opn m = Some (r, l, m1) \<Longrightarrow> I m \<Longrightarrow> I m1"
  "all_attempt E d opn m = Some (r, m1) \<Longrightarrow> I m \<Longrightarrow> I m1"
  by (auto simp: ordinary_attempt_def all_attempt_def Let_def intro: run_call_keeps
      split: Operations.splits prod.splits)

lemma ordinary_attempt_keeps:
  "I m \<Longrightarrow> (\<And>r l m1. I m1 \<Longrightarrow> holds_after F I (k r l m1)) \<Longrightarrow>
     holds_after F I (case ordinary_attempt E d opn m of None \<Rightarrow> Some (Fault Assertion_failed)
       | Some (r, l, m1) \<Rightarrow> k r l m1)"
  by (cases "ordinary_attempt E d opn m") (auto dest!: attempts_keep(1))

lemma all_attempt_keeps:
  "I m \<Longrightarrow> (\<And>r m1. I m1 \<Longrightarrow> holds_after F I (k r m1)) \<Longrightarrow>
     holds_after F I (case all_attempt E d opn m of None \<Rightarrow> Some (Fault Assertion_failed)
       | Some (r, m1) \<Rightarrow> k r m1)"
  by (cases "all_attempt E d opn m") (auto dest!: attempts_keep(2))

lemma ordinary_block_keeps: "I m \<Longrightarrow> holds_after F I (ordinary_block E this s isWrite hup opType m)"
proof (cases "ordinary_block E this s isWrite hup opType m")
  case (Some out)
  have "I m \<longrightarrow> holds_after F I (Some out)"
  proof (rule ordinary_block.raw_induct [where P = "\<lambda>E' this s isWrite hup opType m out.
      E' = E \<longrightarrow> I m \<longrightarrow> holds_after F I (Some out)", OF _ Some, THEN mp, OF _ refl], intro impI, goal_cases)
    case (1 f E' this s isWrite hup opType m out)
    have again: "holds_after F I (f E this s isWrite hup opType m)" if "I m"
      for this s isWrite hup opType m
      using 1(1) that by (cases "f E this s isWrite hup opType m") auto
    show ?case
      unfolding 1(2) [symmetric] 1(3) Let_def using 1(4)
      by (auto intro!: steps ordinary_attempt_keeps again)
  qed
  then show "I m \<Longrightarrow> ?thesis" using Some by simp
qed simp

lemma all_record_keeps:
  assumes "\<And>opn1 v1. operation opn1 = operation opn \<Longrightarrow> repeating opn1 = repeating opn \<Longrightarrow> holds_after F I (k opn1 v1)"
  shows "holds_after F I (case all_record opn r v of (opn1, v1) \<Rightarrow> k opn1 v1)"
proof -
  obtain opn1 v1 where r: "all_record opn r v = (opn1, v1)" by fastforce
  show ?thesis unfolding r prod.case by (rule assms [OF all_record_fields(3,2) [OF r]])
qed

lemma all_block_keeps: "I m \<Longrightarrow> holds_after F I (all_block E this s hup m)"
  unfolding all_block_def Let_def by (auto intro!: steps all_attempt_keeps all_record_keeps simp: slot_ok_def)

lemma File_close_keeps: "I m \<Longrightarrow> holds_after F I (File_close E this m)"
  unfolding File_close_def by (rule with_file_keeps) (auto intro: file_closed split: prod.split)

lemma other_block_keeps: "I m \<Longrightarrow> holds_after F I (other_block E this s m)"
  unfolding other_block_def
  by (rule with_op_keeps, assumption) (auto intro!: steps File_close_keeps split: Operations.split)

lemma all_or_other_keeps: "I m \<Longrightarrow> holds_after F I (all_or_other E this s hup m)"
  unfolding all_or_other_def by (auto intro!: with_op_keeps all_block_keeps other_block_keeps)

lemma doOperation_keeps: "I m \<Longrightarrow> holds_after F I (File_doOperation E this s isWrite hup m)"
  unfolding File_doOperation_def Let_def
  by (auto intro!: steps ordinary_block_keeps all_or_other_keeps split: option.split)

lemma handleHup_keeps: "I m \<Longrightarrow> holds_after F I (File_handleHup E this s isWrite m)"
  unfolding File_handleHup_def hup_all_part_def Let_def by (auto intro!: steps)

lemma dispatch_keeps:
  assumes "\<And>s w h m. I m \<Longrightarrow> holds_after F I (doOp s w h m)" and "\<And>s w m. I m \<Longrightarrow> holds_after F I (hh s w m)" and "I m"
  shows "holds_after F I (dispatch_slots doOp hh ref m)"
  unfolding dispatch_slots_def using assms by (auto intro!: steps)

lemma File_dispatch_keeps: "I m \<Longrightarrow> holds_after F I (File_dispatch E this ref m)"
  unfolding File_dispatch_def by (rule dispatch_keeps) (simp_all add: doOperation_keeps handleHup_keeps)

text \<open>The entry points of \<open>File\<close>.\<close>

lemma tryOperation_repeat_keeps:
  "I m \<Longrightarrow> (\<And>m. \<not> registers (call m)) \<Longrightarrow> holds_after F I (tryOperation_repeat E c call m)"
proof (cases "tryOperation_repeat E c call m")
  case (Some out)
  have "I m \<longrightarrow> (\<forall>m. \<not> registers (call m)) \<longrightarrow> holds_after F I (Some out)"
  proof (rule tryOperation_repeat.raw_induct [where P = "\<lambda>E' c call m out.
      E' = E \<longrightarrow> I m \<longrightarrow> (\<forall>m. \<not> registers (call m)) \<longrightarrow> holds_after F I (Some out)", OF _ Some, THEN mp, OF _ refl], intro impI, goal_cases)
    case (1 f E' c call m out)
    have again: "holds_after F I (f E c call m)" if "I m" "\<forall>m. \<not> registers (call m)" for c call m
      using 1(1) that by (cases "f E c call m") auto
    show ?case unfolding 1(2) [symmetric] 1(3) using 1(4,5) by (auto intro!: steps again)
  qed
  then show "I m \<Longrightarrow> (\<And>m. \<not> registers (call m)) \<Longrightarrow> ?thesis" using Some by simp
qed simp

lemma tryOperation_keeps:
  "I m \<Longrightarrow> (\<And>m. \<not> registers (call m)) \<Longrightarrow> holds_after F I (File_tryOperation E c rep call m)"
  unfolding File_tryOperation_def by (auto intro!: steps tryOperation_repeat_keeps)

lemma tryOperation2_loop_keeps:
  "I m \<Longrightarrow> (\<And>b n. \<not> registers (call b n)) \<Longrightarrow> holds_after F I (tryOperation2_loop E c call buf len br m)"
proof (cases "tryOperation2_loop E c call buf len br m")
  case (Some out)
  have "I m \<longrightarrow> (\<forall>b n. \<not> registers (call b n)) \<longrightarrow> holds_after F I (Some out)"
  proof (rule tryOperation2_loop.raw_induct [where P = "\<lambda>E' c call buf len br m out.
      E' = E \<longrightarrow> I m \<longrightarrow> (\<forall>b n. \<not> registers (call b n)) \<longrightarrow> holds_after F I (Some out)", OF _ Some, THEN mp, OF _ refl], intro impI, goal_cases)
    case (1 f E' c call buf len br m out)
    have again: "holds_after F I (f E c call buf len br m)" if "I m" "\<forall>b n. \<not> registers (call b n)" for c call buf len br m
      using 1(1) that by (cases "f E c call buf len br m") auto
    show ?case unfolding 1(2) [symmetric] 1(3) using 1(4,5) by (auto intro!: steps again)
  qed
  then show "I m \<Longrightarrow> (\<And>b n. \<not> registers (call b n)) \<Longrightarrow> ?thesis" using Some by simp
qed simp

lemma tryOperation2_keeps:
  "I m \<Longrightarrow> (\<And>b n. \<not> registers (call b n)) \<Longrightarrow> holds_after F I (File_tryOperation2 E c call buf len m)"
  unfolding File_tryOperation2_def by (simp add: tryOperation2_loop_keeps)

lemma when_free_keeps:
  "I m \<Longrightarrow> (\<And>opn. operation opn = Op_none \<Longrightarrow> holds_after F I (k opn)) \<Longrightarrow> holds_after F I (when_free this s m k)"
  unfolding when_free_def by (auto intro!: steps)

lemma addRWOp_keeps: "I m \<Longrightarrow> slot_allows s opType \<Longrightarrow> (rep \<longrightarrow> may_repeat opType) \<Longrightarrow>
     holds_after F I (addRWOp this s opType c buf len k fl rep m)"
  unfolding addRWOp_def by (auto intro!: steps simp: slot_ok_def)

lemma try_then_add_keeps:
  "I m \<Longrightarrow> slot_allows s opType \<Longrightarrow> (rep \<longrightarrow> may_repeat opType) \<Longrightarrow> (\<And>d. \<not> registers (call d)) \<Longrightarrow>
     holds_after F I (try_then_add E this s opType call buf len fl c rep m)"
  unfolding try_then_add_def by (auto intro!: steps when_free_keeps tryOperation_keeps addRWOp_keeps)

lemma try2_then_add_keeps:
  "I m \<Longrightarrow> slot_allows s opType \<Longrightarrow> (\<And>d b n. \<not> registers (call d b n)) \<Longrightarrow>
     holds_after F I (try2_then_add E this s opType call buf len c m)"
  unfolding try2_then_add_def by (auto intro!: steps when_free_keeps tryOperation2_keeps addRWOp_keeps)

lemma try2_then_set_keeps:
  "I m \<Longrightarrow> slot_allows s opType \<Longrightarrow> (\<And>d b n. \<not> registers (call d b n)) \<Longrightarrow>
     holds_after F I (try2_then_set E this s opType call buf len c m)"
  unfolding try2_then_set_def by (auto intro!: steps when_free_keeps tryOperation2_keeps simp: slot_ok_def)

lemma File_entry_keeps:
  assumes "I m"
  shows "holds_after F I (File_read E this buf len c rep m)" and "holds_after F I (File_write E this buf len c rep m)"
    and "holds_after F I (File_recv E this buf len fl c rep m)" and "holds_after F I (File_send E this buf len fl c rep m)"
    and "holds_after F I (File_readAll E this buf len c m)" and "holds_after F I (File_writeAll E this buf len c m)"
    and "holds_after F I (File_recvAll E this buf len fl c m)" and "holds_after F I (File_sendAll E this buf len fl c m)"
    and "holds_after F I (File_waitReadable this c m)" and "holds_after F I (File_waitWritable this c m)"
    and "holds_after F I (File_cancelRead this m)" and "holds_after F I (File_cancelWrite this m)"
  unfolding File_read_def File_write_def File_recv_def File_send_def File_readAll_def File_writeAll_def
    File_recvAll_def File_sendAll_def File_waitReadable_def File_waitWritable_def File_cancelRead_def
    File_cancelWrite_def
  using assms
  by (auto intro!: try_then_add_keeps try2_then_add_keeps try2_then_set_keeps when_free_keeps addRWOp_keeps steps)

lemma File_vector_keeps:
  assumes "I m"
  shows "holds_after F I (File_readv E this iov n c rep m)" and "holds_after F I (File_writev E this iov n c rep m)"
    and "holds_after F I (File_readvAll E this iov n c m)" and "holds_after F I (File_writevAll E this iov n c m)"
  unfolding File_readv_def File_writev_def File_readvAll_def File_writevAll_def Let_def vAll_op_def
  using assms by (auto intro!: steps when_free_keeps tryOperation_keeps doOperation_keeps simp: slot_ok_def)

lemma sendFileFrom_call_keeps: "I m \<Longrightarrow> holds_after F I (sendFileFrom_call E this src off len m)"
  unfolding sendFileFrom_call_def by (auto intro!: steps)

lemma sendFileFrom_repeat_keeps: "I m \<Longrightarrow> holds_after F I (sendFileFrom_repeat E this src off len c m)"
proof (cases "sendFileFrom_repeat E this src off len c m")
  case (Some out)
  have "I m \<longrightarrow> holds_after F I (Some out)"
  proof (rule sendFileFrom_repeat.raw_induct [where P = "\<lambda>E' this src off len c m out.
      E' = E \<longrightarrow> I m \<longrightarrow> holds_after F I (Some out)", OF _ Some, THEN mp, OF _ refl], intro impI, goal_cases)
    case (1 f E' this src off len c m out)
    have again: "holds_after F I (f E this src off len c m)" if "I m" for this src off len c m
      using 1(1) that by (cases "f E this src off len c m") auto
    show ?case unfolding 1(2) [symmetric] 1(3) using 1(4)
      by (auto intro!: steps sendFileFrom_call_keeps again)
  qed
  then show "I m \<Longrightarrow> ?thesis" using Some by simp
qed simp

lemma File_others_keep:
  assumes "I m"
  shows "holds_after F I (File_sendFileFrom E this src off len c rep m)" and "holds_after F I (File_close_async E this c m)"
  unfolding File_sendFileFrom_def File_close_async_def
  using assms
  by (auto intro!: steps when_free_keeps sendFileFrom_call_keeps sendFileFrom_repeat_keeps File_close_keeps simp: slot_ok_def)

text \<open>\<open>Socket\<close>.\<close>

lemma accept_loop_keeps: "I m \<Longrightarrow> holds_after F I (accept_loop E this s m)"
proof (cases "accept_loop E this s m")
  case (Some out)
  have "I m \<longrightarrow> holds_after F I (Some out)"
  proof (rule accept_loop.raw_induct [where P = "\<lambda>E' this s m out.
      E' = E \<longrightarrow> I m \<longrightarrow> holds_after F I (Some out)", OF _ Some, THEN mp, OF _ refl], intro impI, goal_cases)
    case (1 f E' this s m out)
    have again: "holds_after F I (f E this s m)" if "I m" for this s m
      using 1(1) that by (cases "f E this s m") auto
    show ?case unfolding 1(2) [symmetric] 1(3) Socket_accept_def using 1(4)
      by (auto intro!: steps again)
  qed
  then show "I m \<Longrightarrow> ?thesis" using Some by simp
qed simp

lemma finish_connect_keeps: "I m \<Longrightarrow> holds_after F I (finish_connect E this s m)"
  unfolding finish_connect_def Let_def by (auto intro!: steps out_keeps kernel_quiet)

lemma Socket_doOperation_keeps: "I m \<Longrightarrow> holds_after F I (Socket_doOperation E this s w h m)"
  unfolding Socket_doOperation_def Socket_accept_def
  by (rule with_op_keeps, assumption)
    (auto intro!: steps accept_loop_keeps finish_connect_keeps doOperation_keeps split: Operations.split)

lemma Socket_handleHup_keeps: "I m \<Longrightarrow> holds_after F I (Socket_handleHup E this s w m)"
  unfolding Socket_handleHup_def
  by (rule with_op_keeps, assumption) (auto intro!: steps finish_connect_keeps handleHup_keeps split: Operations.split)

lemma Socket_dispatch_keeps: "I m \<Longrightarrow> holds_after F I (Socket_dispatch E this ref m)"
  unfolding Socket_dispatch_def
  by (rule dispatch_keeps) (simp_all add: Socket_doOperation_keeps Socket_handleHup_keeps)

lemma setBlocking_keeps:
  assumes "I m"
  shows "I (FD_setBlocking E d b m)"
proof -
  obtain x m1 where x: "run_call E (Sys_fcntl_getfl d) m = (x, m1)" by fastforce
  have "I m1" using run_call_keeps [OF x assms] by simp
  then show ?thesis by (simp add: FD_setBlocking_def x Let_def snd_call_keeps)
qed

lemma File_init_keeps: "I m \<Longrightarrow> holds_after F I (File_init E this d m)"
  unfolding File_init_def by (auto intro!: steps setBlocking_keeps file_opened)

lemma Socket_init_keeps: "I m \<Longrightarrow> holds_after F I (Socket_init E this d t p m)"
  unfolding Socket_init_def by (auto intro!: steps File_init_keeps)

lemma init_if_not_already_keeps: "I m \<Longrightarrow> holds_after F I (socket_init_if_not_already E this af m)"
  unfolding socket_init_if_not_already_def by (auto intro!: steps Socket_init_keeps)

lemma set_connect_keeps: "I m \<Longrightarrow> holds_after F I (set_connect this c m)"
  unfolding set_connect_def by (auto intro!: steps simp: slot_ok_def)

lemma Socket_connect_keeps: "I m \<Longrightarrow> holds_after F I (Socket_connect E this a n c m)"
  unfolding Socket_connect_def Socket_connect_sync_def
  by (auto intro!: steps init_if_not_already_keeps when_free_keeps set_connect_keeps)

lemma Socket_accept_keeps: "I m \<Longrightarrow> holds_after F I (Socket_accept_async E this c rep m)"
  unfolding Socket_accept_async_def by (auto intro!: steps tryOperation_keeps simp: slot_ok_def)

lemma connect_hosts_keeps: "I m \<Longrightarrow> holds_after F I (connect_hosts E this c st pr hosts m)"
proof (induction hosts arbitrary: m)
  case (Cons h hosts)
  show ?case
  proof (cases h)
    case (Some ep)
    show ?thesis unfolding Some connect_hosts.simps
      by (auto intro!: steps Cons snd_call_keeps File_init_keeps set_connect_keeps)
  qed simp
qed simp

lemma lookup_keeps:
  assumes "I m" and "\<And>hosts m1. I m1 \<Longrightarrow> holds_after F I (k hosts m1)"
  shows "holds_after F I (obind (lookup_hosts E h port fam st pr m) k)"
proof -
  obtain ans w where a: "host_answer E h port fam st pr (world m) = (ans, w)" by fastforce
  have "I (m\<lparr>world := w\<rparr>)" using quiet [OF assms(1), of w] host_quiet [of "world m" h port fam st pr] a by simp
  then show ?thesis unfolding lookup_hosts_def a prod.case
    by (auto intro!: holds_obind assms(2) split: option.split sum.split)
qed

lemma Socket_connect_host_keeps: "I m \<Longrightarrow> holds_after F I (Socket_connect_host E this h port c fam st pr m)"
  unfolding Socket_connect_host_def
  by (auto intro!: with_file_keeps lookup_keeps when_free_keeps connect_hosts_keeps)

text \<open>The event loop, over every class and over nested \<open>EPoll\<close> objects.\<close>

lemma Timer_dispatch_keeps: "I m \<Longrightarrow> holds_after F I (Timer_dispatch E this ref m)"
  unfolding Timer_dispatch_def with_timer_def
  by (auto intro!: steps out_keeps kernel_quiet split: option.split)

lemma with_epoll_keeps:
  "I m \<Longrightarrow> (\<And>e. epoll_at m this = Some e \<Longrightarrow> holds_after F I (k e)) \<Longrightarrow> holds_after F I (with_epoll this m k)"
  by (cases "epoll_at m this") (simp_all add: with_epoll_def)

lemma checkError_keeps:
  "I m \<Longrightarrow> holds_after F I (k r m) \<Longrightarrow> holds_after F I (obind (checkError E r m) k)"
  using checkError_cases [of E r m] by auto

lemma EPoll_wait_keeps:
  assumes "I m"
  shows "holds_after F I (EPoll_wait E this t m)"
  unfolding EPoll_wait_def
proof (rule with_epoll_keeps [OF assms])
  fix e
  assume e: "epoll_at m this = Some e"
  obtain r evs m1 where out: "run_out (sys_epoll_wait E (epoll_fd e) (int EVENTSPERCYCLE) t) m = (r, evs, m1)"
    by (metis prod_cases3)
  let ?e = "e\<lparr>currCycleNotifications := store_events evs (currCycleNotifications e)\<rparr>"
  have twice: "put_epoll this b (put_epoll this a x) = put_epoll this b x" for a b and x :: "('w, 'cb) machine"
    by (simp add: put_epoll_def)
  from received [OF assms e out refl] have "r < 0 \<longrightarrow> I (put_epoll this ?e m1)"
    and "r \<le> int EVENTSPERCYCLE \<longrightarrow> I (put_epoll this (?e\<lparr>currCycleNotificationsCount := r\<rparr>) m1)" by blast+
  then show "holds_after F I (case run_out (sys_epoll_wait E (epoll_fd e) (int EVENTSPERCYCLE) t) m of
      (r, evs, m1) \<Rightarrow> let e1 = e\<lparr>currCycleNotifications := store_events evs (currCycleNotifications e)\<rparr>
        in obind (checkError E r (put_epoll this e1 m1)) (\<lambda>n m2.
          if n \<le> int EVENTSPERCYCLE then ret () (put_epoll this (e1\<lparr>currCycleNotificationsCount := n\<rparr>) m2)
          else Some (Fault Assertion_failed)))"
    unfolding out prod.case Let_def using twice by (cases "r < 0") (auto simp: checkError_def throwUNIXException_def)
qed

lemma EPoll_cycle_keeps: "I m \<Longrightarrow> holds_after F I (EPoll_cycle E c m)"
proof (cases "EPoll_cycle E c m")
  case (Some out)
  have "I m \<longrightarrow> holds_after F I (Some out)"
  proof (rule EPoll_cycle.raw_induct [where P = "\<lambda>E' c m out.
      E' = E \<longrightarrow> I m \<longrightarrow> holds_after F I (Some out)", OF _ Some, THEN mp, OF _ refl], intro impI, goal_cases)
    case (1 f E' c m out)
    have again: "holds_after F I (f E c m)" if "I m" for c m
      using 1(1) that by (cases "f E c m") auto
    show ?case
    proof (cases c)
      case (Start this t)
      show ?thesis unfolding 1(2) [symmetric] 1(3) Start cycle.case using 1(4)
        by (intro holds_obind EPoll_wait_keeps again)
    next
      case (Next this i)
      show ?thesis unfolding 1(2) [symmetric] 1(3) Next cycle.case
      proof (rule with_epoll_keeps [OF 1(4)])
        fix e
        assume e: "epoll_at m this = Some e"
        let ?p = "ev_ptr (currCycleNotifications e ! i)"
        have "i < length (currCycleNotifications e)" if "int i < currCycleNotificationsCount e"
          using in_bounds [OF 1(4) e that] .
        moreover have "Stale_notification \<notin> F"
          if "int i < currCycleNotificationsCount e" "?p \<noteq> 0" "heap m ?p = None"
          using live [OF _ 1(4) e that(1,2)] that(3) by blast
        ultimately show "holds_after F I (if int i < currCycleNotificationsCount e then
            (if i < length (currCycleNotifications e) then
              (let p = ?p; ref = Notification this i in
                if p \<noteq> 0 then obind (case heap m p of
                    Some (File_object f) \<Rightarrow> File_dispatch E p ref m
                  | Some (Socket_object f) \<Rightarrow> Socket_dispatch E p ref m
                  | Some (Timer_object t) \<Rightarrow> Timer_dispatch E p ref m
                  | Some (EPoll_object e') \<Rightarrow> f E (Start p 0) m
                  | None \<Rightarrow> Some (Fault Stale_notification))
                  (\<lambda>_ m1. f E (Next this (Suc i)) m1)
                else f E (Next this (Suc i)) m)
            else Some (Fault Out_of_bounds))
          else ret () (put_epoll this (e\<lparr>currCycleNotificationsCount := 0\<rparr>) m))"
          using 1(4) counted [OF 1(4) e] unfolding Let_def
          by (auto intro!: holds_obind again File_dispatch_keeps Socket_dispatch_keeps Timer_dispatch_keeps
              split: option.split fd_object.split)
      qed
    qed
  qed
  then show "I m \<Longrightarrow> ?thesis" using Some by simp
qed simp

lemma EPoll_loop_keeps: "I m \<Longrightarrow> holds_after F I (EPoll_loop E this m)"
proof (cases "EPoll_loop E this m")
  case (Some out)
  have "I m \<longrightarrow> holds_after F I (Some out)"
  proof (rule EPoll_loop.raw_induct [where P = "\<lambda>E' this m out.
      E' = E \<longrightarrow> I m \<longrightarrow> holds_after F I (Some out)", OF _ Some, THEN mp, OF _ refl], intro impI, goal_cases)
    case (1 f E' this m out)
    have again: "holds_after F I (f E this m)" if "I m" for this m
      using 1(1) that by (cases "f E this m") auto
    show ?case unfolding 1(2) [symmetric] 1(3) EPoll_run_def using 1(4)
      by (auto intro!: steps EPoll_cycle_keeps again)
  qed
  then show "I m \<Longrightarrow> ?thesis" using Some by simp
qed simp

lemma disableSignals_keeps: "I m \<Longrightarrow> I (disableSignals E m)"
  by (simp add: disableSignals_def snd_call_keeps)

lemma EPoll_operations_keep:
  assumes "I m"
  shows "holds_after F I (EPoll_add E this p m)" and "holds_after F I (EPoll_remove E this p m)"
    and "holds_after F I (EPoll_run E this t m)"
proof -
  show "holds_after F I (EPoll_add E this p m)"
    unfolding EPoll_add_def
  proof (rule with_epoll_keeps [OF assms])
    fix e
    assume e: "epoll_at m this = Some e"
    have add: "I (snd (run_call E (Sys_epoll_add (epoll_fd e) d ev p) m))" if "fd_of m p = Some d" for d ev
      using registered [OF assms e that] by (cases "run_call E (Sys_epoll_add (epoll_fd e) d ev p) m") simp
    show "holds_after F I (case fd_of m p of None \<Rightarrow> Some (Fault Bad_pointer)
        | Some d \<Rightarrow> case run_call E (Sys_epoll_add (epoll_fd e) d (EPOLLIN OR EPOLLOUT OR EPOLLET) p) m of
            (r, m1) \<Rightarrow> obind (checkError E r m1) (\<lambda>_ m2. ret () m2))"
      using add by (cases "fd_of m p") (auto intro!: checkError_keeps simp: prod.case_eq_if)
  qed
  show "holds_after F I (EPoll_remove E this p m)"
    unfolding EPoll_remove_def Let_def using assms
    by (auto intro!: with_epoll_keeps call_keeps checkError_keeps cancelled split: option.split)
  show "holds_after F I (EPoll_run E this t m)"
    unfolding EPoll_run_def using assms by (rule EPoll_cycle_keeps)
qed

text \<open>Construction where there is room.\<close>

lemma checkError_named_keeps:
  "I m \<Longrightarrow> holds_after F I (k r m) \<Longrightarrow> holds_after F I (obind (checkError_named E r n m) k)"
  by (simp add: checkError_named_def throwUNIXException_named_def)

lemma made_new:
  assumes "I m" and "room m p"
  shows "I (m\<lparr>heap := (heap m)(p \<mapsto> File_object (new_File g\<lparr>fd := d\<rparr>))\<rparr>)"
    and "I (m\<lparr>heap := (heap m)(p \<mapsto> Socket_object (new_File g\<lparr>fd := d\<rparr>))\<rparr>)"
    and "I (m\<lparr>heap := (heap m)(p \<mapsto> Socket_object (new_File g))\<rparr>)"
    and "I (put_timer p t m)"
    and "I (put_epoll p \<lparr>epoll_fd = d, currCycleNotifications = replicate EVENTSPERCYCLE x,
        currCycleNotificationsCount = 0\<rparr> m)"
  by (simp_all add: made [OF assms] new_File_def put_timer_def put_epoll_def)

lemma constructors_keep:
  assumes "I m" and "room m this"
  shows "I (File_construct_fd E this d m)" and "I (Socket_construct E this m)" and "I (Socket_construct_fd E this d m)"
    and "holds_after F I (Socket_construct_new E this d t pr m)"
  using made_new [OF assms]
  by (auto simp: File_construct_fd_def Socket_construct_def Socket_construct_fd_def Socket_construct_new_def
      intro!: setBlocking_keeps Socket_init_keeps)

lemma room_call:
  assumes "I m" and "room m this" and "\<not> registers c"
    and "\<And>r m1. I m1 \<Longrightarrow> room m1 this \<Longrightarrow> holds_after F I (k r m1)"
  shows "holds_after F I (case run_call E c m of (r, m1) \<Rightarrow> k r m1)"
proof -
  obtain r m1 where r: "run_call E c m = (r, m1)" by fastforce
  show ?thesis unfolding r prod.case
    by (rule assms(4)) (use run_call_keeps [OF r assms(1,3)] room_heap [OF run_call_frame(1) [OF r] assms(2)] in simp_all)
qed

lemma opening_keeps:
  assumes "I m" and "room m this"
  shows "holds_after F I (File_construct_open E this name flags perms m)" and "holds_after F I (EPoll_construct E this m)"
  unfolding File_construct_open_def EPoll_construct_def using assms
  by (auto intro!: room_call checkError_named_keeps checkError_keeps disableSignals_keeps made_new)

text \<open>Deletion of what is idle: the destructor closes the descriptor.\<close>

lemma fd_of_objects:
  "file_at m p = Some f \<Longrightarrow> fd_of m p = Some (fd f)"
  "timer_at m p = Some t \<Longrightarrow> fd_of m p = Some (timer_fd t)"
  "epoll_at m p = Some e \<Longrightarrow> fd_of m p = Some (epoll_fd e)"
  by (auto simp: fd_of_def file_at_def timer_at_def epoll_at_def split: option.splits fd_object.splits)

lemma free_put:
  "free_object p (put_file p f m) = free_object p m" "free_object p (put_timer p t m) = free_object p m"
  by (auto simp: free_object_def put_file_def put_timer_def split: option.splits fd_object.splits)

lemma with_timer_keeps:
  "(\<And>t. timer_at m this = Some t \<Longrightarrow> holds_after F I (k t)) \<Longrightarrow> holds_after F I (with_timer this m k)"
  by (cases "timer_at m this") (simp_all add: with_timer_def)

lemma destructors_keep:
  assumes "I m" and "idle m this"
  shows "holds_after F I (File_destroy E this m)" and "holds_after F I (Timer_destroy E this m)"
    and "holds_after F I (EPoll_destroy E this m)"
proof -
  have closing: "I (free_object this (snd (run_call E (Sys_close d) m)))" if "fd_of m this = Some d" for d
    using deleted [OF assms that] by (cases "run_call E (Sys_close d) m") simp
  show "holds_after F I (File_destroy E this m)"
  proof (cases "file_at m this")
    case (Some f)
    then show ?thesis
      using closing [OF fd_of_objects(1)] deleted_closed [OF assms fd_of_objects(1) [OF Some]]
      by (auto simp: File_destroy_def File_close_def with_file_def free_put prod.case_eq_if)
  qed (simp add: File_destroy_def with_file_def)
  show "holds_after F I (Timer_destroy E this m)"
  proof (cases "timer_at m this")
    case (Some t)
    then show ?thesis
      using closing [OF fd_of_objects(2)] deleted_closed [OF assms fd_of_objects(2) [OF Some]]
      by (auto simp: Timer_destroy_def Timer_close_def with_timer_def free_put prod.case_eq_if)
  qed (simp add: Timer_destroy_def with_timer_def)
  show "holds_after F I (EPoll_destroy E this m)"
    unfolding EPoll_destroy_def using closing [OF fd_of_objects(3)] assms(1) by (auto intro!: with_epoll_keeps)
qed

text \<open>Timers.\<close>

lemma timer_keeps:
  "I m \<Longrightarrow> timer_at m this = Some t \<Longrightarrow> timer_fd t = -1 \<or> timer_fd t' = timer_fd t \<Longrightarrow>
     \<not> registers c \<Longrightarrow> I (snd (run_call E c (put_timer this t' m)))"
  by (intro snd_call_keeps timer_changed)

lemma timer_shut:
  assumes "I m" and "timer_at m this = Some t"
  shows "I (put_timer this (t\<lparr>timer_fd := -1\<rparr>) (snd (run_call E (Sys_close (timer_fd t)) m)))"
  using timer_closed [OF assms] by (cases "run_call E (Sys_close (timer_fd t)) m") simp

lemma Timer_parts_keep:
  assumes "I m"
  shows "holds_after F I (Timer_setInterval E this iv m)" and "holds_after F I (Timer_setInterval_ms E this ms m)"
    and "holds_after F I (Timer_FD_init E this d m)" and "holds_after F I (Timer_close E this m)"
    and "holds_after F I (Timer_setCallback this c m)"
  unfolding Timer_setInterval_def Timer_setInterval_ms_def Timer_doSetInterval_def Timer_doSetInterval_ms_def
    Timer_FD_init_def Timer_close_def Timer_setCallback_def Let_def
  using assms timer_shut [OF assms]
  by (auto intro!: with_timer_keeps setBlocking_keeps timer_keeps timer_changed simp: prod.case_eq_if)

lemma Timer_init_keep:
  assumes "I m"
  shows "holds_after F I (Timer_init E this iv m)" and "holds_after F I (Timer_init_ms E this ms m)"
    and "holds_after F I (Timer_init_handle E this d m)"
  unfolding Timer_init_def Timer_init_ms_def Timer_init_handle_def
  using assms by (auto intro!: steps with_timer_keeps timer_changed Timer_parts_keep out_keeps kernel_quiet)

lemma Timer_construct_keep:
  assumes "I m" and "room m this"
  shows "holds_after F I (Timer_construct E this g iv m)" and "holds_after F I (Timer_construct_ms E this g ms m)"
    and "holds_after F I (Timer_construct_handle E this g d m)"
  unfolding Timer_construct_def Timer_construct_ms_def Timer_construct_handle_def
  using made_new [OF assms] by (auto intro!: Timer_init_keep)

lemma bind_hosts_keeps: "I m \<Longrightarrow> holds_after F I (bind_hosts E this st pr reuse hosts m)"
proof (induction hosts arbitrary: m)
  case (Cons h hosts)
  show ?case
  proof (cases h)
    case (Some ep)
    show ?thesis unfolding Some bind_hosts.simps
      using Cons by (cases reuse) (auto intro!: steps File_init_keeps simp: snd_call_keeps)
  qed simp
qed simp

lemma connect_hosts_sync_keeps: "I m \<Longrightarrow> holds_after F I (connect_hosts_sync E this st pr hosts m)"
proof (induction hosts arbitrary: m)
  case (Cons h hosts)
  show ?case
  proof (cases h)
    case (Some ep)
    show ?thesis unfolding Some connect_hosts_sync.simps
      by (auto intro!: steps Cons snd_call_keeps File_init_keeps)
  qed simp
qed simp

lemma Socket_others_keep:
  assumes "I m"
  shows "holds_after F I (Socket_bind E this a n m)" and "holds_after F I (Socket_listen E this backlog m)"
    and "holds_after F I (Socket_bind_host E this h port fam st pr reuse m)"
    and "holds_after F I (Socket_connect_sync E this a n m)"
    and "holds_after F I (Socket_connect_host_sync E this h port fam st pr m)"
  unfolding Socket_bind_def Socket_listen_def Socket_bind_host_def Socket_connect_sync_def Socket_connect_host_sync_def
  using assms
  by (auto intro!: steps Socket_init_keeps init_if_not_already_keeps checkError_keeps lookup_keeps
      bind_hosts_keeps connect_hosts_sync_keeps)

lemma Socket_ep_keep:
  assumes "I m"
  shows "holds_after F I (Socket_bind_ep E this ep m)" and "holds_after F I (Socket_connect_ep E this ep c m)"
    and "holds_after F I (Socket_connect_sync_ep E this ep m)" and "holds_after F I (Socket_shutdown E this how m)"
    and "holds_after F I (Socket_recvFrom E this b n fl ep m)" and "holds_after F I (Socket_sendTo E this b n fl ep m)"
    and "holds_after F I (Socket_getEndPoint E peer this m)"
  unfolding Socket_bind_ep_def Socket_connect_ep_def Socket_connect_sync_ep_def Socket_shutdown_def
    Socket_recvFrom_def Socket_sendTo_def Socket_getEndPoint_def
  using assms
  by (auto intro!: steps out_keeps kernel_quiet init_if_not_already_keeps Socket_others_keep Socket_connect_keeps
      split: option.split sum.split)

lemma sync_call_keeps: "I m \<Longrightarrow> (\<And>d m. \<not> registers (call d m)) \<Longrightarrow> holds_after F I (sync_call E this call m)"
  unfolding sync_call_def by (auto intro!: steps)

end

end
