(* ===== verification/CPoll_Slots.thy ===== *)
theory CPoll_Slots
  imports CPoll_Invariant
begin

text \<open>
  Objects in order: the reading slot of an object only ever holds reading operations, the writing slot
  writing operations, the enumerators that no code implements are never pending, operations on all of
  a buffer never repeat, and an \<open>EPoll\<close> never counts more notifications than its array holds. The
  whole library keeps that.
\<close>

section \<open>Objects\<close>

fun object_ok :: "'cb fd_object \<Rightarrow> bool" where
  "object_ok (File_object f) \<longleftrightarrow> (\<forall>s. slot_ok s (pendingOps f s))"
| "object_ok (Socket_object f) \<longleftrightarrow> (\<forall>s. slot_ok s (pendingOps f s))"
| "object_ok (Timer_object t) \<longleftrightarrow> True"
| "object_ok (EPoll_object e) \<longleftrightarrow> epoll_ok e"

lemma new_object_ok: "new_object x \<Longrightarrow> object_ok x"
  by (cases x) (auto simp: epoll_ok_def)

definition well_formed :: "('w, 'cb) machine \<Rightarrow> bool" where
  "well_formed m \<longleftrightarrow> (\<forall>p x. heap m p = Some x \<longrightarrow> object_ok x)"

lemma well_formed_heap: "heap m1 = heap m \<Longrightarrow> well_formed m1 = well_formed m"
  by (simp add: well_formed_def)

lemma well_formed_file: "well_formed m \<Longrightarrow> file_at m p = Some f \<Longrightarrow> slot_ok s (pendingOps f s)"
  by (fastforce simp: well_formed_def file_at_def split: option.splits fd_object.splits)

lemma well_formed_slot: "well_formed m \<Longrightarrow> op_at m p s = Some opn \<Longrightarrow> slot_ok s opn"
  using well_formed_file by (auto simp: op_at_def)

lemma well_formed_epoll: "well_formed m \<Longrightarrow> epoll_at m p = Some e \<Longrightarrow> epoll_ok e"
  by (fastforce simp: well_formed_def epoll_at_def split: option.splits fd_object.splits)

lemma well_formed_update: "well_formed m \<Longrightarrow> object_ok x \<Longrightarrow> well_formed (m\<lparr>heap := (heap m)(p \<mapsto> x)\<rparr>)"
  by (simp add: well_formed_def)

lemma well_formed_put:
  assumes "well_formed m"
  shows "(\<And>s. slot_ok s (pendingOps f s)) \<Longrightarrow> well_formed (put_file p f m)"
    and "well_formed (put_timer p t m)" and "epoll_ok e \<Longrightarrow> well_formed (put_epoll p e m)"
    and "well_formed (free_object p m)"
  using well_formed_update [OF assms] assms
  by (auto simp: put_file_def put_timer_def put_epoll_def well_formed_def split: option.split fd_object.split)

lemma well_formed_put_op: "well_formed m \<Longrightarrow> slot_ok s x \<Longrightarrow> well_formed (put_op p s x m)"
  using well_formed_file by (auto simp: put_op_def intro!: well_formed_put split: option.split)

lemma well_formed_fd:
  "well_formed m \<Longrightarrow> file_at m p = Some f \<Longrightarrow> heap m1 = heap m \<Longrightarrow> well_formed (put_file p (f\<lparr>fd := d\<rparr>) m1)"
  using well_formed_file [of m p f] well_formed_heap [of m1 m] by (auto intro!: well_formed_put)

lemma epoll_ok_received:
  "epoll_ok e \<Longrightarrow> epoll_ok (e\<lparr>currCycleNotifications := store_events evs (currCycleNotifications e)\<rparr>)"
  by (simp add: epoll_ok_def length_store_events)

lemma epoll_ok_changes:
  "epoll_ok e \<Longrightarrow> n \<le> int EVENTSPERCYCLE \<Longrightarrow> epoll_ok (e\<lparr>currCycleNotificationsCount := n\<rparr>)"
  "epoll_ok e \<Longrightarrow> epoll_ok (e\<lparr>currCycleNotifications := cancel_events q k (currCycleNotifications e)\<rparr>)"
  by (simp_all add: epoll_ok_def)

lemma epoll_ok_bounds:
  "epoll_ok e \<Longrightarrow> int i < currCycleNotificationsCount e \<Longrightarrow> i < length (currCycleNotifications e)"
  by (simp add: epoll_ok_def)

section \<open>The library keeps them in order\<close>

text \<open>User code is expected to keep that, too; CPoll_Reach shows it of all code that uses the interface.\<close>

definition well_formed_user :: "('w, 'cb) env \<Rightarrow> bool" where
  "well_formed_user E \<longleftrightarrow> (\<forall>k r m. well_formed m \<longrightarrow> holds_after {Out_of_bounds} well_formed (usr E k r m))"

lemma holds_after_conj: "b \<Longrightarrow> holds_after F (\<lambda>m. b \<and> P m) x \<longleftrightarrow> holds_after F P x"
  by simp

interpretation kept: library_invariant E "\<lambda>w w'. True" "\<lambda>m. well_formed_user E \<and> well_formed m"
    "{Out_of_bounds}" "\<lambda>m p. True" "\<lambda>m p. True"
  for E :: "('w, 'cb) env"
proof (unfold_locales, goal_cases)
  case (7 k r m)
  then show ?case by (simp add: well_formed_user_def holds_after_conj)
next
  case (8 m w)
  then show ?case using well_formed_heap [of "m\<lparr>world := w\<rparr>" m] by simp
next
  case (9 m e)
  then show ?case using well_formed_heap [of "m\<lparr>errno := e\<rparr>" m] by simp
next
  case (10 m v)
  then show ?case using well_formed_heap [of "m\<lparr>iovs := v\<rparr>" m] by simp
next
  case (11 m p s opn)
  then show ?case using well_formed_slot by blast
next
  case (13 m p f d)
  then show ?case using well_formed_fd by blast
next
  case (14 m p f r m1)
  then show ?case using well_formed_fd run_call_frame(1) by blast
next
  case (16 m p t r m1)
  then show ?case using well_formed_heap [OF run_call_frame(1) [OF 16(3)]] by (simp add: well_formed_put)
next
  case (18 m p d r m1)
  then show ?case using well_formed_heap [OF run_call_frame(1) [OF 18(4)]] by (simp add: well_formed_put)
next
  case (21 m p e q d ev r m1)
  then show ?case using well_formed_heap [OF run_call_frame(1) [OF 21(4)]] by simp
next
  case (22 m p e t r evs m1 e1)
  then have "well_formed m1" "epoll_ok e1"
    using well_formed_heap [OF run_out_frame(1) [OF 22(3)]] epoll_ok_received [OF well_formed_epoll [OF _ 22(2)]] by simp_all
  then show ?case using 22(1) by (simp add: well_formed_put epoll_ok_changes)
next
  case (23 m p e)
  then show ?case using well_formed_epoll [of m p e] by (simp add: well_formed_put epoll_ok_changes)
next
  case (24 m p e q)
  then show ?case using well_formed_epoll [of m p e] by (simp add: well_formed_put epoll_ok_changes)
next
  case (25 m p e i)
  then show ?case using well_formed_epoll [of m p e] epoll_ok_bounds by blast
qed (simp_all add: well_formed_put_op well_formed_put well_formed_update new_object_ok)

end
