(* ===== verification/CPoll_Pipe.thy ===== *)
theory CPoll_Pipe
  imports CPoll_EPoll
begin

text \<open>
  A concrete kernel and concrete user code, at which theorems with hypotheses are applied: one
  descriptor with a byte stream in each direction, where a script says how many bytes each
  call can move, and callbacks that log their argument, delete objects, or start operations.
  The kernel satisfies the stream contracts \<open>reads_from\<close> and \<open>writes_to\<close>.
\<close>

section \<open>The kernel\<close>

text \<open>
  \<open>script\<close>: one entry per call; a positive entry is the most that the call can move, 0 is the
  end of the stream, a negative entry or no entry blocks. \<open>opened\<close> is the list of descriptors
  that \<open>socket\<close> has given out and \<open>close\<close> has not taken back.
\<close>

record pipe =
  script :: "int list"
  incoming :: "byte list"
  outgoing :: "byte list"
  memory :: "addr \<Rightarrow> byte"
  opened :: "int list"
  logged :: "int list"

definition allowance :: "pipe \<Rightarrow> int" where
  "allowance w = (case script w of [] \<Rightarrow> -1 | k # ks \<Rightarrow> k)"

definition pipe_read :: "addr \<Rightarrow> int \<Rightarrow> pipe \<Rightarrow> (int \<times> int option) \<times> pipe" where
  "pipe_read b n w =
    (let r = min n (min (allowance w) (int (length (incoming w)))); w1 = w\<lparr>script := tl (script w)\<rparr>
     in if 0 < r then ((r, None), w1\<lparr>incoming := drop (nat r) (incoming w),
                                      memory := store_bytes (memory w) b (take (nat r) (incoming w))\<rparr>)
        else if allowance w = 0 then ((0, None), w1)
        else ((-1, Some EAGAIN), w1))"

definition pipe_write :: "addr \<Rightarrow> int \<Rightarrow> pipe \<Rightarrow> (int \<times> int option) \<times> pipe" where
  "pipe_write b n w =
    (let r = min n (allowance w); w1 = w\<lparr>script := tl (script w)\<rparr>
     in if 0 < r then ((r, None), w1\<lparr>outgoing := outgoing w @ load_bytes (memory w) b (nat r)\<rparr>)
        else if allowance w = 0 then ((0, None), w1)
        else ((-1, Some EAGAIN), w1))"

text \<open>\<open>connect\<close> follows the script too; an accepted connection is descriptor 30.\<close>

definition pipe_sys :: "syscall \<Rightarrow> pipe \<Rightarrow> (int \<times> int option) \<times> pipe" where
  "pipe_sys c w = (case c of
      Sys_read d b n \<Rightarrow> pipe_read b n w
    | Sys_recv d b n flags \<Rightarrow> pipe_read b n w
    | Sys_write d b n \<Rightarrow> pipe_write b n w
    | Sys_send d b n flags \<Rightarrow> pipe_write b n w
    | Sys_socket d t p \<Rightarrow>
        ((foldr max (opened w) 19 + 1, None), w\<lparr>opened := opened w @ [foldr max (opened w) 19 + 1]\<rparr>)
    | Sys_close d \<Rightarrow> ((0, None), w\<lparr>opened := removeAll d (opened w)\<rparr>)
    | Sys_connect d a n \<Rightarrow>
        (if 0 < allowance w then ((0, None), w\<lparr>script := tl (script w)\<rparr>)
         else ((-1, Some 111), w\<lparr>script := tl (script w)\<rparr>))
    | Sys_bind d a n \<Rightarrow>
        (if 0 < allowance w then ((0, None), w\<lparr>script := tl (script w)\<rparr>)
         else ((-1, Some 98), w\<lparr>script := tl (script w)\<rparr>))
    | Sys_accept4 d flags \<Rightarrow>
        (if 0 < allowance w then ((allowance w, None), w\<lparr>script := tl (script w)\<rparr>)
         else ((-1, Some EAGAIN), w\<lparr>script := tl (script w)\<rparr>))
    | _ \<Rightarrow> ((0, None), w))"

section \<open>User code\<close>

datatype user_code =
    Log
  | Delete ptr
  | Remove_and_delete ptr ptr
  | Cancel_and_wait ptr
  | Cancel ptr

definition kernel_env :: "(pipe, user_code) env" where
  "kernel_env = \<lparr>sys = pipe_sys,
     sys_epoll_wait = (\<lambda>d n t w. ((0, None, []), w)),
     sys_so_error = (\<lambda>d w. ((0, None, allowance w), w)),
     sys_timer_read = (\<lambda>d w. ((8, None, allowance w), w)),
     sys_timer_gettime = (\<lambda>d w. ((0, None, \<lparr>tv_sec = 0, tv_nsec = 0\<rparr>), w)),
     sys_sockname = (\<lambda>p d w. ((0, None, Sockaddr_other 0, 2), w)),
     sys_recvfrom = (\<lambda>d b n fl sz w. ((-1, Some EAGAIN, Sockaddr_other 0), w)),
     host_answer = (\<lambda>h p a b c w. ((0, []), w)),
     little_endian = True, uninitialised = 0, strerror = (\<lambda>e. ''error''), gai_strerror = (\<lambda>e. ''gai''),
     usr = (\<lambda>k r m. ret () m)\<rparr>"

definition note_result :: "int \<Rightarrow> (pipe, user_code) machine \<Rightarrow> (pipe, user_code) machine" where
  "note_result r m = m\<lparr>world := (world m)\<lparr>logged := logged (world m) @ [r]\<rparr>\<rparr>"

fun user :: "user_code \<Rightarrow> int \<Rightarrow> (pipe, user_code) machine \<Rightarrow> (unit, (pipe, user_code) machine) result"
where
  "user Log r m = ret () (note_result r m)"
| "user (Delete p) r m = ret () (free_object p (note_result r m))"
| "user (Remove_and_delete ep p) r m =
     obind (EPoll_remove kernel_env ep p m) (\<lambda>_ m1. ret () (free_object p m1))"
| "user (Cancel_and_wait p) r m =
     obind (File_cancelRead p (note_result r m)) (\<lambda>_ m1. File_waitReadable p (Some Log) m1)"
| "user (Cancel p) r m = File_cancelRead p (note_result r m)"

definition pipe_env :: "(pipe, user_code) env" where
  "pipe_env = kernel_env\<lparr>usr := user\<rparr>"

section \<open>A machine\<close>

definition pipe_world :: "int list \<Rightarrow> byte list \<Rightarrow> pipe" where
  "pipe_world ks bs = \<lparr>script = ks, incoming = bs, outgoing = [], memory = (\<lambda>a. word_of_int a),
     opened = [], logged = []\<rparr>"

text \<open>
  An object at 1, a file or a socket with descriptor \<open>d\<close>; a timer at 3; an \<open>EPoll\<close> at 9 that is
  dispatching the event \<open>ev\<close> of object 1.
\<close>

definition object_machine ::
  "(user_code File \<Rightarrow> user_code fd_object) \<Rightarrow> int \<Rightarrow> user_code OperationInfo \<Rightarrow> user_code OperationInfo \<Rightarrow>
     32 word \<Rightarrow> pipe \<Rightarrow> (pipe, user_code) machine" where
  "object_machine mk d o0 o1 ev w = \<lparr>heap =
     [1 \<mapsto> mk \<lparr>fd = d, pendingOps = (\<lambda>s. case s of Rd \<Rightarrow> o0 | Wr \<Rightarrow> o1)\<rparr>,
      3 \<mapsto> Timer_object \<lparr>timer_fd = 7, timer_cb = Some Log, interval = \<lparr>tv_sec = 1, tv_nsec = 0\<rparr>\<rparr>,
      9 \<mapsto> EPoll_object \<lparr>epoll_fd = 4, currCycleNotifications = [\<lparr>ev_events = ev, ev_ptr = 1\<rparr>],
        currCycleNotificationsCount = 1\<rparr>],
     errno = 0, iovs = (\<lambda>a. \<lparr>iov_base = 16 * a, iov_len = 4\<rparr>), world = w\<rparr>"

abbreviation "pipe_machine \<equiv> object_machine File_object 5"
abbreviation "socket_machine \<equiv> object_machine Socket_object"

definition pending :: "Operations \<Rightarrow> addr \<Rightarrow> int \<Rightarrow> int \<Rightarrow> bool \<Rightarrow> user_code \<Rightarrow> user_code OperationInfo" where
  "pending opr buf len k rep c = empty_op\<lparr>operation := opr,
     readWrite := \<lparr>rw_buf = buf, rw_len = len, rw_lenDone = k, rw_flags = 0\<rparr>, repeating := rep,
     op_cb := Some c\<rparr>"

section \<open>Evaluation\<close>

lemma sys_pipe_env [simp]: "sys pipe_env = pipe_sys" "usr pipe_env = user"
  by (simp_all add: pipe_env_def kernel_env_def)

lemma kernel_env_calls: "run_call kernel_env = run_call pipe_env" "checkError kernel_env = checkError pipe_env"
  by (intro ext, simp add: run_call_def pipe_env_def,
      intro ext, simp add: checkError_def CPollException_errno_def pipe_env_def)

lemma EPoll_remove_pipe_env: "EPoll_remove kernel_env ep p m = EPoll_remove pipe_env ep p m"
  unfolding EPoll_remove_def kernel_env_calls ..

lemma pipe_sys_simps [simp]:
  "pipe_sys (Sys_read d b n) = pipe_read b n"
  "pipe_sys (Sys_recv d b n fl) = pipe_read b n"
  "pipe_sys (Sys_write d b n) = pipe_write b n"
  "pipe_sys (Sys_send d b n fl) = pipe_write b n"
  by (simp_all add: pipe_sys_def fun_eq_iff)

lemma pending_simps [simp]:
  "operation (pending opr buf len k rep c) = opr"
  "repeating (pending opr buf len k rep c) = rep"
  "op_cb (pending opr buf len k rep c) = Some c"
  "skipSynchronousAttempt (pending opr buf len k rep c) = False"
  "readWrite (pending opr buf len k rep c) = \<lparr>rw_buf = buf, rw_len = len, rw_lenDone = k, rw_flags = 0\<rparr>"
  by (simp_all add: pending_def empty_op_def)

lemma empty_op_simps [simp]:
  "operation empty_op = Op_none" "repeating empty_op = False" "op_cb empty_op = None"
  "skipSynchronousAttempt empty_op = False"
  by (simp_all add: empty_op_def)

definition pipe_file :: "int \<Rightarrow> user_code OperationInfo \<Rightarrow> user_code OperationInfo \<Rightarrow> user_code File" where
  "pipe_file d o0 o1 = \<lparr>fd = d, pendingOps = (\<lambda>s. case s of Rd \<Rightarrow> o0 | Wr \<Rightarrow> o1)\<rparr>"

lemma pipe_file_simps [simp]:
  "fd (pipe_file d o0 o1) = d" "pendingOps (pipe_file d o0 o1) Rd = o0"
  "pendingOps (pipe_file d o0 o1) Wr = o1"
  by (simp_all add: pipe_file_def)

lemma object_file_at [simp]:
  "file_at (object_machine File_object d o0 o1 ev w) (Suc 0) = Some (pipe_file d o0 o1)"
  "file_at (object_machine Socket_object d o0 o1 ev w) (Suc 0) = Some (pipe_file d o0 o1)"
  by (simp_all add: object_machine_def pipe_file_def file_at_def)

lemma object_op_at [simp]:
  "op_at (object_machine File_object d o0 o1 ev w) (Suc 0) Rd = Some o0"
  "op_at (object_machine File_object d o0 o1 ev w) (Suc 0) Wr = Some o1"
  "op_at (object_machine Socket_object d o0 o1 ev w) (Suc 0) Rd = Some o0"
  "op_at (object_machine Socket_object d o0 o1 ev w) (Suc 0) Wr = Some o1"
  by (simp_all add: op_at_def)

lemma object_machine_simps [simp]:
  "world (object_machine mk d o0 o1 ev w) = w"
  "errno (object_machine mk d o0 o1 ev w) = 0"
  "events_at (object_machine mk d o0 o1 ev w) (Notification 9 0) = Some ev"
  "(object_machine mk d o0 o1 ev w)\<lparr>world := w'\<rparr> = object_machine mk d o0 o1 ev w'"
  by (simp_all add: object_machine_def epoll_at_def)

lemma slot_update [simp]:
  "(\<lambda>s. case s of Rd \<Rightarrow> o0 | Wr \<Rightarrow> o1)(Rd := x) = (\<lambda>s. case s of Rd \<Rightarrow> x | Wr \<Rightarrow> o1)"
  "(\<lambda>s. case s of Rd \<Rightarrow> o0 | Wr \<Rightarrow> o1)(Wr := x) = (\<lambda>s. case s of Rd \<Rightarrow> o0 | Wr \<Rightarrow> x)"
  by (auto simp: fun_eq_iff split: slot.split)

lemma put_op_object [simp]:
  "put_op (Suc 0) Rd x (object_machine File_object d o0 o1 ev w) = object_machine File_object d x o1 ev w"
  "put_op (Suc 0) Wr x (object_machine File_object d o0 o1 ev w) = object_machine File_object d o0 x ev w"
  "put_op (Suc 0) Rd x (object_machine Socket_object d o0 o1 ev w) = object_machine Socket_object d x o1 ev w"
  "put_op (Suc 0) Wr x (object_machine Socket_object d o0 o1 ev w) = object_machine Socket_object d o0 x ev w"
  by (auto simp: put_op_def put_file_def file_at_def object_machine_def)

lemma set_errno_simps [simp]: "set_errno None m = m" "set_errno (Some e) m = m\<lparr>errno := e\<rparr>"
  by (simp_all add: set_errno_def)

lemma run_call_object [simp]:
  "run_call pipe_env c (object_machine mk d o0 o1 ev w) =
     (case pipe_sys c w of ((r, e), w') \<Rightarrow> (r, set_errno e (object_machine mk d o0 o1 ev w')))"
  by (simp add: run_call_def)

lemma note_result_object [simp]:
  "note_result r (object_machine mk d o0 o1 ev w) =
     object_machine mk d o0 o1 ev (w\<lparr>logged := logged w @ [r]\<rparr>)"
  by (simp add: note_result_def)

lemma pipe_reads:
  "reads_from pipe_env (Sys_read d) incoming memory"
  "reads_from pipe_env (\<lambda>b n. Sys_recv d b n fl) incoming memory"
  by (auto simp: reads_from_def pipe_read_def Let_def min_def split: if_splits)

lemma pipe_writes:
  "writes_to pipe_env (Sys_write d) outgoing memory"
  "writes_to pipe_env (\<lambda>b n. Sys_send d b n fl) outgoing memory"
  by (auto simp: writes_to_def pipe_write_def Let_def min_def split: if_splits)

section \<open>An edge triggered stream\<close>

text \<open>
  The same descriptor on an edge triggered kernel: the head of \<open>script\<close> says how many bytes have
  come and not been read (for the writer: how many there is room for). A call that finds less than
  it asks for leaves nothing (\<open>all_taken\<close>).
\<close>

definition edge_move :: "int \<Rightarrow> int \<Rightarrow> pipe \<Rightarrow> (pipe \<Rightarrow> pipe) \<Rightarrow> (int \<times> int option) \<times> pipe" where
  "edge_move r n w move = (if 0 < r then ((r, None), (move w)\<lparr>script := (if r < n then [] else [allowance w - r])\<rparr>)
     else ((-1, Some EAGAIN), w\<lparr>script := []\<rparr>))"

definition edge_sys :: "syscall \<Rightarrow> pipe \<Rightarrow> (int \<times> int option) \<times> pipe" where
  "edge_sys c w = (case c of
      Sys_read d b n \<Rightarrow> (let r = min n (min (allowance w) (int (length (incoming w)))) in
        edge_move r n w (\<lambda>w. w\<lparr>incoming := drop (nat r) (incoming w),
          memory := store_bytes (memory w) b (take (nat r) (incoming w))\<rparr>))
    | Sys_write d b n \<Rightarrow> (let r = min n (allowance w) in
        edge_move r n w (\<lambda>w. w\<lparr>outgoing := outgoing w @ load_bytes (memory w) b (nat r)\<rparr>))
    | _ \<Rightarrow> ((0, None), w))"

definition all_taken :: "pipe \<Rightarrow> bool" where
  "all_taken w \<longleftrightarrow> allowance w \<le> 0"

end
