(* ===== verification/CPoll_Reach.thy ===== *)
theory CPoll_Reach
  imports CPoll_Slots CPoll_Pipe
begin

text \<open>
  The library from outside: a program makes objects, calls their operations in any order, runs the
  event loop, and its callbacks do the same. Every machine that it reaches is well formed.
\<close>

section \<open>The interface\<close>

text \<open>
  What a program can call, class by class, and what else it can do: change the world and the arrays
  of buffers in its own memory.
\<close>

datatype 'cb file_action =
    New_file int | Open_file string int int | Init_file int | Destroy_file | Close_file
  | Do_read addr int "'cb option" bool | Do_write addr int "'cb option" bool
  | Do_recv addr int int "'cb option" bool | Do_send addr int int "'cb option" bool
  | Do_readAll addr int "'cb option" | Do_writeAll addr int "'cb option"
  | Do_recvAll addr int int "'cb option" | Do_sendAll addr int int "'cb option"
  | Do_readv addr int "'cb option" bool | Do_writev addr int "'cb option" bool
  | Do_readvAll addr int "'cb option" | Do_writevAll addr int "'cb option"
  | Do_sendFileFrom int int int "'cb option" bool | Do_close "'cb option"
  | Do_waitReadable "'cb option" | Do_waitWritable "'cb option" | Do_cancelRead | Do_cancelWrite
  | Do_read_sync addr int | Do_write_sync addr int | Do_readv_sync addr int | Do_writev_sync addr int
  | Do_recv_sync addr int int | Do_send_sync addr int int

datatype 'cb socket_action =
    New_socket | New_socket_fd int | New_socket_of int int int | Do_init int int int
  | Do_bind sockaddr int | Do_bind_host string string int int int bool | Do_listen int
  | Do_connect sockaddr int "'cb option" | Do_connect_host string string "'cb option" int int int
  | Do_connect_sync sockaddr int | Do_connect_host_sync string string int int int
  | Do_accept "'cb option" bool
  | Do_bind_ep EndPoint | Do_connect_ep EndPoint "'cb option" | Do_connect_sync_ep EndPoint
  | Do_shutdown int | Do_recvFrom addr int int EndPoint | Do_sendTo addr int int EndPoint
  | Do_getEndPoint bool

datatype 'cb timer_action =
    New_timer timespec timespec | New_timer_ms timespec "64 word" | New_timer_handle timespec int
  | Init_timer timespec | Init_timer_ms "64 word" | Init_timer_handle int
  | Do_setInterval timespec | Do_setInterval_ms "64 word" | Do_setCallback "'cb option"
  | Do_close_timer | Destroy_timer

datatype epoll_action =
    New_epoll | Destroy_epoll | Do_add ptr | Do_remove ptr | Do_run int | Do_loop

datatype ('w, 'cb) action =
    On_file ptr "'cb file_action" | On_socket ptr "'cb socket_action" | On_timer ptr "'cb timer_action"
  | On_epoll ptr epoll_action | Own_world "'w \<Rightarrow> 'w" | Own_buffers "addr \<Rightarrow> iovec"

text \<open>A result whose value the program may look at in the world, but not in the model.\<close>

definition plain :: "('a, 'm) result \<Rightarrow> (unit, 'm) result" where
  "plain x = obind x (\<lambda>_ m. ret () m)"

fun perform_file ::
  "('w, 'cb) env \<Rightarrow> ptr \<Rightarrow> 'cb file_action \<Rightarrow> ('w, 'cb) machine \<Rightarrow> (unit, ('w, 'cb) machine) result" where
  "perform_file E p (New_file d) m = ret () (File_construct_fd E p d m)"
| "perform_file E p (Open_file n flags perms) m = File_construct_open E p n flags perms m"
| "perform_file E p (Init_file d) m = File_init E p d m"
| "perform_file E p Destroy_file m = File_destroy E p m"
| "perform_file E p Close_file m = plain (File_close E p m)"
| "perform_file E p (Do_read b n c rep) m = File_read E p b n c rep m"
| "perform_file E p (Do_write b n c rep) m = File_write E p b n c rep m"
| "perform_file E p (Do_recv b n fl c rep) m = File_recv E p b n fl c rep m"
| "perform_file E p (Do_send b n fl c rep) m = File_send E p b n fl c rep m"
| "perform_file E p (Do_readAll b n c) m = File_readAll E p b n c m"
| "perform_file E p (Do_writeAll b n c) m = File_writeAll E p b n c m"
| "perform_file E p (Do_recvAll b n fl c) m = File_recvAll E p b n fl c m"
| "perform_file E p (Do_sendAll b n fl c) m = File_sendAll E p b n fl c m"
| "perform_file E p (Do_readv v n c rep) m = File_readv E p v n c rep m"
| "perform_file E p (Do_writev v n c rep) m = File_writev E p v n c rep m"
| "perform_file E p (Do_readvAll v n c) m = File_readvAll E p v n c m"
| "perform_file E p (Do_writevAll v n c) m = File_writevAll E p v n c m"
| "perform_file E p (Do_sendFileFrom d off n c rep) m = File_sendFileFrom E p d off n c rep m"
| "perform_file E p (Do_close c) m = File_close_async E p c m"
| "perform_file E p (Do_waitReadable c) m = File_waitReadable p c m"
| "perform_file E p (Do_waitWritable c) m = File_waitWritable p c m"
| "perform_file E p Do_cancelRead m = File_cancelRead p m"
| "perform_file E p Do_cancelWrite m = File_cancelWrite p m"
| "perform_file E p (Do_read_sync b n) m = plain (File_read_sync E p b n m)"
| "perform_file E p (Do_write_sync b n) m = plain (File_write_sync E p b n m)"
| "perform_file E p (Do_readv_sync v n) m = plain (File_readv_sync E p v n m)"
| "perform_file E p (Do_writev_sync v n) m = plain (File_writev_sync E p v n m)"
| "perform_file E p (Do_recv_sync b n fl) m = plain (File_recv_sync E p b n fl m)"
| "perform_file E p (Do_send_sync b n fl) m = plain (File_send_sync E p b n fl m)"

fun perform_socket ::
  "('w, 'cb) env \<Rightarrow> ptr \<Rightarrow> 'cb socket_action \<Rightarrow> ('w, 'cb) machine \<Rightarrow> (unit, ('w, 'cb) machine) result" where
  "perform_socket E p New_socket m = ret () (Socket_construct E p m)"
| "perform_socket E p (New_socket_fd d) m = ret () (Socket_construct_fd E p d m)"
| "perform_socket E p (New_socket_of d t pr) m = Socket_construct_new E p d t pr m"
| "perform_socket E p (Do_init d t pr) m = Socket_init E p d t pr m"
| "perform_socket E p (Do_bind a n) m = Socket_bind E p a n m"
| "perform_socket E p (Do_bind_host h port fam st pr reuse) m = Socket_bind_host E p h port fam st pr reuse m"
| "perform_socket E p (Do_listen n) m = Socket_listen E p n m"
| "perform_socket E p (Do_connect a n c) m = Socket_connect E p a n c m"
| "perform_socket E p (Do_connect_host h port c fam st pr) m = Socket_connect_host E p h port c fam st pr m"
| "perform_socket E p (Do_connect_sync a n) m = plain (Socket_connect_sync E p a n m)"
| "perform_socket E p (Do_connect_host_sync h port fam st pr) m =
     plain (Socket_connect_host_sync E p h port fam st pr m)"
| "perform_socket E p (Do_accept c rep) m = Socket_accept_async E p c rep m"
| "perform_socket E p (Do_bind_ep a) m = Socket_bind_ep E p a m"
| "perform_socket E p (Do_connect_ep a c) m = Socket_connect_ep E p a c m"
| "perform_socket E p (Do_connect_sync_ep a) m = plain (Socket_connect_sync_ep E p a m)"
| "perform_socket E p (Do_shutdown how) m = plain (Socket_shutdown E p how m)"
| "perform_socket E p (Do_recvFrom b n fl a) m = plain (Socket_recvFrom E p b n fl a m)"
| "perform_socket E p (Do_sendTo b n fl a) m = plain (Socket_sendTo E p b n fl a m)"
| "perform_socket E p (Do_getEndPoint peer) m = plain (Socket_getEndPoint E peer p m)"

fun perform_timer ::
  "('w, 'cb) env \<Rightarrow> ptr \<Rightarrow> 'cb timer_action \<Rightarrow> ('w, 'cb) machine \<Rightarrow> (unit, ('w, 'cb) machine) result" where
  "perform_timer E p (New_timer g iv) m = Timer_construct E p g iv m"
| "perform_timer E p (New_timer_ms g ms) m = Timer_construct_ms E p g ms m"
| "perform_timer E p (New_timer_handle g d) m = Timer_construct_handle E p g d m"
| "perform_timer E p (Init_timer iv) m = Timer_init E p iv m"
| "perform_timer E p (Init_timer_ms ms) m = Timer_init_ms E p ms m"
| "perform_timer E p (Init_timer_handle d) m = Timer_init_handle E p d m"
| "perform_timer E p (Do_setInterval iv) m = Timer_setInterval E p iv m"
| "perform_timer E p (Do_setInterval_ms ms) m = Timer_setInterval_ms E p ms m"
| "perform_timer E p (Do_setCallback c) m = Timer_setCallback p c m"
| "perform_timer E p Do_close_timer m = Timer_close E p m"
| "perform_timer E p Destroy_timer m = Timer_destroy E p m"

fun perform_epoll ::
  "('w, 'cb) env \<Rightarrow> ptr \<Rightarrow> epoll_action \<Rightarrow> ('w, 'cb) machine \<Rightarrow> (unit, ('w, 'cb) machine) result" where
  "perform_epoll E p New_epoll m = EPoll_construct E p m"
| "perform_epoll E p Destroy_epoll m = EPoll_destroy E p m"
| "perform_epoll E p (Do_add q) m = EPoll_add E p q m"
| "perform_epoll E p (Do_remove q) m = EPoll_remove E p q m"
| "perform_epoll E p (Do_run t) m = EPoll_run E p t m"
| "perform_epoll E p Do_loop m = EPoll_loop E p m"

fun perform ::
  "('w, 'cb) env \<Rightarrow> ('w, 'cb) action \<Rightarrow> ('w, 'cb) machine \<Rightarrow> (unit, ('w, 'cb) machine) result" where
  "perform E (On_file p a) m = perform_file E p a m"
| "perform E (On_socket p a) m = perform_socket E p a m"
| "perform E (On_timer p a) m = perform_timer E p a m"
| "perform E (On_epoll p a) m = perform_epoll E p a m"
| "perform E (Own_world g) m = ret () (m\<lparr>world := g (world m)\<rparr>)"
| "perform E (Own_buffers v) m = ret () (m\<lparr>iovs := v\<rparr>)"

text \<open>
  Restrictions on what a program does: objects are made where \<open>room\<close> holds, deleted when \<open>idle\<close> holds,
  and whatever else the program does to the world is in \<open>R\<close>.
\<close>

fun admissible ::
  "(('w, 'cb) machine \<Rightarrow> ptr \<Rightarrow> bool) \<Rightarrow> (('w, 'cb) machine \<Rightarrow> ptr \<Rightarrow> bool) \<Rightarrow> ('w \<Rightarrow> 'w \<Rightarrow> bool) \<Rightarrow>
     ('w, 'cb) action \<Rightarrow> ('w, 'cb) machine \<Rightarrow> bool" where
  "admissible room idle R (On_file p a) m \<longleftrightarrow>
     (case a of New_file d \<Rightarrow> room m p | Open_file n fl perms \<Rightarrow> room m p | Destroy_file \<Rightarrow> idle m p | _ \<Rightarrow> True)"
| "admissible room idle R (On_socket p a) m \<longleftrightarrow>
     (case a of New_socket \<Rightarrow> room m p | New_socket_fd d \<Rightarrow> room m p | New_socket_of d t pr \<Rightarrow> room m p | _ \<Rightarrow> True)"
| "admissible room idle R (On_timer p a) m \<longleftrightarrow>
     (case a of New_timer g iv \<Rightarrow> room m p | New_timer_ms g ms \<Rightarrow> room m p | New_timer_handle g d \<Rightarrow> room m p
      | Destroy_timer \<Rightarrow> idle m p | _ \<Rightarrow> True)"
| "admissible room idle R (On_epoll p a) m \<longleftrightarrow>
     (case a of New_epoll \<Rightarrow> room m p | Destroy_epoll \<Rightarrow> idle m p | _ \<Rightarrow> True)"
| "admissible room idle R (Own_world g) m \<longleftrightarrow> R (world m) (g (world m))"
| "admissible room idle R (Own_buffers v) m \<longleftrightarrow> True"

section \<open>User code\<close>

text \<open>
  The code of a callback: what it does next may depend on all that it sees, on the machine and on
  whether the last call has thrown. \<open>scripted ok E code n\<close> is the kernel of \<open>E\<close> with callbacks that run
  such code, nested up to \<open>n\<close> deep (a callback that a callback of a callback calls, and so on); what is
  nested deeper does not return. \<open>ok\<close> says which actions a program may take in which machine; runs
  in which it takes others are left out of consideration (they do not return).
\<close>

datatype ('w, 'cb) program =
    End
  | Raise exn
  | Call "('w, 'cb) action" "exn option \<times> ('w, 'cb) machine \<Rightarrow> ('w, 'cb) program"

primrec run_program ::
  "(('w, 'cb) action \<Rightarrow> ('w, 'cb) machine \<Rightarrow> bool) \<Rightarrow> ('w, 'cb) env \<Rightarrow> ('w, 'cb) program \<Rightarrow>
     ('w, 'cb) machine \<Rightarrow> (unit, ('w, 'cb) machine) result" where
  "run_program ok E End = (\<lambda>m. ret () m)"
| "run_program ok E (Raise x) = (\<lambda>m. Some (Throw x m))"
| "run_program ok E (Call a next) = (\<lambda>m. if \<not> ok a m then None else case perform E a m of
      None \<Rightarrow> None
    | Some (Fault f) \<Rightarrow> Some (Fault f)
    | Some (Ret u m1) \<Rightarrow> run_program ok E (next (None, m1)) m1
    | Some (Throw x m1) \<Rightarrow> run_program ok E (next (Some x, m1)) m1)"

primrec scripted ::
  "(('w, 'cb) action \<Rightarrow> ('w, 'cb) machine \<Rightarrow> bool) \<Rightarrow> ('w, 'cb) env \<Rightarrow> ('cb \<Rightarrow> int \<Rightarrow> ('w, 'cb) program) \<Rightarrow>
     nat \<Rightarrow> ('w, 'cb) env" where
  "scripted ok E code 0 = E\<lparr>usr := (\<lambda>k r m. None)\<rparr>"
| "scripted ok E code (Suc n) = E\<lparr>usr := (\<lambda>k r m. run_program ok (scripted ok E code n) (code k r) m)\<rparr>"

text \<open>The main program: it goes on from \<open>m0\<close>, whether its calls return or throw.\<close>

inductive step ::
  "(('w, 'cb) action \<Rightarrow> ('w, 'cb) machine \<Rightarrow> bool) \<Rightarrow> ('w, 'cb) env \<Rightarrow> ('w, 'cb) machine \<Rightarrow>
     ('w, 'cb) machine \<Rightarrow> bool" for ok E where
  returns: "ok a m \<Longrightarrow> perform E a m = ret u m' \<Longrightarrow> step ok E m m'"
| throws: "ok a m \<Longrightarrow> perform E a m = Some (Throw x m') \<Longrightarrow> step ok E m m'"

inductive_cases stepE: "step ok E m m'"

inductive reachable ::
  "(('w, 'cb) action \<Rightarrow> ('w, 'cb) machine \<Rightarrow> bool) \<Rightarrow> ('w, 'cb) env \<Rightarrow> ('w, 'cb) machine \<Rightarrow>
     ('w, 'cb) machine \<Rightarrow> bool" for ok E m0 where
  start: "reachable ok E m0 m0"
| more: "reachable ok E m0 m \<Longrightarrow> step ok E m m' \<Longrightarrow> reachable ok E m0 m'"

section \<open>The invariant\<close>

context library_invariant
begin

lemma plain_keeps: "holds_after F I x \<Longrightarrow> holds_after F I (plain x)"
  unfolding plain_def by (rule holds_obind) simp_all

lemma perform_file_keeps:
  "I m \<Longrightarrow> admissible room idle R (On_file p a) m \<Longrightarrow> holds_after F I (perform_file E p a m)"
  by (cases a) (simp_all add: File_entry_keeps File_vector_keeps File_others_keep constructors_keep opening_keeps
      destructors_keep plain_keeps File_close_keeps File_init_keeps sync_call_keeps File_read_sync_def
      File_write_sync_def File_readv_sync_def File_writev_sync_def File_send_sync_def File_recv_sync_def)

lemma perform_socket_keeps:
  "I m \<Longrightarrow> admissible room idle R (On_socket p a) m \<Longrightarrow> holds_after F I (perform_socket E p a m)"
  by (cases a) (simp_all add: constructors_keep Socket_init_keeps Socket_others_keep Socket_connect_keeps
      Socket_connect_host_keeps Socket_accept_keeps Socket_ep_keep plain_keeps)

lemma perform_timer_keeps:
  "I m \<Longrightarrow> admissible room idle R (On_timer p a) m \<Longrightarrow> holds_after F I (perform_timer E p a m)"
  by (cases a) (simp_all add: Timer_construct_keep Timer_parts_keep Timer_init_keep destructors_keep)

lemma perform_epoll_keeps:
  "I m \<Longrightarrow> admissible room idle R (On_epoll p a) m \<Longrightarrow> holds_after F I (perform_epoll E p a m)"
  by (cases a) (simp_all add: EPoll_operations_keep EPoll_loop_keeps opening_keeps destructors_keep)

lemma perform_keeps: "I m \<Longrightarrow> admissible room idle R a m \<Longrightarrow> holds_after F I (perform E a m)"
  by (cases a) (simp_all only: perform.simps perform_file_keeps perform_socket_keeps perform_timer_keeps
      perform_epoll_keeps holds_after.simps admissible.simps quiet iovs_keeps)

lemma run_program_keeps:
  assumes "\<And>a m. ok a m \<Longrightarrow> admissible room idle R a m" and "I m"
  shows "holds_after F I (run_program ok E prog m)"
  using assms(2)
proof (induction prog arbitrary: m)
  case (Call a k)
  have next_step: "holds_after F I (run_program ok E (k (x, m1)) m1)" if "I m1" for x m1
    using Call.IH that by blast
  show ?case
  proof (cases "ok a m")
    case True
    then show ?thesis using perform_keeps [OF Call.prems assms(1)] next_step
      by (auto split: option.split outcome.split) fastforce+
  qed simp
qed simp_all

lemma reachable_keeps:
  assumes ok: "\<And>a m. ok a m \<Longrightarrow> admissible room idle R a m" and "I m0" and "reachable ok E m0 m"
  shows "I m"
  using assms(3)
proof (induction rule: reachable.induct)
  case (more m m')
  from more.hyps(2) show ?case
    using perform_keeps [OF more.IH ok] by cases (metis holds_after.simps(2,3))+
qed (rule assms(2))

end

lemma admissible_True: "admissible (\<lambda>m p. True) (\<lambda>m p. True) (\<lambda>w w'. True) a m"
  by (cases a) (simp_all split: file_action.split socket_action.split timer_action.split epoll_action.split)

lemma scripted_well_formed: "well_formed_user (scripted ok E code n)"
proof (induction n)
  case 0
  then show ?case by (simp add: well_formed_user_def)
next
  case (Suc n)
  show ?case using kept.run_program_keeps [where E = "scripted ok E code n" and ok = ok, OF admissible_True] Suc
    by (simp add: well_formed_user_def holds_after_conj)
qed

text \<open>
  C9. Every machine that a program reaches through the interface from one without objects is well
  formed: whatever the kernel does, in whatever order objects are made, used, deleted and made again,
  and whatever the callbacks call. So the reading slots hold reading operations and the writing slots
  writing ones; \<open>sendTo\<close>, \<open>recvFrom\<close> and \<open>lastItem\<close>, which no code performs, are never pending; the
  assertion of \<open>doOperation\<close> that operations on all of a buffer do not repeat holds; and what the program
  does next does not access the array of notifications out of its bounds.
\<close>

theorem reachable_well_formed:
  assumes "heap m0 = Map.empty" and "reachable ok (scripted ok E code n) m0 m"
  shows "well_formed m \<and> perform (scripted ok E code n) a m \<noteq> Some (Fault Out_of_bounds)"
proof -
  have "well_formed_user (scripted ok E code n) \<and> well_formed m"
    using assms(1) by (intro kept.reachable_keeps [OF admissible_True _ assms(2)] conjI scripted_well_formed)
      (simp add: well_formed_def)
  with kept.perform_keeps [OF this admissible_True, of a] show ?thesis by auto
qed

text \<open>
  A file is made and read at once; the callback gets the data and waits for more: it runs inside
  \<open>read\<close>, and what it registers is there when \<open>read\<close> returns.
\<close>

definition waiting_env :: "(pipe, user_code) env" where
  "waiting_env = scripted (\<lambda>a m. True) pipe_env (\<lambda>k r. Call (On_file 1 (Do_waitReadable (Some Log)))
     (\<lambda>(x, m). case x of None \<Rightarrow> End | Some e \<Rightarrow> Raise e)) 1"

definition no_objects :: "(pipe, user_code) machine" where
  "no_objects = \<lparr>heap = Map.empty, errno = 0, iovs = (\<lambda>a. \<lparr>iov_base = 0, iov_len = 0\<rparr>), world = pipe_world [2] [7, 8, 9]\<rparr>"

lemma sys_waiting_env [simp]: "sys waiting_env = pipe_sys"
  "usr waiting_env k r m = File_waitReadable 1 (Some Log) m"
  by (auto simp: waiting_env_def split: option.split outcome.split)

lemma waiting_reached:
  "\<exists>m opn. perform waiting_env (On_file 1 (Do_read 100 4 (Some Log) False)) (File_construct_fd waiting_env 1 5 no_objects)
     = ret () m \<and> op_at m 1 Rd = Some opn \<and> operation opn = Op_wait"
  by (simp add: File_construct_fd_def no_objects_def FD_setBlocking_def run_call_def pipe_sys_def Let_def
      File_read_def try_then_add_def when_free_def with_op_def with_file_def op_at_def file_at_def
      new_File_def File_tryOperation_def File_waitReadable_def addRWOp_def pipe_read_def allowance_def pipe_world_def
      set_errno_def isWouldBlock_def put_op_def put_file_def O_NONBLOCK_def empty_op_def)

theorem reachable_well_formed_witness:
  "\<exists>m opn. well_formed m \<and> perform waiting_env (On_epoll 9 (Do_run 0)) m \<noteq> Some (Fault Out_of_bounds) \<and>
     op_at m 1 Rd = Some opn \<and> operation opn = Op_wait"
proof -
  obtain m opn where m: "perform waiting_env (On_file 1 (Do_read 100 4 (Some Log) False))
      (File_construct_fd waiting_env 1 5 no_objects) = ret () m" and o: "op_at m 1 Rd = Some opn" "operation opn = Op_wait"
    using waiting_reached by blast
  let ?step = "step (\<lambda>a m. True) waiting_env"
  have "?step no_objects (File_construct_fd waiting_env 1 5 no_objects)"
    by (rule step.returns [where a = "On_file 1 (New_file 5)"]) simp_all
  moreover have "?step (File_construct_fd waiting_env 1 5 no_objects) m" by (rule step.returns [OF _ m]) simp
  ultimately have "reachable (\<lambda>a m. True) waiting_env no_objects m" by (blast intro: reachable.intros)
  then have "well_formed m \<and> perform waiting_env (On_epoll 9 (Do_run 0)) m \<noteq> Some (Fault Out_of_bounds)"
    unfolding waiting_env_def by (intro reachable_well_formed) (simp_all add: no_objects_def)
  with o show ?thesis by blast
qed

end
