(* ===== verification/CPoll_Live.thy ===== *)
theory CPoll_Live
  imports CPoll_Reach
begin

text \<open>
  Deletion and the event loop. The kernel knows an object by the pointer that \<open>EPoll::add\<close> has given
  it; the array of notifications holds such pointers while callbacks run. Here: a program that deletes
  an object only when no notification of it is outstanding (\<open>EPoll::remove\<close> sees to that) never makes
  the event loop call a deleted object, whatever its callbacks do otherwise.
\<close>

section \<open>The kernel's registry\<close>

text \<open>
  \<open>reg w epfd d\<close> is the pointer that is registered for descriptor \<open>d\<close> with the epoll instance \<open>epfd\<close>.
  \<open>fewer\<close>: nothing is registered that was not. \<open>registry\<close> is what epoll(7) documents, for descriptors
  that are not duplicated: only \<open>epoll_ctl\<close> registers, for one descriptor; a closed descriptor is
  registered nowhere, and neither is one that is not a descriptor; \<open>epoll_wait\<close> reports at most the
  events it stores, none when it fails, and only of what is registered with the instance.
\<close>

definition fewer :: "('w \<Rightarrow> int \<Rightarrow> int \<Rightarrow> ptr option) \<Rightarrow> 'w \<Rightarrow> 'w \<Rightarrow> bool" where
  "fewer reg w w' \<longleftrightarrow> (\<forall>x d p. reg w' x d = Some p \<longrightarrow> reg w x d = Some p)"

definition registry :: "('w, 'cb) env \<Rightarrow> ('w \<Rightarrow> int \<Rightarrow> int \<Rightarrow> ptr option) \<Rightarrow> bool" where
  "registry E reg \<longleftrightarrow>
     (\<forall>w x d. d < 0 \<longrightarrow> reg w x d = None) \<and>
     (\<forall>c w. \<not> registers c \<longrightarrow> fewer reg w (snd (sys E c w))) \<and>
     (\<forall>x d ev p w x' d' q. reg (snd (sys E (Sys_epoll_add x d ev p) w)) x' d' = Some q \<longrightarrow>
        reg w x' d' = Some q \<or> x' = x \<and> d' = d \<and> q = p) \<and>
     (\<forall>d w x. reg (snd (sys E (Sys_close d) w)) x d = None) \<and>
     (\<forall>x n t w r e evs w'. sys_epoll_wait E x n t w = ((r, e, evs), w') \<longrightarrow>
        fewer reg w w' \<and> r \<le> int (length evs) \<and> (r < 0 \<longrightarrow> evs = []) \<and>
        (\<forall>ev \<in> set evs. \<exists>d. reg w x d = Some (ev_ptr ev))) \<and>
     (\<forall>w. (\<forall>d. fewer reg w (snd (sys_so_error E d w))) \<and> (\<forall>d. fewer reg w (snd (sys_timer_read E d w))) \<and>
        (\<forall>d. fewer reg w (snd (sys_timer_gettime E d w))) \<and>
        (\<forall>peer d. fewer reg w (snd (sys_sockname E peer d w))) \<and>
        (\<forall>d b n fl sz. fewer reg w (snd (sys_recvfrom E d b n fl sz w))) \<and>
        (\<forall>h port fam st pr. fewer reg w (snd (host_answer E h port fam st pr w))))"

lemma registryD:
  assumes "registry E reg"
  shows "d < 0 \<Longrightarrow> reg w x d = None"
    and "\<not> registers c \<Longrightarrow> fewer reg w (snd (sys E c w))"
    and "reg (snd (sys E (Sys_epoll_add x d ev p) w)) x' d' = Some q \<Longrightarrow>
      reg w x' d' = Some q \<or> x' = x \<and> d' = d \<and> q = p"
    and "reg (snd (sys E (Sys_close d) w)) x d = None"
    and "sys_epoll_wait E x n t w = ((r, e, evs), w') \<Longrightarrow>
      fewer reg w w' \<and> r \<le> int (length evs) \<and> (r < 0 \<longrightarrow> evs = []) \<and>
      (\<forall>ev \<in> set evs. \<exists>d. reg w x d = Some (ev_ptr ev))"
  using assms unfolding registry_def by simp_all

lemma registryD_queries:
  assumes "registry E reg"
  shows "fewer reg w (snd (sys_so_error E d w))" and "fewer reg w (snd (sys_timer_read E d w))"
    and "fewer reg w (snd (sys_timer_gettime E d w))" and "fewer reg w (snd (sys_sockname E peer d w))"
    and "fewer reg w (snd (sys_recvfrom E d b n fl sz w))"
    and "fewer reg w (snd (host_answer E h port fam st pr w))"
  using assms unfolding registry_def by simp_all

lemma registry_scripted: "registry (scripted ok E code n) reg = registry E reg"
  by (cases n) (simp_all add: registry_def)

section \<open>The invariant\<close>

text \<open>
  Registered pointers are those of objects with the descriptor; outstanding notifications (up to the
  count) point to objects.
\<close>

definition bound :: "('w \<Rightarrow> int \<Rightarrow> int \<Rightarrow> ptr option) \<Rightarrow> ('w, 'cb) machine \<Rightarrow> bool" where
  "bound reg m \<longleftrightarrow> (\<forall>x d p. reg (world m) x d = Some p \<longrightarrow> fd_of m p = Some d)"

definition live_notifications :: "('w, 'cb) machine \<Rightarrow> bool" where
  "live_notifications m \<longleftrightarrow> (\<forall>ep e i. epoll_at m ep = Some e \<longrightarrow> int i < currCycleNotificationsCount e \<longrightarrow>
     ev_ptr (currCycleNotifications e ! i) \<noteq> 0 \<longrightarrow> heap m (ev_ptr (currCycleNotifications e ! i)) \<noteq> None)"

definition not_notified :: "('w, 'cb) machine \<Rightarrow> ptr \<Rightarrow> bool" where
  "not_notified m p \<longleftrightarrow> (\<forall>ep e i. epoll_at m ep = Some e \<longrightarrow> int i < currCycleNotificationsCount e \<longrightarrow>
     ev_ptr (currCycleNotifications e ! i) \<noteq> p)"

definition orderly :: "('w \<Rightarrow> int \<Rightarrow> int \<Rightarrow> ptr option) \<Rightarrow> ('w, 'cb) machine \<Rightarrow> bool" where
  "orderly reg m \<longleftrightarrow> well_formed m \<and> bound reg m \<and> live_notifications m"

definition orderly_user :: "('w \<Rightarrow> int \<Rightarrow> int \<Rightarrow> ptr option) \<Rightarrow> ('w, 'cb) env \<Rightarrow> bool" where
  "orderly_user reg E \<longleftrightarrow> (\<forall>k r m. orderly reg m \<longrightarrow>
     holds_after {Stale_notification, Out_of_bounds} (orderly reg) (usr E k r m))"

text \<open>How the parts of the invariant depend on the machine.\<close>

lemma fd_of_heap: "heap m1 = heap m \<Longrightarrow> fd_of m1 p = fd_of m p"
  by (simp add: fd_of_def)

lemma boundI:
  assumes "bound reg m" and "fewer reg (world m) (world m1)"
    and "\<And>x d q. reg (world m) x d = Some q \<Longrightarrow> reg (world m1) x d = Some q \<Longrightarrow> fd_of m q = Some d \<Longrightarrow>
      fd_of m1 q = Some d"
  shows "bound reg m1"
  using assms unfolding bound_def fewer_def by blast

lemma live_notificationsI:
  assumes "live_notifications m" and "\<And>ep. epoll_at m1 ep = epoll_at m ep"
    and "\<And>p. heap m p \<noteq> None \<Longrightarrow> heap m1 p \<noteq> None"
  shows "live_notifications m1"
  using assms unfolding live_notifications_def by metis

lemma fewer_refl [simp]: "fewer reg w w"
  by (simp add: fewer_def)

lemma fd_of_put_file: "fd_of (put_file p f m) q = (if q = p \<and> file_at m p \<noteq> None then Some (fd f) else fd_of m q)"
  by (auto simp: fd_of_def put_file_def file_at_def split: option.splits fd_object.splits)

lemma fd_of_put_op [simp]: "fd_of (put_op p s x m) q = fd_of m q"
  by (auto simp: put_op_def fd_of_put_file split: option.split) (auto simp: fd_of_def file_at_def
      split: option.splits fd_object.splits)

lemma put_file_keeps:
  "epoll_at (put_file p f m) q = epoll_at m q" "heap (put_file p f m) q = None \<longleftrightarrow> heap m q = None"
  by (auto simp: epoll_at_def put_file_def split: option.splits fd_object.splits)

lemma live_put_file: "live_notifications m \<Longrightarrow> live_notifications (put_file p f m)"
  by (rule live_notificationsI) (simp_all add: put_file_keeps)

lemma live_put_op: "live_notifications m \<Longrightarrow> live_notifications (put_op p s x m)"
  by (simp add: put_op_def live_put_file split: option.split)

lemma put_timer_keeps:
  assumes "timer_at m1 p = Some t"
  shows "epoll_at (put_timer p t' m1) q = epoll_at m1 q" and "heap (put_timer p t' m1) q = None \<longleftrightarrow> heap m1 q = None"
    and "fd_of (put_timer p t' m1) q = (if q = p then Some (timer_fd t') else fd_of m1 q)"
  using assms by (auto simp: put_timer_def timer_at_def epoll_at_def fd_of_def split: option.splits fd_object.splits)

lemma fd_of_members:
  "file_at m p = Some f \<Longrightarrow> fd_of m p = Some (fd f)"
  "timer_at m p = Some t \<Longrightarrow> fd_of m p = Some (timer_fd t)"
  "epoll_at m p = Some e \<Longrightarrow> fd_of m p = Some (epoll_fd e)"
  by (auto simp: fd_of_def file_at_def timer_at_def epoll_at_def split: option.splits fd_object.splits)

section \<open>The library keeps it\<close>

lemma world_after_call: "run_call E c m = (r, m1) \<Longrightarrow> world m1 = snd (sys E c (world m))"
  by (auto simp: run_call_def set_errno_def split: prod.splits option.splits)

lemma world_after_out: "run_out g m = (r, x, m1) \<Longrightarrow> g (world m) = ((r, e, y), w) \<Longrightarrow> x = y \<and> world m1 = w"
  by (auto simp: run_out_def set_errno_def split: prod.splits option.splits)

lemma orderly_heap:
  assumes "orderly reg m" and "heap m1 = heap m" and "fewer reg (world m) (world m1)"
  shows "orderly reg m1"
proof -
  have "bound reg m1"
    using assms fd_of_heap [OF assms(2)] by (auto simp: orderly_def intro: boundI)
  moreover have "live_notifications m1"
    using assms(1,2) by (auto simp: orderly_def epoll_at_def intro: live_notificationsI)
  ultimately show ?thesis
    using assms(1) well_formed_heap [OF assms(2)] by (simp add: orderly_def)
qed

lemma bound_closed:
  assumes "registry E reg" and "bound reg m" and "fd_of m p = Some d" and "run_call E (Sys_close d) m = (r, m1)"
    and "\<And>q. q \<noteq> p \<Longrightarrow> fd_of m2 q = fd_of m q" and "world m2 = world m1"
  shows "bound reg m2"
proof (rule boundI [OF assms(2)])
  have w: "world m2 = snd (sys E (Sys_close d) (world m))"
    using world_after_call [OF assms(4)] assms(6) by simp
  show "fewer reg (world m) (world m2)" unfolding w by (rule registryD(2) [OF assms(1)]) simp
  fix x d' q
  assume "reg (world m2) x d' = Some q" and q: "fd_of m q = Some d'"
  then have "d' \<noteq> d" using registryD(4) [OF assms(1)] unfolding w by (metis option.distinct(1))
  then have "q \<noteq> p" using assms(3) q by auto
  then show "fd_of m2 q = Some d'" using assms(5) q by simp
qed

lemma bound_unregistered:
  assumes "bound reg m" and "\<And>x d. fd_of m p = Some d \<Longrightarrow> reg (world m) x d \<noteq> Some p"
    and "\<And>q. q \<noteq> p \<Longrightarrow> fd_of m2 q = fd_of m q" and "world m2 = world m"
  shows "bound reg m2"
  using assms unfolding bound_def by metis

lemma fd_of_put_epoll:
  "epoll_at m p = Some e \<Longrightarrow> epoll_fd e' = epoll_fd e \<Longrightarrow> fd_of (put_epoll p e' m) q = fd_of m q"
  by (auto simp: fd_of_def put_epoll_def epoll_at_def split: option.splits fd_object.splits)

lemma live_put_epoll:
  assumes "live_notifications m" and "\<And>i. int i < currCycleNotificationsCount e \<Longrightarrow>
      ev_ptr (currCycleNotifications e ! i) \<noteq> 0 \<Longrightarrow> heap m (ev_ptr (currCycleNotifications e ! i)) \<noteq> None"
  shows "live_notifications (put_epoll p e m)"
  using assms unfolding live_notifications_def by (auto simp: put_epoll_def epoll_at_def)

lemma live_freed: "live_notifications m \<Longrightarrow> not_notified m p \<Longrightarrow> live_notifications (free_object p m)"
  unfolding live_notifications_def not_notified_def
  by (auto simp: free_object_def epoll_at_def)

lemma fd_of_freed: "q \<noteq> p \<Longrightarrow> fd_of (free_object p m) q = fd_of m q"
  by (simp add: free_object_def fd_of_def)

lemma live_notificationsD:
  "live_notifications m \<Longrightarrow> epoll_at m p = Some e \<Longrightarrow> int i < currCycleNotificationsCount e \<Longrightarrow>
     ev_ptr (currCycleNotifications e ! i) \<noteq> 0 \<Longrightarrow> heap m (ev_ptr (currCycleNotifications e ! i)) \<noteq> None"
  by (simp add: live_notifications_def)

lemma orderly_put_epoll:
  assumes "orderly reg m" and "epoll_at m p = Some e" and "epoll_fd e' = epoll_fd e" and "epoll_ok e'"
    and "\<And>i. int i < currCycleNotificationsCount e' \<Longrightarrow>
      ev_ptr (currCycleNotifications e' ! i) \<noteq> 0 \<Longrightarrow> heap m (ev_ptr (currCycleNotifications e' ! i)) \<noteq> None"
  shows "orderly reg (put_epoll p e' m)"
proof -
  have "bound reg (put_epoll p e' m)"
    using assms(1) fd_of_put_epoll [OF assms(2,3)] by (auto simp: orderly_def put_epoll_def intro: boundI)
  with assms show ?thesis by (simp add: orderly_def well_formed_put live_put_epoll)
qed

lemma orderly_made:
  assumes "orderly reg m" and "heap m p = None" and "new_object x"
  shows "orderly reg (m\<lparr>heap := (heap m)(p \<mapsto> x)\<rparr>)" (is "orderly reg ?m")
proof -
  have "bound reg ?m"
    by (rule boundI [of reg m]) (use assms in \<open>auto simp: orderly_def fd_of_def\<close>)
  moreover have "live_notifications ?m"
    using assms(1,3) unfolding orderly_def live_notifications_def
    by (cases x) (auto simp: epoll_at_def)
  ultimately show ?thesis
    using assms(1) new_object_ok [OF assms(3)] by (simp add: orderly_def well_formed_update)
qed

lemma orderly_put_file:
  assumes "registry E reg" and "orderly reg m" and "file_at m p = Some f" and "fd f = -1"
  shows "orderly reg (put_file p (f\<lparr>fd := d\<rparr>) m)"
proof -
  have "bound reg (put_file p (f\<lparr>fd := d\<rparr>) m)"
  proof (rule boundI)
    fix x d' q
    assume "reg (world m) x d' = Some q" "fd_of m q = Some d'"
    then have "q \<noteq> p"
      using fd_of_members(1) [OF assms(3)] registryD(1) [OF assms(1), of d'] assms(4) by auto
    then show "fd_of (put_file p (f\<lparr>fd := d\<rparr>) m) q = Some d'"
      using \<open>fd_of m q = Some d'\<close> by (simp add: fd_of_put_file)
  qed (use assms(2) in \<open>simp_all add: orderly_def put_file_def split: option.split fd_object.split\<close>)
  moreover have "live_notifications (put_file p (f\<lparr>fd := d\<rparr>) m)"
    using assms(2) by (simp add: orderly_def live_put_file)
  ultimately show ?thesis
    using assms(2) well_formed_fd [OF _ assms(3) refl] by (simp add: orderly_def)
qed


lemma orderly_put_timer:
  assumes "registry E reg" and "orderly reg m" and "timer_at m p = Some t"
    and "timer_fd t = -1 \<or> timer_fd t' = timer_fd t"
  shows "orderly reg (put_timer p t' m)"
proof -
  have "bound reg (put_timer p t' m)"
  proof (rule boundI)
    fix x d' q
    assume r: "reg (world m) x d' = Some q" and q: "fd_of m q = Some d'"
    then have "q = p \<Longrightarrow> timer_fd t' = d'"
      using fd_of_members(2) [OF assms(3)] registryD(1) [OF assms(1), of d'] assms(4) by auto
    then show "fd_of (put_timer p t' m) q = Some d'"
      using q by (simp add: put_timer_keeps(3) [OF assms(3)])
  qed (use assms(2) in \<open>simp_all add: orderly_def put_timer_def\<close>)
  moreover have "live_notifications (put_timer p t' m)"
    by (rule live_notificationsI [of m]) (use assms(2) put_timer_keeps [OF assms(3)] in \<open>simp_all add: orderly_def\<close>)
  ultimately show ?thesis
    using assms(2) by (simp add: orderly_def well_formed_put)
qed

text \<open>What \<open>epoll_wait\<close> reports are objects, for they are registered.\<close>

lemma received_orderly:
  assumes "registry E reg" and "orderly reg m" and "epoll_at m p = Some e"
    and out: "run_out (sys_epoll_wait E (epoll_fd e) n t) m = (r, evs, m1)"
    and e1: "e1 = e\<lparr>currCycleNotifications := store_events evs (currCycleNotifications e)\<rparr>"
  shows "(r < 0 \<longrightarrow> orderly reg (put_epoll p e1 m1)) \<and>
    (r \<le> int EVENTSPERCYCLE \<longrightarrow> orderly reg (put_epoll p (e1\<lparr>currCycleNotificationsCount := r\<rparr>) m1))"
proof -
  obtain err w where wait: "sys_epoll_wait E (epoll_fd e) n t (world m) = ((r, err, evs), w)"
    using out by (auto simp: run_out_def split: prod.splits)
  note doc = registryD(5) [OF assms(1) wait]
  have h: "heap m1 = heap m" by (rule run_out_frame(1) [OF out])
  have "world m1 = w" using world_after_out [OF out wait] by simp
  then have m1: "orderly reg m1" using orderly_heap [OF assms(2) h] doc by simp
  have at: "epoll_at m1 p = Some e" using assms(3) h by (simp add: epoll_at_def)
  have ok: "epoll_ok e" using assms(2,3) well_formed_epoll by (auto simp: orderly_def)
  have live: "heap m1 (ev_ptr ev) \<noteq> None" if "ev \<in> set evs" for ev
  proof -
    from doc that obtain d where "reg (world m) (epoll_fd e) d = Some (ev_ptr ev)" by blast
    then have "fd_of m (ev_ptr ev) = Some d" using assms(2) unfolding orderly_def bound_def by blast
    then show ?thesis using h by (auto simp: fd_of_def split: option.splits)
  qed
  show ?thesis
  proof (intro conjI impI)
    assume "r < 0"
    then have "e1 = e" using doc e1 by simp
    then show "orderly reg (put_epoll p e1 m1)"
      using orderly_put_epoll [OF m1 at _ ok] live_notificationsD [OF _ at] m1 by (simp add: orderly_def)
  next
    assume "r \<le> int EVENTSPERCYCLE"
    then show "orderly reg (put_epoll p (e1\<lparr>currCycleNotificationsCount := r\<rparr>) m1)"
      using epoll_ok_received [OF ok] doc live unfolding e1
      by (intro orderly_put_epoll [OF m1 at]) (auto simp: epoll_ok_changes store_events_nth)
  qed
qed

interpretation deletion: library_invariant E "\<lambda>w w'. registry E reg \<longrightarrow> fewer reg w w'"
    "\<lambda>m. (registry E reg \<and> orderly_user reg E) \<and> orderly reg m"
    "{Stale_notification, Out_of_bounds}" "\<lambda>m p. heap m p = None" not_notified
  for E :: "('w, 'cb) env" and reg :: "'w \<Rightarrow> int \<Rightarrow> int \<Rightarrow> ptr option"
proof (unfold_locales, goal_cases)
  case (1 c w)
  then show ?case by (simp add: registryD(2))
next
  case (9 k r m)
  then show ?case by (simp add: orderly_user_def holds_after_conj)
next
  case (10 m w)
  then show ?case using orderly_heap [of reg m "m\<lparr>world := w\<rparr>"] by simp
next
  case (11 m e)
  then show ?case using orderly_heap [of reg m "m\<lparr>errno := e\<rparr>"] by simp
next
  case (12 m v)
  then show ?case using orderly_heap [of reg m "m\<lparr>iovs := v\<rparr>"] by simp
next
  case (13 m p s opn)
  then show ?case using well_formed_slot unfolding orderly_def by blast
next
  case (14 m p s opn)
  have "live_notifications (put_op p s opn m)"
    using 14(1) by (simp add: orderly_def live_put_op)
  moreover have "bound reg (put_op p s opn m)"
    by (rule boundI [of reg m]) (use 14(1) in \<open>simp_all add: orderly_def\<close>)
  ultimately show ?case using 14 by (simp add: orderly_def well_formed_put_op)
next
  case (15 m p f d)
  then show ?case using orderly_put_file by blast
next
  case (16 m p f r m1)
  then have f: "file_at m1 p = Some f" and h: "heap m1 = heap m" by (simp_all add: run_call_frame [OF 16(3)])
  have "bound reg (put_file p (f\<lparr>fd := -1\<rparr>) m1)"
    by (rule bound_closed [OF _ _ fd_of_members(1) [OF 16(2)] 16(3)])
      (use 16(1) fd_of_heap [OF h] in \<open>simp_all add: orderly_def fd_of_put_file\<close>)
  moreover have "live_notifications m1"
    using 16(1) h by (auto simp: orderly_def epoll_at_def intro: live_notificationsI)
  ultimately show ?case
    using 16(1) well_formed_fd [OF _ 16(2) h] by (simp add: orderly_def live_put_file)
next
  case (17 m p t t')
  then show ?case using orderly_put_timer by blast
next
  case (18 m p t r m1)
  then have t: "timer_at m1 p = Some t" and h: "heap m1 = heap m"
    by (simp_all add: timer_at_def run_call_frame [OF 18(3)])
  have "bound reg (put_timer p (t\<lparr>timer_fd := -1\<rparr>) m1)"
    by (rule bound_closed [OF _ _ fd_of_members(2) [OF 18(2)] 18(3)])
      (use 18(1) fd_of_heap [OF h] put_timer_keeps(3) [OF t] in \<open>simp_all add: orderly_def put_timer_def\<close>)
  moreover have "live_notifications (put_timer p (t\<lparr>timer_fd := -1\<rparr>) m1)"
    by (rule live_notificationsI [of m]) (use 18(1) put_timer_keeps [OF t] h in \<open>simp_all add: orderly_def epoll_at_def\<close>)
  ultimately show ?case
    using 18(1) well_formed_heap [OF h] by (simp add: orderly_def well_formed_put)
next
  case (19 m p x)
  then show ?case using orderly_made by blast
next
  case (20 m p d r m1)
  then have h: "heap m1 = heap m" by (simp add: run_call_frame [OF 20(4)])
  have "bound reg (free_object p m1)"
    by (rule bound_closed [OF _ _ 20(3,4)])
      (use 20(1) fd_of_heap [OF h] in \<open>simp_all add: orderly_def fd_of_freed\<close>)
  moreover have "live_notifications (free_object p m1)"
    by (rule live_freed) (use 20(1,2) h in \<open>simp_all add: orderly_def not_notified_def live_notifications_def epoll_at_def\<close>)
  ultimately show ?case
    using 20(1) well_formed_heap [OF h] by (simp add: orderly_def well_formed_put)
next
  case (21 m p d)
  then have none: "reg (world m) x d' \<noteq> Some p" if "fd_of m p = Some d'" for x d'
    using that registryD(1) [of E reg d'] by simp
  have "bound reg (free_object p m)"
    by (rule bound_unregistered [of reg m p]) (use 21(1) none in \<open>simp_all add: orderly_def fd_of_freed\<close>)
  with 21 show ?case by (simp add: orderly_def well_formed_put live_freed)
next
  case (23 m p e q d ev r m1)
  then have h: "heap m1 = heap m" by (simp add: run_call_frame [OF 23(4)])
  have "bound reg m1"
    using 23(1,3) registryD(3) [of E reg] unfolding orderly_def bound_def world_after_call [OF 23(4)] fd_of_heap [OF h]
    by blast
  with 23(1) show ?case
    using well_formed_heap [OF h] h
    by (auto simp: orderly_def epoll_at_def intro: live_notificationsI)
next
  case (24 m p e t r evs m1 e1)
  then show ?case using received_orderly by blast
next
  case (25 m p e)
  then have "orderly reg (put_epoll p (e\<lparr>currCycleNotificationsCount := 0\<rparr>) m)"
    using well_formed_epoll [of m p e] by (intro orderly_put_epoll) (auto simp: orderly_def epoll_ok_changes)
  with 25 show ?case by simp
next
  case (26 m p e q)
  then have "orderly reg (put_epoll p (e\<lparr>currCycleNotifications :=
      cancel_events q (currCycleNotificationsCount e) (currCycleNotifications e)\<rparr>) m)"
    using well_formed_epoll [of m p e] live_notificationsD [of m p e] epoll_ok_bounds [of e]
    by (intro orderly_put_epoll)
      (auto simp: orderly_def epoll_ok_changes cancel_events_nth cancel_event_def split: if_splits)
  with 26 show ?case by simp
next
  case (27 m p e i)
  then show ?case using well_formed_epoll [of m p e] epoll_ok_bounds unfolding orderly_def by blast
next
  case (28 m p e i)
  then show ?case using live_notificationsD [of m p e i] unfolding orderly_def by blast
qed (simp_all add: registryD_queries)


section \<open>Programs that delete with care\<close>

text \<open>
  Objects are made where there is none, and deleted (by anybody, a callback too) when no outstanding
  notification is theirs; the program registers nothing with an epoll instance but by \<open>add\<close>.
\<close>

definition careful ::
  "('w \<Rightarrow> int \<Rightarrow> int \<Rightarrow> ptr option) \<Rightarrow> ('w, 'cb) action \<Rightarrow> ('w, 'cb) machine \<Rightarrow> bool" where
  "careful reg = admissible (\<lambda>m p. heap m p = None) not_notified (fewer reg)"

lemma admissible_weaker:
  "admissible room idle R a m \<Longrightarrow> (\<And>w w'. R w w' \<Longrightarrow> R' w w') \<Longrightarrow> admissible room idle R' a m"
  by (cases a) simp_all

lemma careful_admissible:
  "careful reg a m \<Longrightarrow>
     admissible (\<lambda>m p. heap m p = None) not_notified (\<lambda>w w'. registry E reg \<longrightarrow> fewer reg w w') a m"
  unfolding careful_def by (erule admissible_weaker) simp

text \<open>\<open>remove\<close> is what makes an object free to be deleted.\<close>

lemma removed_not_notified:
  assumes "EPoll_remove E ep p m = ret () m'" and "p \<noteq> 0" and "well_formed m"
    and "\<And>ep' e i. ep' \<noteq> ep \<Longrightarrow> epoll_at m ep' = Some e \<Longrightarrow> int i < currCycleNotificationsCount e \<Longrightarrow>
      ev_ptr (currCycleNotifications e ! i) \<noteq> p"
  shows "not_notified m' p"
proof -
  obtain e where e: "epoll_at m ep = Some e"
    and h: "heap m' = (heap m)(ep \<mapsto> EPoll_object (e\<lparr>currCycleNotifications :=
       cancel_events p (currCycleNotificationsCount e) (currCycleNotifications e)\<rparr>))"
    using assms(1) by (rule EPoll_remove_ret)
  have "ev_ptr (cancel_events p (currCycleNotificationsCount e) (currCycleNotifications e) ! i) \<noteq> p"
    if "int i < currCycleNotificationsCount e" for i
    using epoll_ok_bounds [OF well_formed_epoll [OF assms(3) e] that] that assms(2)
    by (simp add: cancel_events_nth cancel_event_def)
  then show ?thesis
    using assms(4) h unfolding not_notified_def by (auto simp: epoll_at_def split: if_splits)
qed

lemma scripted_orderly:
  assumes "registry E reg"
  shows "orderly_user reg (scripted (careful reg) E code n)"
proof (induction n)
  case 0
  then show ?case by (simp add: orderly_user_def)
next
  case (Suc n)
  show ?case
    using Suc assms deletion.run_program_keeps [where E = "scripted (careful reg) E code n" and reg = reg
        and ok = "careful reg", OF careful_admissible]
    by (simp add: orderly_user_def holds_after_conj registry_scripted)
qed

text \<open>
  C8. A program that deletes objects with care never makes the event loop call one that is gone: in
  every machine that it reaches the outstanding notifications are those of objects that exist, and no
  call of the interface, \<open>run\<close> and \<open>loop\<close> included, takes a deleted object's pointer from the array,
  whatever else the program and its callbacks do, nested in each other as they may be. The kernel is
  any that keeps what epoll(7) promises (\<open>registry\<close>).
\<close>

theorem careful_programs_never_stale:
  assumes "registry E reg" and "\<And>x d. reg (world m0) x d = None" and "heap m0 = Map.empty"
    and "reachable (careful reg) (scripted (careful reg) E code n) m0 m" and "careful reg a m"
  shows "live_notifications m \<and> perform (scripted (careful reg) E code n) a m \<noteq> Some (Fault Stale_notification)"
proof -
  let ?E = "scripted (careful reg) E code n"
  have "orderly reg m0"
    using assms(2,3) by (simp add: orderly_def well_formed_def bound_def live_notifications_def epoll_at_def)
  then have I: "(registry ?E reg \<and> orderly_user reg ?E) \<and> orderly reg m"
    using assms(1) by (intro deletion.reachable_keeps [OF careful_admissible _ assms(4)])
      (simp_all add: registry_scripted scripted_orderly)
  with deletion.perform_keeps [OF this careful_admissible [OF assms(5)]] show ?thesis
    by (auto simp: orderly_def)
qed

text \<open>
  A kernel that only keeps the registry, and reports descriptor 5 whenever it is registered. The callback
  removes its file from the \<open>EPoll\<close> and deletes it; the file waits to be readable when the loop runs.
\<close>

type_synonym registrations = "int \<Rightarrow> int \<Rightarrow> ptr option"

definition registered_at :: "registrations \<Rightarrow> int \<Rightarrow> int \<Rightarrow> ptr option" where
  "registered_at w x d = (if d < 0 then None else w x d)"

definition registrar_sys :: "syscall \<Rightarrow> registrations \<Rightarrow> (int \<times> int option) \<times> registrations" where
  "registrar_sys c w = (case c of
      Sys_epoll_add x d ev p \<Rightarrow> ((0, None), w(x := (w x)(d \<mapsto> p)))
    | Sys_epoll_del x d \<Rightarrow> ((0, None), w(x := (w x)(d := None)))
    | Sys_close d \<Rightarrow> ((0, None), \<lambda>x. (w x)(d := None))
    | Sys_epoll_create flags \<Rightarrow> ((4, None), w)
    | _ \<Rightarrow> ((0, None), w))"

definition registrar_env :: "(registrations, unit) env" where
  "registrar_env = \<lparr>sys = registrar_sys,
     sys_epoll_wait = (\<lambda>x n t w. (case w x 5 of
         None \<Rightarrow> ((0, None, []), w)
       | Some p \<Rightarrow> ((1, None, [\<lparr>ev_events = EPOLLIN, ev_ptr = p\<rparr>]), w))),
     sys_so_error = (\<lambda>d w. ((0, None, 0), w)),
     sys_timer_read = (\<lambda>d w. ((8, None, 1), w)),
     sys_timer_gettime = (\<lambda>d w. ((0, None, \<lparr>tv_sec = 0, tv_nsec = 0\<rparr>), w)),
     sys_sockname = (\<lambda>p d w. ((0, None, Sockaddr_other 0, 2), w)),
     sys_recvfrom = (\<lambda>d b n fl sz w. ((-1, Some EAGAIN, Sockaddr_other 0), w)),
     host_answer = (\<lambda>h p a b c w. ((0, []), w)),
     little_endian = True, uninitialised = 0, strerror = (\<lambda>e. ''error''), gai_strerror = (\<lambda>e. ''gai''),
     usr = (\<lambda>k r m. ret () m)\<rparr>"

lemma registrar_quiet: "\<not> registers c \<Longrightarrow> fewer registered_at w (snd (registrar_sys c w))"
  by (cases c) (auto simp: registrar_sys_def fewer_def registered_at_def split: if_splits)

lemma registrar_registry: "registry registrar_env registered_at"
proof -
  have "registered_at (snd (registrar_sys (Sys_epoll_add x d ev p) w)) x' d' = Some q \<Longrightarrow>
      registered_at w x' d' = Some q \<or> x' = x \<and> d' = d \<and> q = p" for x d ev p w x' d' q
    by (auto simp: registrar_sys_def registered_at_def split: if_splits)
  moreover have "registered_at (snd (registrar_sys (Sys_close d) w)) x d = None" for d w x
    by (simp add: registrar_sys_def registered_at_def)
  moreover have "registered_at w x d = None" if "d < 0" for w x d
    using that by (simp add: registered_at_def)
  moreover have "\<exists>d. registered_at w x d = Some p" if "w x 5 = Some p" for w x p
    by (rule exI [of _ 5]) (use that in \<open>simp add: registered_at_def\<close>)
  ultimately show ?thesis
    using registrar_quiet unfolding registry_def
    by (auto simp: registrar_env_def split: option.splits)
qed


definition deleting_env :: "(registrations, unit) env" where
  "deleting_env = scripted (careful registered_at) registrar_env (\<lambda>k r. Call (On_epoll 9 (Do_remove 1))
     (\<lambda>x. Call (On_file 1 Destroy_file) (\<lambda>x. End))) (Suc 0)"

definition nothing :: "(registrations, unit) machine" where
  "nothing = \<lparr>heap = Map.empty, errno = 0, iovs = (\<lambda>a. \<lparr>iov_base = 0, iov_len = 0\<rparr>), world = (\<lambda>x. Map.empty)\<rparr>"

lemma deleting_env_simps [simp]:
  "sys deleting_env = registrar_sys" "sys_epoll_wait deleting_env = sys_epoll_wait registrar_env"
  "uninitialised deleting_env = 0"
  by (simp_all add: deleting_env_def registrar_env_def)

definition watching :: "(registrations, unit) machine" where
  "watching = \<lparr>heap = [9 \<mapsto> EPoll_object \<lparr>epoll_fd = 4, currCycleNotifications = replicate EVENTSPERCYCLE
      \<lparr>ev_events = 0, ev_ptr = 0\<rparr>, currCycleNotificationsCount = 0\<rparr>, 1 \<mapsto> File_object (new_File 0\<lparr>fd := 5\<rparr>)],
     errno = 0, iovs = (\<lambda>a. \<lparr>iov_base = 0, iov_len = 0\<rparr>), world = (\<lambda>x. if x = 4 then [5 \<mapsto> 1] else Map.empty)\<rparr>"

lemma watching_reached:
  "\<exists>m1 m2. perform deleting_env (On_epoll 9 New_epoll) nothing = ret () m1 \<and> heap m1 1 = None \<and>
     perform deleting_env (On_file 1 (New_file 5)) m1 = ret () m2 \<and>
     perform deleting_env (On_epoll 9 (Do_add 1)) m2 = ret () watching"
  by (simp add: nothing_def watching_def EPoll_construct_def run_call_def registrar_sys_def set_errno_def
      checkError_def disableSignals_def put_epoll_def File_construct_fd_def FD_setBlocking_def EPoll_add_def
      with_epoll_def epoll_at_def fd_of_def Let_def fun_eq_iff)


definition watching_at :: "int \<Rightarrow> epoll_event \<Rightarrow> unit OperationInfo \<Rightarrow> registrations \<Rightarrow> (registrations, unit) machine" where
  "watching_at n ev opn w = watching\<lparr>heap := (heap watching)(
      1 \<mapsto> File_object (new_File 0\<lparr>fd := 5, pendingOps := (pendingOps (new_File 0))(Rd := opn)\<rparr>),
      9 \<mapsto> EPoll_object \<lparr>epoll_fd = 4,
        currCycleNotifications = ev # replicate 31 \<lparr>ev_events = 0, ev_ptr = 0\<rparr>, currCycleNotificationsCount = n\<rparr>),
      world := w\<rparr>"

definition wait_op :: "unit OperationInfo" where
  "wait_op = empty_op\<lparr>operation := Op_wait, op_cb := Some ()\<rparr>"

abbreviation no_event :: epoll_event where "no_event \<equiv> \<lparr>ev_events = 0, ev_ptr = 0\<rparr>"
abbreviation event_of_1 :: epoll_event where "event_of_1 \<equiv> \<lparr>ev_events = EPOLLIN, ev_ptr = 1\<rparr>"

lemma replicate_events: "replicate EVENTSPERCYCLE x = x # replicate 31 x"
  unfolding EVENTSPERCYCLE_def by (simp add: numeral_eq_Suc)

lemma events_per_cycle: "Suc 0 \<le> EVENTSPERCYCLE"
  by (simp add: EVENTSPERCYCLE_def)

lemmas watching_defs = replicate_events events_per_cycle watching_at_def watching_def when_free_def with_op_def
  with_file_def with_epoll_def op_at_def file_at_def epoll_at_def fd_of_def new_File_def Let_def set_errno_def
  checkError_def put_op_def put_file_def put_epoll_def fun_upd_twist [of "Suc 0" 9] store_events_few

lemma waiting_step:
  "perform deleting_env (On_file 1 (Do_waitReadable (Some ()))) watching =
     ret () (watching_at 0 no_event wait_op (world watching))"
  by (simp add: File_waitReadable_def addRWOp_def watching_defs wait_op_def empty_op_def)

lemma waiting_wait:
  "EPoll_wait deleting_env 9 0 (watching_at 0 no_event opn (world watching)) =
     ret () (watching_at 1 event_of_1 opn (world watching))"
  by (simp add: EPoll_wait_def run_out_def registrar_env_def watching_defs)

lemma waiting_removed:
  "sys E = registrar_sys \<Longrightarrow> EPoll_remove E 9 1 (watching_at 1 event_of_1 opn (world watching)) =
     ret () (watching_at 1 no_event opn (\<lambda>x. Map.empty))"
  by (simp add: EPoll_remove_def run_call_def registrar_sys_def cancel_events_def cancel_event_def watching_defs
      fun_eq_iff)

lemma waiting_destroyed:
  "sys E = registrar_sys \<Longrightarrow> File_destroy E 1 (watching_at 1 no_event opn (\<lambda>x. Map.empty)) =
     ret () (free_object 1 (watching_at 1 no_event opn (\<lambda>x. Map.empty)))"
  by (simp add: File_destroy_def File_close_def free_object_def run_call_def registrar_sys_def watching_defs
      fun_eq_iff)

lemma waiting_not_notified: "not_notified (watching_at 1 no_event opn w) 1"
  by (simp add: not_notified_def watching_defs)


lemma registrar_calls [simp]: "sys registrar_env = registrar_sys"
  by (simp add: registrar_env_def)

lemma waiting_code:
  "usr deleting_env () r (watching_at 1 event_of_1 opn (world watching)) =
     ret () (free_object 1 (watching_at 1 no_event opn (\<lambda>x. Map.empty)))"
  by (simp add: deleting_env_def careful_def waiting_removed waiting_destroyed waiting_not_notified
      del: One_nat_def)

lemma waiting_performed:
  "File_doOperation deleting_env 1 Rd False False (watching_at 1 event_of_1 wait_op (world watching)) =
     ret DONE_PERMANENT (free_object 1 (watching_at 1 no_event (wait_op\<lparr>operation := Op_none\<rparr>) (\<lambda>x. Map.empty)))"
proof -
  let ?m = "watching_at 1 event_of_1 wait_op (world watching)"
  have f: "op_at ?m 1 Rd = Some wait_op" "file_at ?m 1 \<noteq> None"
    by (simp_all add: watching_defs)
  have p: "put_op 1 Rd opn ?m = watching_at 1 event_of_1 opn (world watching)" for opn
    by (simp add: watching_defs fun_eq_iff)
  have r: "operation wait_op = Op_wait" "op_cb wait_op = Some ()" "wait_op\<lparr>skipSynchronousAttempt := False\<rparr> = wait_op"
    by (simp_all add: wait_op_def empty_op_def)
  have "ordinary_block deleting_env 1 Rd False False Op_wait ?m = ret (Some DONE_PERMANENT)
      (free_object 1 (watching_at 1 no_event (wait_op\<lparr>operation := Op_none\<rparr>) (\<lambda>x. Map.empty)))"
    using f by (subst ordinary_block.simps)
      (auto simp: with_op_def with_file_def ordinary_attempt_def r p waiting_code Let_def simp del: One_nat_def)
  then show ?thesis
    using f by (simp add: File_doOperation_def with_op_def r p less_eq_Operations_def Let_def del: One_nat_def)
qed

lemma waiting_dispatched:
  "virtual_dispatch deleting_env 1 (Notification 9 0) (watching_at 1 event_of_1 wait_op (world watching)) =
     ret () (free_object 1 (watching_at 1 no_event (wait_op\<lparr>operation := Op_none\<rparr>) (\<lambda>x. Map.empty)))"
proof -
  have "\<exists>f. heap (watching_at 1 event_of_1 wait_op (world watching)) 1 = Some (File_object f)"
    and "events_at (watching_at 1 event_of_1 wait_op (world watching)) (Notification 9 0) = Some EPOLLIN"
    and "events_at (free_object 1 (watching_at 1 no_event (wait_op\<lparr>operation := Op_none\<rparr>) (\<lambda>x. Map.empty)))
      (Notification 9 0) = Some 0"
    by (simp_all add: watching_defs free_object_def)
  moreover have "has_event EPOLLIN EPOLLIN" and "\<not> has_event EPOLLIN EPOLLERR" and "\<not> has_event EPOLLIN EPOLLHUP"
    and "\<And>x. \<not> has_event 0 x"
    by (simp_all add: has_event_def EPOLLIN_def EPOLLERR_def EPOLLHUP_def)
  ultimately show ?thesis
    by (auto simp: virtual_dispatch_def File_dispatch_def dispatch_slots_def with_events_def
        waiting_performed simp del: One_nat_def events_at.simps)
qed

lemma waiting_run:
  "perform deleting_env (On_epoll 9 (Do_run 0)) (watching_at 0 no_event wait_op (world watching)) =
     ret () (free_object 1 (watching_at 0 no_event (wait_op\<lparr>operation := Op_none\<rparr>) (\<lambda>x. Map.empty)))"
proof -
  let ?m = "watching_at 1 event_of_1 wait_op (world watching)"
  let ?m1 = "free_object 1 (watching_at 1 no_event (wait_op\<lparr>operation := Op_none\<rparr>) (\<lambda>x. Map.empty))"
  let ?e = "\<lambda>ev. \<lparr>epoll_fd = 4, currCycleNotifications = ev # replicate 31 no_event, currCycleNotificationsCount = 1\<rparr>"
  have e: "epoll_at ?m 9 = Some (?e event_of_1)" "epoll_at ?m1 9 = Some (?e no_event)"
    by (simp_all add: watching_defs free_object_def)
  have "EPoll_cycle deleting_env (Next 9 0) ?m =
      obind (virtual_dispatch deleting_env 1 (Notification 9 0) ?m) (\<lambda>_ m1. EPoll_cycle deleting_env (Next 9 (Suc 0)) m1)"
    by (rule cycle_dispatch [OF e(1)]) simp_all
  moreover have "EPoll_cycle deleting_env (Next 9 (Suc 0)) ?m1 =
      ret () (put_epoll 9 ((?e no_event)\<lparr>currCycleNotificationsCount := 0\<rparr>) ?m1)"
    by (rule cycle_end [OF e(2)]) simp
  moreover have "put_epoll 9 ((?e no_event)\<lparr>currCycleNotificationsCount := 0\<rparr>) ?m1 =
      free_object 1 (watching_at 0 no_event (wait_op\<lparr>operation := Op_none\<rparr>) (\<lambda>x. Map.empty))"
    by (simp add: watching_defs free_object_def fun_eq_iff)
  ultimately show ?thesis
    by (simp add: cycle_start waiting_wait waiting_dispatched del: One_nat_def)
qed

theorem careful_programs_never_stale_witness:
  "\<exists>m m'. live_notifications m \<and> perform deleting_env (On_epoll 9 (Do_run 0)) m \<noteq> Some (Fault Stale_notification) \<and>
     perform deleting_env (On_epoll 9 (Do_run 0)) m = ret () m' \<and> heap m 1 \<noteq> None \<and> heap m' 1 = None"
proof -
  let ?ok = "careful registered_at" and ?m = "watching_at 0 no_event wait_op (world watching)"
  obtain m1 m2 where m: "perform deleting_env (On_epoll 9 New_epoll) nothing = ret () m1" "heap m1 1 = None"
      "perform deleting_env (On_file 1 (New_file 5)) m1 = ret () m2"
      "perform deleting_env (On_epoll 9 (Do_add 1)) m2 = ret () watching"
    using watching_reached by blast
  have "step ?ok deleting_env nothing m1"
    by (rule step.returns [OF _ m(1)]) (simp add: careful_def nothing_def)
  moreover have "step ?ok deleting_env m1 m2"
    by (rule step.returns [OF _ m(3)]) (use m(2) in \<open>simp add: careful_def\<close>)
  moreover have "step ?ok deleting_env m2 watching"
    by (rule step.returns [OF _ m(4)]) (simp add: careful_def)
  moreover have "step ?ok deleting_env watching ?m"
    by (rule step.returns [OF _ waiting_step]) (simp add: careful_def)
  ultimately have "reachable ?ok deleting_env nothing ?m"
    by (meson reachable.start reachable.more)
  then have "live_notifications ?m \<and> perform deleting_env (On_epoll 9 (Do_run 0)) ?m \<noteq> Some (Fault Stale_notification)"
    unfolding deleting_env_def
    by (intro careful_programs_never_stale [OF registrar_registry])
      (simp_all add: nothing_def registered_at_def careful_def)
  moreover have "heap ?m 1 \<noteq> None" and "heap (free_object 1 (watching_at 0 no_event
      (wait_op\<lparr>operation := Op_none\<rparr>) (\<lambda>x. Map.empty))) 1 = None"
    by (simp_all add: watching_defs free_object_def)
  ultimately show ?thesis using waiting_run by blast
qed

end
