(* ===== verification/CPoll_Requests.thy ===== *)
theory CPoll_Requests
  imports CPoll_Reach
begin

text \<open>
  Requests on a slot that is in use: which of them look at their slot first, and what they do then.
\<close>

section \<open>Which requests look at their slot\<close>






section \<open>A slot in use\<close>






section \<open>A free slot\<close>

text \<open>Code that does not throw \<open>logic_error\<close>.\<close>

definition no_logic_error :: "('a, 'm) result \<Rightarrow> bool" where
  "no_logic_error x \<longleftrightarrow> (\<forall>msg m. x \<noteq> Some (Throw (Logic_error msg) m))"


lemma no_logic_error_simps [simp]:
  "no_logic_error (ret a m)" "no_logic_error (Some (Fault f))" "no_logic_error None"
  "no_logic_error (Some (Throw (CPoll_exception s n) m))" "no_logic_error (Some (Throw Bad_function_call m))"
  by (simp_all add: no_logic_error_def)





















section \<open>The property\<close>




end
