(* ===== verification/CPoll_Sessions.thy ===== *)
theory CPoll_Sessions
  imports CPoll_Pipe
begin

text \<open>
  Whole transfers: an entry point (\<open>readAll\<close>, \<open>writeAll\<close>, \<open>recvAll\<close>, \<open>sendAll\<close>) followed by
  any number of readiness events, between which the rest of the world may change. The data
  arrives complete and in order, the callback hears about it once, and it does so as soon as
  the kernel has moved everything.
\<close>

section \<open>Readiness events\<close>

text \<open>
  An event is the \<open>hup\<close> argument and what happens in the world before it; \<open>deliver\<close> passes
  events to \<open>doOperation\<close> until one ends the operation (\<open>True\<close>) or none is left.
\<close>

fun deliver ::
  "('w, 'cb) env \<Rightarrow> ptr \<Rightarrow> slot \<Rightarrow> bool \<Rightarrow> (bool \<times> ('w \<Rightarrow> 'w)) list \<Rightarrow> ('w, 'cb) machine \<Rightarrow>
     (bool, ('w, 'cb) machine) result" where
  "deliver E this s isWrite [] m = ret False m"
| "deliver E this s isWrite ((hup, g) # evs) m =
     obind (File_doOperation E this s isWrite hup (m\<lparr>world := g (world m)\<rparr>)) (\<lambda>res m1.
       if res = CONTINUE then deliver E this s isWrite evs m1 else ret True m1)"

text \<open>What happens between the events does not touch the stream or the buffer.\<close>

definition harmless :: "('w \<Rightarrow> 'x) \<Rightarrow> ('w \<Rightarrow> 'y) \<Rightarrow> (bool \<times> ('w \<Rightarrow> 'w)) list \<Rightarrow> bool" where
  "harmless x y evs \<longleftrightarrow> (\<forall>(hup, g) \<in> set evs. \<forall>w. x (g w) = x w \<and> y (g w) = y w)"

definition keeps :: "(int \<Rightarrow> 'w \<Rightarrow> bool) \<Rightarrow> (bool \<times> ('w \<Rightarrow> 'w)) list \<Rightarrow> bool" where
  "keeps P evs \<longleftrightarrow> (\<forall>(hup, g) \<in> set evs. \<forall>k w. P k w \<longrightarrow> P k (g w))"

lemma keeps_read: "harmless inp mem evs \<Longrightarrow> keeps (read_so_far inp mem buf w0) evs"
  by (fastforce simp: harmless_def keeps_def read_so_far_def)

lemma keeps_written: "harmless outp mem evs \<Longrightarrow> keeps (written_so_far outp mem buf w0) evs"
  by (fastforce simp: harmless_def keeps_def written_so_far_def)

lemma all_waiting_world:
  assumes "all_waiting P this s d opr fl buf len c m" and "\<And>k w. P k w \<Longrightarrow> P k (g w)"
  shows "all_waiting P this s d opr fl buf len c (m\<lparr>world := g (world m)\<rparr>)"
  using assms unfolding all_waiting_def waiting_at_def Let_def by fastforce

text \<open>
  \<open>W\<close> is what holds of a machine while the operation waits: each event keeps it or reports.
\<close>

lemma deliver_steps_if:
  assumes "W m"
    and step: "\<And>m hup. W m \<Longrightarrow> H hup \<Longrightarrow> (\<exists>m'. File_doOperation E this s isWrite hup m = ret CONTINUE m' \<and> W m') \<or>
       all_reports E P this s len c (\<lambda>res. res \<noteq> CONTINUE) (File_doOperation E this s isWrite hup m)"
    and world: "\<forall>(hup, g) \<in> set evs. H hup \<and> (\<forall>m. W m \<longrightarrow> W (m\<lparr>world := g (world m)\<rparr>))"
  shows "(\<exists>m'. deliver E this s isWrite evs m = ret False m' \<and> W m') \<or>
         all_reports E P this s len c (\<lambda>over. over) (deliver E this s isWrite evs m)"
  using assms(1,3)
proof (induction evs arbitrary: m)
  case Nil
  then show ?case by simp
next
  case (Cons ev evs)
  obtain hup g where ev: "ev = (hup, g)" by (cases ev)
  let ?m = "m\<lparr>world := g (world m)\<rparr>"
  have W: "W ?m" and H: "H hup" using Cons.prems by (simp_all add: ev)
  from step [OF W H] show ?case
  proof (elim disjE exE conjE)
    fix m1
    assume "File_doOperation E this s isWrite hup ?m = ret CONTINUE m1" and "W m1"
    then show ?thesis using Cons.IH [of m1] Cons.prems(2) by (simp add: ev)
  next
    assume "all_reports E P this s len c (\<lambda>res. res \<noteq> CONTINUE) (File_doOperation E this s isWrite hup ?m)"
    then have "all_reports E P this s len c (\<lambda>over. over) (deliver E this s isWrite (ev # evs) m)"
      unfolding all_reports_def reports_def by (force simp: ev obind_assoc)
    then show ?thesis ..
  qed
qed

lemma deliver_steps:
  assumes "W m"
    and "\<And>m hup. W m \<Longrightarrow> (\<exists>m'. File_doOperation E this s isWrite hup m = ret CONTINUE m' \<and> W m') \<or>
       all_reports E P this s len c (\<lambda>res. res \<noteq> CONTINUE) (File_doOperation E this s isWrite hup m)"
    and "\<forall>(hup, g) \<in> set evs. \<forall>m. W m \<longrightarrow> W (m\<lparr>world := g (world m)\<rparr>)"
  shows "(\<exists>m'. deliver E this s isWrite evs m = ret False m' \<and> W m') \<or>
         all_reports E P this s len c (\<lambda>over. over) (deliver E this s isWrite evs m)"
  by (rule deliver_steps_if [where W = W and H = "\<lambda>_. True"]) (use assms in auto)

text \<open>
  An entry point and the events after it: the callback is called by the entry point itself, or
  the operation is registered; then it still waits after the events, or one of them has called
  the callback.
\<close>

definition transfers ::
  "('w, 'cb) env \<Rightarrow> (int \<Rightarrow> 'w \<Rightarrow> bool) \<Rightarrow> ptr \<Rightarrow> slot \<Rightarrow> bool \<Rightarrow> int \<Rightarrow> 'cb \<Rightarrow> (('w, 'cb) machine \<Rightarrow> bool) \<Rightarrow>
     (unit, ('w, 'cb) machine) result \<Rightarrow> (bool \<times> ('w \<Rightarrow> 'w)) list \<Rightarrow> bool" where
  "transfers E P this s isWrite len c W entry evs \<longleftrightarrow>
     all_reports E P this s len c (\<lambda>_. True) entry \<or>
     (\<exists>m1. entry = ret () m1 \<and>
       ((\<exists>m2. deliver E this s isWrite evs m1 = ret False m2 \<and> W m2) \<or>
        all_reports E P this s len c (\<lambda>over. over) (deliver E this s isWrite evs m1)))"

lemma all_waiting_events:
  assumes "keeps P evs"
  shows "\<forall>(hup, g) \<in> set evs. \<forall>m. all_waiting P this s d opr fl buf len c m \<longrightarrow>
      all_waiting P this s d opr fl buf len c (m\<lparr>world := g (world m)\<rparr>)"
  using assms all_waiting_world unfolding keeps_def by fastforce

lemma transfersI:
  assumes "(\<exists>m'. entry = ret () m' \<and> all_waiting P this s d opr fl buf len c m') \<or>
      all_reports E P this s len c (\<lambda>_. True) entry"
    and "is_all opr" "\<not> is_rwv opr" "in_s32 len" "moves E (all_call opr fl d) buf P" "keeps P evs"
  shows "transfers E P this s isWrite len c (all_waiting P this s d opr fl buf len c) entry evs"
  using deliver_steps [OF _ doOperation_all_transfer [OF _ assms(2-5)] all_waiting_events [OF assms(6)]] assms(1)
  unfolding transfers_def by blast

text \<open>When no call fails and no event is a hang-up, the callback only hears that all is done.\<close>

lemma transfers_exactI:
  assumes "(\<exists>m'. entry = ret () m' \<and> all_waiting P this s d opr fl buf len c m') \<or>
      all_reports E (\<lambda>v w. P v w \<and> v = len) this s len c (\<lambda>_. True) entry"
    and opr: "is_all opr" "\<not> is_rwv opr" "in_s32 len" "moves E (all_call opr fl d) buf P" and "keeps P evs"
    and on: "never_ends E (all_call opr fl d) buf len P" and "\<forall>(hup, g) \<in> set evs. \<not> hup"
  shows "transfers E (\<lambda>v w. P v w \<and> v = len) this s isWrite len c (all_waiting P this s d opr fl buf len c) entry evs"
proof -
  let ?W = "all_waiting P this s d opr fl buf len c"
  have step: "(\<exists>m'. File_doOperation E this s isWrite hup m = ret CONTINUE m' \<and> ?W m') \<or>
      all_reports E (\<lambda>v w. P v w \<and> v = len) this s len c (\<lambda>res. res \<noteq> CONTINUE) (File_doOperation E this s isWrite hup m)"
    if "?W m" "\<not> hup" for m hup
    using doOperation_all_exact [OF that(1) opr, of isWrite hup] on that(2) by (blast intro: all_reports_mono)
  have "\<forall>(hup, g) \<in> set evs. \<not> hup \<and> (\<forall>m. ?W m \<longrightarrow> ?W (m\<lparr>world := g (world m)\<rparr>))"
    using all_waiting_events [OF assms(6), of this s d opr fl buf len c] assms(8) by fast
  from deliver_steps_if [where W = ?W and H = "\<lambda>hup. \<not> hup", OF _ step this] assms(1) show ?thesis
    unfolding transfers_def by blast
qed

text \<open>With a kernel that always moves something, \<open>len\<close> events are enough.\<close>

lemma deliver_completes:
  assumes "waiting_at this s d opr fl buf len c k m" and "P k (world m)"
    and opr: "is_all opr" "\<not> is_rwv opr" and len: "in_s32 len"
    and mv: "moves E (all_call opr fl d) buf P"
    and prog: "always_moves E (all_call opr fl d) buf len P"
    and "keeps P evs" and "\<forall>(hup, g) \<in> set evs. \<not> hup" and "len - k \<le> int (length evs)"
  shows "\<exists>w'. reports E this s c len w' True (deliver E this s isWrite evs m) \<and> P len w'"
  using assms(1,2,8-)
proof (induction evs arbitrary: k m)
  case Nil
  then show ?case by (simp add: waiting_at_def)
next
  case (Cons ev evs)
  obtain g where ev: "ev = (False, g)" using Cons.prems(4) by (cases ev) auto
  let ?m = "m\<lparr>world := g (world m)\<rparr>"
  have rest: "keeps P evs" and g: "P k (g (world m))"
    using Cons.prems(2,3) by (auto simp: keeps_def ev)
  have w: "waiting_at this s d opr fl buf len c k ?m"
    using Cons.prems(1) by (simp add: waiting_at_def)
  have "P k (world ?m)" using g by simp
  from doOperation_all_progress [OF w this opr len mv prog, of isWrite]
  show ?case
  proof (elim disjE exE conjE, goal_cases)
    case (1 m1 j)
    then show ?thesis using Cons.IH [of j m1] rest Cons.prems(4,5) by (simp add: ev)
  next
    case (2 w')
    then have "reports E this s c len w' True (deliver E this s isWrite (ev # evs) m)"
      unfolding reports_def by (force simp: ev obind_assoc)
    then show ?thesis using 2 by blast
  qed
qed

section \<open>The entry points that look at the slot late\<close>

lemma try2_then_set_exact:
  assumes free: "op_at m this s = Some opn" "operation opn = Op_none"
    and f: "file_at m this = Some f"
    and mv: "moves E (call (fd f)) buf P" and start: "P 0 (world m)"
    and len: "in_s32 len" "0 < len"
  shows "(\<exists>m'. try2_then_set E this s opr call buf len (Some c) m = ret () m' \<and>
            all_waiting P this s (fd f) opr (rw_flags (readWrite opn)) buf len c m') \<or>
         all_reports E (\<lambda>v w. P v w \<and> (never_ends E (call (fd f)) buf len P \<longrightarrow> v = len)) this s len c (\<lambda>_. True)
           (try2_then_set E this s opr call buf len (Some c) m)"
proof -
  consider (block) k m1 where "tryOperation2_loop E (Some c) (call (fd f)) buf len 0 m = ret k m1"
      "0 \<le> k" "k < len" "P k (world m1)" "heap m1 = heap m"
    | (fin) v m1 where "tryOperation2_loop E (Some c) (call (fd f)) buf len 0 m =
        obind (usr E c v m1) (\<lambda>_ m2. ret (-1) m2)" "v \<le> len" "P (max 0 v) (world m1)" "heap m1 = heap m"
        "never_ends E (call (fd f)) buf len P \<longrightarrow> v = len"
    using tryOperation2_loop_moves [OF mv len(1) order.refl less_imp_le [OF len(2)] start, of c]
    by blast
  then show ?thesis
  proof cases
    case block
    have f1: "file_at m1 this = Some f" and o1: "op_at m1 this s = Some opn"
      using block(5) f free(1) by (simp_all add: file_at_def op_at_def)
    then have "pendingOps f s = opn" by (simp add: op_at_def)
    then show ?thesis using block f f1 o1 free(2)
      by (auto simp: try2_then_set_def with_file_def File_tryOperation2_def when_free_def with_op_Some
          all_waiting_def waiting_at_def file_at_put_op Let_def)
  next
    case fin
    then have "try2_then_set E this s opr call buf len (Some c) m = obind (usr E c v m1) (\<lambda>_ m2. ret () m2)"
      using f by (simp add: try2_then_set_def with_file_def File_tryOperation2_def obind_assoc)
    moreover have "op_at m1 this s = Some opn"
      using fin(4) free(1) by (simp add: op_at_def file_at_def)
    moreover have "never_ends E (call (fd f)) buf len P \<longrightarrow> max 0 v = len" using fin(5) len(2) by (auto simp: max_def)
    ultimately show ?thesis using fin(2,3) free(2) unfolding all_reports_def reports_def by blast
  qed
qed

lemma try2_then_set_transfer:
  assumes "op_at m this s = Some opn" "operation opn = Op_none" and "file_at m this = Some f"
    and "moves E (call (fd f)) buf P" and "P 0 (world m)" and "in_s32 len" "0 < len"
  shows "(\<exists>m'. try2_then_set E this s opr call buf len (Some c) m = ret () m' \<and>
            all_waiting P this s (fd f) opr (rw_flags (readWrite opn)) buf len c m') \<or>
         all_reports E P this s len c (\<lambda>_. True) (try2_then_set E this s opr call buf len (Some c) m)"
  using try2_then_set_exact [where call = call and P = P and c = c and opr = opr, OF assms]
  by (blast intro: all_reports_mono)

lemma read_start: "read_so_far inp mem buf (w0 :: 'w) 0 w0"
  by (simp add: read_so_far_def)

lemma written_start: "written_so_far outp mem buf (w0 :: 'w) 0 w0"
  by (simp add: written_so_far_def load_bytes_def)

lemma all_ops [simp]:
  "is_all Op_readAll" "is_all Op_writeAll" "is_all Op_recvAll" "is_all Op_sendAll"
  "\<not> is_rwv Op_readAll" "\<not> is_rwv Op_writeAll" "\<not> is_rwv Op_recvAll" "\<not> is_rwv Op_sendAll"
  by (simp_all add: less_eq_Operations_def is_rwv_def)

lemma all_call_flags: 
  "all_call Op_recvAll fl d = (\<lambda>b n. Sys_recv d b n fl)"
  "all_call Op_sendAll fl d = (\<lambda>b n. Sys_send d b n fl)"
  by (simp_all add: all_call_def fun_eq_iff)

section \<open>Transfers\<close>

text \<open>\<open>sendAll\<close>, for C6 and for the proxy; the second part when no \<open>send\<close> fails and no event is an error.\<close>

lemma sendAll_outcome:
  assumes "file_at m this = Some f" and "operation (pendingOps f Wr) = Op_none"
    and "writes_to E (\<lambda>b n. Sys_send (fd f) b n flags) outp mem"
    and "fl = rw_flags (readWrite (pendingOps f Wr))"
    and "writes_to E (\<lambda>b n. Sys_send (fd f) b n fl) outp mem"
    and "in_s32 len" and "0 < len" and "harmless outp mem evs" and P: "P = written_so_far outp mem buf (world m)"
  shows "transfers E P this Wr True len c (all_waiting P this Wr (fd f) Op_sendAll fl buf len c)
      (File_sendAll E this buf len flags (Some c) m) evs"
    and "never_ends E (\<lambda>b n. Sys_send (fd f) b n flags) buf len P \<Longrightarrow>
      never_ends E (\<lambda>b n. Sys_send (fd f) b n fl) buf len P \<Longrightarrow> \<forall>(hup, g) \<in> set evs. \<not> hup \<Longrightarrow>
      transfers E (\<lambda>v w. P v w \<and> v = len) this Wr True len c (all_waiting P this Wr (fd f) Op_sendAll fl buf len c)
        (File_sendAll E this buf len flags (Some c) m) evs"
proof -
  have start: "P 0 (world m)" unfolding P by (rule written_start)
  have mv: "moves E (\<lambda>b n. Sys_send (fd f) b n flags) buf P" "moves E (all_call Op_sendAll fl (fd f)) buf P"
    unfolding P all_call_flags using assms(3,5) by (simp_all add: writes_to_moves)
  have keep: "keeps P evs" unfolding P using assms(8) by (rule keeps_written)
  note entry = op_at_file [OF assms(1)] assms(2,1) mv(1) start assms(6,7)
  show "transfers E P this Wr True len c (all_waiting P this Wr (fd f) Op_sendAll fl buf len c)
      (File_sendAll E this buf len flags (Some c) m) evs"
    unfolding File_sendAll_def
    using try2_then_set_transfer [where call = "\<lambda>d b n. Sys_send d b n flags" and opr = Op_sendAll and c = c, OF entry]
      assms(4,6) mv(2) keep by (intro transfersI) auto
  assume "never_ends E (\<lambda>b n. Sys_send (fd f) b n flags) buf len P"
    and "never_ends E (\<lambda>b n. Sys_send (fd f) b n fl) buf len P" and "\<forall>(hup, g) \<in> set evs. \<not> hup"
  then show "transfers E (\<lambda>v w. P v w \<and> v = len) this Wr True len c
      (all_waiting P this Wr (fd f) Op_sendAll fl buf len c) (File_sendAll E this buf len flags (Some c) m) evs"
    unfolding File_sendAll_def
    using try2_then_set_exact [where call = "\<lambda>d b n. Sys_send d b n flags" and opr = Op_sendAll and c = c, OF entry]
      assms(4,6) mv(2) keep by (intro transfers_exactI) (auto simp: all_call_flags elim!: all_reports_mono)
qed

text \<open>
  C3. \<open>readAll\<close> on a stream, with any number of readiness events after it: either the callback
  is called, once, with the slot free, at most \<open>len\<close>, and with a positive value \<open>v\<close> the first
  \<open>v\<close> bytes of the stream are in the buffer, in order, and exactly they are gone from the stream
  (a value \<open>v \<le> 0\<close>: none is); or the operation still waits, and the bytes read so far are the
  \<open>lenDone\<close> that it has recorded.
\<close>

theorem readAll_transfers:
  assumes "file_at m this = Some f" and "operation (pendingOps f Rd) = Op_none"
    and "reads_from E (Sys_read (fd f)) inp mem"
    and "in_s32 len" and "0 < len" and "harmless inp mem evs"
  shows "transfers E (read_so_far inp mem buf (world m)) this Rd False len c
    (all_waiting (read_so_far inp mem buf (world m)) this Rd (fd f) Op_readAll 0 buf len c)
    (File_readAll E this buf len (Some c) m) evs"
  unfolding File_readAll_def
  using assms try2_then_add_transfer [where call = Sys_read, OF op_at_file [OF assms(1)] assms(2,1)
      reads_from_moves [OF assms(3)] read_start assms(4,5)] reads_from_moves [OF assms(3)]
  by (intro transfersI keeps_read) auto

theorem readAll_transfers_witness:
  "transfers pipe_env (read_so_far incoming memory 100 (pipe_world [2, -1, 1] [7, 8, 9])) 1 Rd False 3 Log
     (all_waiting (read_so_far incoming memory 100 (pipe_world [2, -1, 1] [7, 8, 9])) 1 Rd 5 Op_readAll 0 100 3 Log)
     (File_readAll pipe_env 1 100 3 (Some Log)
       (pipe_machine empty_op empty_op 1 (pipe_world [2, -1, 1] [7, 8, 9]))) [(False, id)]"
  using readAll_transfers [where m = "pipe_machine empty_op empty_op 1 (pipe_world [2, -1, 1] [7, 8, 9])"
      and this = 1 and f = "pipe_file 5 empty_op empty_op" and E = pipe_env and inp = incoming
      and mem = memory and len = 3 and evs = "[(False, id)]" and c = Log and buf = 100]
  by (simp add: pipe_reads in_s32_def harmless_def)

text \<open>
  C4. \<open>writeAll\<close> in the same way: a callback with \<open>v > 0\<close> means that the first \<open>v\<close> bytes of the
  buffer have been appended to the stream, each once and in order, and nothing else has.
\<close>

theorem writeAll_transfers:
  assumes "file_at m this = Some f" and "operation (pendingOps f Wr) = Op_none"
    and "writes_to E (Sys_write (fd f)) outp mem"
    and "in_s32 len" and "0 < len" and "harmless outp mem evs"
  shows "transfers E (written_so_far outp mem buf (world m)) this Wr True len c
    (all_waiting (written_so_far outp mem buf (world m)) this Wr (fd f) Op_writeAll 0 buf len c)
    (File_writeAll E this buf len (Some c) m) evs"
  unfolding File_writeAll_def
  using assms try2_then_add_transfer [where call = Sys_write, OF op_at_file [OF assms(1)] assms(2,1)
      writes_to_moves [OF assms(3)] written_start assms(4,5)] writes_to_moves [OF assms(3)]
  by (intro transfersI keeps_written) auto

theorem writeAll_transfers_witness:
  "transfers pipe_env (written_so_far outgoing memory 64 (pipe_world [2, -1, 1] [])) 1 Wr True 3 Log
     (all_waiting (written_so_far outgoing memory 64 (pipe_world [2, -1, 1] [])) 1 Wr 5 Op_writeAll 0 64 3 Log)
     (File_writeAll pipe_env 1 64 3 (Some Log)
       (pipe_machine empty_op empty_op 4 (pipe_world [2, -1, 1] []))) [(False, id)]"
  using writeAll_transfers [where m = "pipe_machine empty_op empty_op 4 (pipe_world [2, -1, 1] [])"
      and this = 1 and f = "pipe_file 5 empty_op empty_op" and E = pipe_env and outp = outgoing
      and mem = memory and len = 3 and evs = "[(False, id)]" and c = Log and buf = 64]
  by (simp add: pipe_writes in_s32_def harmless_def)

text \<open>
  C5. \<open>recvAll\<close>: the same promise, for a slot that is free. The events use the flags that the
  slot's last operation has left there, not the caller's, so those must read the stream too.
\<close>

theorem recvAll_transfers:
  assumes "file_at m this = Some f" and "operation (pendingOps f Rd) = Op_none"
    and "reads_from E (\<lambda>b n. Sys_recv (fd f) b n flags) inp mem"
    and "fl = rw_flags (readWrite (pendingOps f Rd))"
    and "reads_from E (\<lambda>b n. Sys_recv (fd f) b n fl) inp mem"
    and "in_s32 len" and "0 < len" and "harmless inp mem evs"
  shows "transfers E (read_so_far inp mem buf (world m)) this Rd False len c
    (all_waiting (read_so_far inp mem buf (world m)) this Rd (fd f) Op_recvAll fl buf len c)
    (File_recvAll E this buf len flags (Some c) m) evs"
  unfolding File_recvAll_def
  using assms try2_then_set_transfer [where call = "\<lambda>d b n. Sys_recv d b n flags",
      OF op_at_file [OF assms(1)] assms(2,1) reads_from_moves [OF assms(3)] read_start assms(6,7)]
    reads_from_moves [OF assms(5)]
  by (intro transfersI keeps_read) (auto simp: all_call_flags)

theorem recvAll_transfers_witness:
  "transfers pipe_env (read_so_far incoming memory 100 (pipe_world [1, -1, 2] [7, 8, 9])) 1 Rd False 3 Log
     (all_waiting (read_so_far incoming memory 100 (pipe_world [1, -1, 2] [7, 8, 9])) 1 Rd 5 Op_recvAll 0 100 3 Log)
     (File_recvAll pipe_env 1 100 3 64 (Some Log)
       (pipe_machine empty_op empty_op 1 (pipe_world [1, -1, 2] [7, 8, 9]))) [(True, id)]"
  using recvAll_transfers [where m = "pipe_machine empty_op empty_op 1 (pipe_world [1, -1, 2] [7, 8, 9])"
      and this = 1 and f = "pipe_file 5 empty_op empty_op" and E = pipe_env and inp = incoming and flags = 64
      and mem = memory and len = 3 and evs = "[(True, id)]" and c = Log and buf = 100 and fl = 0]
  by (simp add: pipe_reads in_s32_def harmless_def) (simp add: empty_op_def)

text \<open>
  C6. \<open>sendAll\<close>: as \<open>writeAll\<close>, with the flags as in \<open>recvAll\<close>.
\<close>

theorem sendAll_transfers:
  assumes "file_at m this = Some f" and "operation (pendingOps f Wr) = Op_none"
    and "writes_to E (\<lambda>b n. Sys_send (fd f) b n flags) outp mem"
    and "fl = rw_flags (readWrite (pendingOps f Wr))"
    and "writes_to E (\<lambda>b n. Sys_send (fd f) b n fl) outp mem"
    and "in_s32 len" and "0 < len" and "harmless outp mem evs"
  shows "transfers E (written_so_far outp mem buf (world m)) this Wr True len c
    (all_waiting (written_so_far outp mem buf (world m)) this Wr (fd f) Op_sendAll fl buf len c)
    (File_sendAll E this buf len flags (Some c) m) evs"
  using assms by (intro sendAll_outcome(1)) auto

theorem sendAll_transfers_witness:
  "transfers pipe_env (written_so_far outgoing memory 64 (pipe_world [1, -1, 2] [])) 1 Wr True 3 Log
     (all_waiting (written_so_far outgoing memory 64 (pipe_world [1, -1, 2] [])) 1 Wr 5 Op_sendAll 0 64 3 Log)
     (File_sendAll pipe_env 1 64 3 16384 (Some Log)
       (pipe_machine empty_op empty_op 4 (pipe_world [1, -1, 2] []))) [(False, id)]"
  using sendAll_transfers [where m = "pipe_machine empty_op empty_op 4 (pipe_world [1, -1, 2] [])"
      and this = 1 and f = "pipe_file 5 empty_op empty_op" and E = pipe_env and outp = outgoing
      and flags = 16384 and mem = memory and len = 3 and evs = "[(False, id)]" and c = Log and buf = 64
      and fl = 0]
  by (simp add: pipe_writes in_s32_def harmless_def) (simp add: empty_op_def)

text \<open>
  When the stream has the \<open>len\<close> bytes, every call on it returns some, and no event is a hang-up,
  a waiting \<open>readAll\<close> with \<open>k\<close> bytes done calls its callback after at most \<open>len - k\<close> readiness
  events, with exactly \<open>len\<close>, the slot free, and all \<open>len\<close> bytes in the buffer.
\<close>

lemma readAll_completes:
  assumes "waiting_at this Rd d Op_readAll fl buf len c k m" and "read_so_far inp mem buf w0 k (world m)"
    and "reads_from E (Sys_read d) inp mem" and "data_ready E (Sys_read d) inp"
    and "len \<le> int (length (inp w0))" and "in_s32 len" and "harmless inp mem evs"
    and "\<forall>(hup, g) \<in> set evs. \<not> hup" and "len - k \<le> int (length evs)"
  shows "\<exists>w'. reports E this Rd c len w' True (deliver E this Rd False evs m) \<and>
    read_so_far inp mem buf w0 len w'"
  using assms deliver_completes [where P = "read_so_far inp mem buf w0",
      OF assms(1,2) all_ops(1,5) assms(6), of E evs False]
    reads_from_moves [OF assms(3)] keeps_read [OF assms(7)] data_ready_moves [OF assms(4,5)] by simp

definition byte_at_a_time :: "(pipe, user_code) env" where
  "byte_at_a_time = pipe_env\<lparr>sys := (\<lambda>c w. pipe_sys c (w\<lparr>script := [1]\<rparr>))\<rparr>"

lemma byte_at_a_time_ok:
  "reads_from byte_at_a_time (Sys_read d) incoming memory" "data_ready byte_at_a_time (Sys_read d) incoming"
  by (auto simp: byte_at_a_time_def reads_from_def data_ready_def pipe_read_def Let_def allowance_def
      min_def split: if_splits)

lemma readAll_completes_at_pipe:
  "\<exists>w'. reports byte_at_a_time 1 Rd Log 3 w' True (deliver byte_at_a_time 1 Rd False
      [(False, id), (False, id), (False, id)]
      (pipe_machine (pending Op_readAll 100 3 0 False Log) empty_op 1 (pipe_world [] [7, 8, 9, 10]))) \<and>
    read_so_far incoming memory 100 (pipe_world [] [7, 8, 9, 10]) 3 w'"
  by (rule readAll_completes [where d = 5 and k = 0 and fl = 0])
    (auto simp: byte_at_a_time_ok harmless_def in_s32_def waiting_at_def read_so_far_def pipe_world_def)

end
