(* ===== verification/CPoll_Vector.thy ===== *)
theory CPoll_Vector
  imports CPoll_Sessions
begin

text \<open>
  \<open>readvAll\<close> and \<open>writevAll\<close> after a partial transfer: the code drops the completed buffers from
  the user's array and shortens the first remaining one. Seen as the list of the addresses of
  all its bytes, the array loses exactly the bytes that were moved.
\<close>

section \<open>The bytes of an array of buffers\<close>

definition buffer_cells :: "iovec \<Rightarrow> addr list" where
  "buffer_cells v = map (\<lambda>i. iov_base v + int i) [0..<nat (iov_len v)]"

definition cells :: "iovec list \<Rightarrow> addr list" where
  "cells vs = concat (map buffer_cells vs)"

definition buffers :: "(addr \<Rightarrow> iovec) \<Rightarrow> addr \<Rightarrow> int \<Rightarrow> iovec list" where
  "buffers mem iov n = map (\<lambda>i. mem (iov + int i)) [0..<nat n]"

lemma iov_slice_buffers: "iov_slice m iov n = buffers (iovs m) iov n"
  by (simp add: iov_slice_def buffers_def)

lemma length_buffer_cells [simp]: "length (buffer_cells v) = nat (iov_len v)"
  by (simp add: buffer_cells_def)

lemma cells_simps [simp]: "cells [] = []" "cells (v # vs) = buffer_cells v @ cells vs"
  by (simp_all add: cells_def)

lemma buffers_empty [simp]: "n \<le> 0 \<Longrightarrow> buffers mem iov n = []"
  by (simp add: buffers_def)

lemma buffers_Cons: "0 < n \<Longrightarrow> buffers mem iov n = mem iov # buffers mem (iov + 1) (n - 1)"
proof -
  assume "0 < n"
  then have "nat n = Suc (nat (n - 1))" by simp
  then have "[0..<nat n] = 0 # map Suc [0..<nat (n - 1)]" by (simp add: upt_conv_Cons map_Suc_upt del: upt_Suc)
  then show ?thesis by (simp add: buffers_def algebra_simps)
qed

lemma buffers_other: "iov < j \<Longrightarrow> buffers (mem(iov := v)) j n = buffers mem j n"
  by (simp add: buffers_def)

lemma drop_buffer_cells:
  assumes "0 \<le> r" and "r \<le> iov_len v"
  shows "drop (nat r) (buffer_cells v) =
    buffer_cells (v\<lparr>iov_base := iov_base v + r, iov_len := iov_len v - r\<rparr>)"
proof (rule nth_equalityI)
  show "length (drop (nat r) (buffer_cells v)) =
      length (buffer_cells (v\<lparr>iov_base := iov_base v + r, iov_len := iov_len v - r\<rparr>))"
    using assms by (simp add: nat_diff_distrib)
qed (use assms in \<open>simp add: buffer_cells_def nat_diff_distrib\<close>)

section \<open>Advancing the array\<close>

lemma skip_completed_cells:
  assumes "skip_completed mem iov n r = (iov', n', r')"
    and "0 \<le> r" and "\<forall>v \<in> set (buffers mem iov n). 0 \<le> iov_len v"
  shows "0 \<le> r' \<and> drop (nat r') (cells (buffers mem iov' n')) = drop (nat r) (cells (buffers mem iov n)) \<and>
    (0 < n' \<longrightarrow> r' < iov_len (mem iov')) \<and>
    (\<forall>v \<in> set (buffers mem iov' n'). 0 \<le> iov_len v) \<and>
    (r \<le> int (length (cells (buffers mem iov n))) \<longrightarrow> r' \<le> int (length (cells (buffers mem iov' n'))))"
  using assms
proof (induction mem iov n r rule: skip_completed.induct)
  case (1 mem iov n r)
  show ?case
  proof (cases "0 < n \<and> iov_len (mem iov) \<le> r")
    case True
    have eq: "skip_completed mem (iov + 1) (n - 1) (r - iov_len (mem iov)) = (iov', n', r')"
      using 1(2) True by (simp add: skip_completed.simps [of mem iov n])
    have l: "0 \<le> iov_len (mem iov)" using 1(4) True by (simp add: buffers_Cons)
    have ih: "0 \<le> r' \<and> drop (nat r') (cells (buffers mem iov' n')) =
        drop (nat (r - iov_len (mem iov))) (cells (buffers mem (iov + 1) (n - 1))) \<and>
      (0 < n' \<longrightarrow> r' < iov_len (mem iov')) \<and> (\<forall>v \<in> set (buffers mem iov' n'). 0 \<le> iov_len v) \<and>
      (r - iov_len (mem iov) \<le> int (length (cells (buffers mem (iov + 1) (n - 1)))) \<longrightarrow>
        r' \<le> int (length (cells (buffers mem iov' n'))))"
      using 1(1) [OF True eq] 1(4) True by (simp add: buffers_Cons)
    have "nat (iov_len (mem iov)) \<le> nat r" using True by (simp add: nat_mono)
    then show ?thesis using True l ih
      by (simp add: buffers_Cons [of n mem iov] nat_diff_distrib)
  next
    case False
    then have "iov' = iov" "n' = n" "r' = r"
      using 1(2) by (auto simp: skip_completed.simps [of mem iov n])
    then show ?thesis using 1(3,4) False by auto
  qed
qed

lemma advance_iov_cells:
  assumes adv: "advance_iov mem iov n r = (mem', iov', n')"
    and r: "0 \<le> r" "r \<le> int (length (cells (buffers mem iov n)))"
    and nonneg: "\<forall>v \<in> set (buffers mem iov n). 0 \<le> iov_len v"
  shows "cells (buffers mem' iov' n') = drop (nat r) (cells (buffers mem iov n))"
    and "\<forall>v \<in> set (buffers mem' iov' n'). 0 \<le> iov_len v"
proof -
  obtain r' where sk: "skip_completed mem iov n r = (iov', n', r')"
    and m': "mem' = (if 0 < n' then mem(iov' := (mem iov')\<lparr>iov_base := iov_base (mem iov') + r',
        iov_len := iov_len (mem iov') - r'\<rparr>) else mem)"
    using adv by (auto simp: advance_iov_def split: prod.splits if_splits)
  note s = skip_completed_cells [OF sk r(1) nonneg]
  have "cells (buffers mem' iov' n') = drop (nat r) (cells (buffers mem iov n)) \<and>
      (\<forall>v \<in> set (buffers mem' iov' n'). 0 \<le> iov_len v)"
  proof (cases "0 < n'")
    case True
    let ?v = "(mem iov')\<lparr>iov_base := iov_base (mem iov') + r', iov_len := iov_len (mem iov') - r'\<rparr>"
    have tail: "buffers mem' (iov' + 1) (n' - 1) = buffers mem (iov' + 1) (n' - 1)"
      using True m' by (simp add: buffers_other)
    have z: "nat r' - nat (iov_len (mem iov')) = 0" using True s by (simp add: nat_le_eq_zle)
    have "drop (nat r') (cells (buffers mem iov' n')) = cells (buffers mem' iov' n')"
      using True s m' tail drop_buffer_cells [of r' "mem iov'"] z by (simp add: buffers_Cons)
    then show ?thesis using True s m' tail by (simp add: buffers_Cons)
  next
    case False
    then have "r' = 0" using s r by simp
    then show ?thesis using False s by simp
  qed
  then show "cells (buffers mem' iov' n') = drop (nat r) (cells (buffers mem iov n))"
    and "\<forall>v \<in> set (buffers mem' iov' n'). 0 \<le> iov_len v" by blast+
qed

section \<open>One event\<close>

text \<open>
  A registered \<open>readvAll\<close> or \<open>writevAll\<close> with \<open>k\<close> bytes done, whose array now consists of the
  buffers \<open>vs\<close>: they have room for exactly what is left.
\<close>

definition waiting_v ::
  "ptr \<Rightarrow> slot \<Rightarrow> int \<Rightarrow> Operations \<Rightarrow> 'cb \<Rightarrow> int \<Rightarrow> iovec list \<Rightarrow> ('w, 'cb) machine \<Rightarrow> bool" where
  "waiting_v this s d opr c k vs m \<longleftrightarrow> 0 \<le> k \<and> (\<forall>v \<in> set vs. 0 \<le> iov_len v) \<and> cells vs \<noteq> [] \<and>
     (\<exists>f. file_at m this = Some f \<and> fd f = d \<and>
       (let opn = pendingOps f s; info = readWriteV opn in
          operation opn = opr \<and> \<not> repeating opn \<and> op_cb opn = Some c \<and> rwv_lenDone info = k \<and>
          iov_slice m (rwv_iov info) (rwv_iovcnt info) = vs \<and>
          rwv_lenTotal info = k + int (length (cells vs))))"

definition vec_call :: "Operations \<Rightarrow> int \<Rightarrow> iovec list \<Rightarrow> syscall" where
  "vec_call opr d vs = (if opr = Op_readvAll then Sys_readv d vs else Sys_writev d vs)"

lemma is_rwv_all: "is_rwv opr \<Longrightarrow> is_all opr"
  by (auto simp: is_rwv_def less_eq_Operations_def)

lemma doOperation_vector_step:
  assumes wait: "waiting_v this s d opr c k vs m" and opr: "is_rwv opr"
    and len: "in_s32 (k + int (length (cells vs)))"
    and call: "run_call E (vec_call opr d vs) m = (r, m1)"
    and r: "0 < r \<longrightarrow> nat r \<le> length (cells vs)"
  shows "if r < 0 \<and> isWouldBlock m1 then
           \<exists>m'. File_doOperation E this s isWrite hup m = ret CONTINUE m' \<and> world m' = world m1 \<and>
             waiting_v this s d opr c k vs m'
         else if r \<le> 0 then
           reports E this s c (if k = 0 then r else k) (world m1) DONE_PERMANENT
             (File_doOperation E this s isWrite hup m)
         else if nat r = length (cells vs) \<or> hup then
           reports E this s c (k + r) (world m1) DONE (File_doOperation E this s isWrite hup m)
         else \<exists>m' vs'. File_doOperation E this s isWrite hup m = ret CONTINUE m' \<and> world m' = world m1 \<and>
             cells vs' = drop (nat r) (cells vs) \<and> waiting_v this s d opr c (k + r) vs' m'"
proof -
  obtain f where f: "file_at m this = Some f" "fd f = d" and o: "operation (pendingOps f s) = opr"
      "\<not> repeating (pendingOps f s)" "op_cb (pendingOps f s) = Some c"
    and i: "rwv_lenDone (readWriteV (pendingOps f s)) = k"
      "iov_slice m (rwv_iov (readWriteV (pendingOps f s))) (rwv_iovcnt (readWriteV (pendingOps f s))) = vs"
      "rwv_lenTotal (readWriteV (pendingOps f s)) = k + int (length (cells vs))"
    and k: "0 \<le> k" "\<forall>v \<in> set vs. 0 \<le> iov_len v" "cells vs \<noteq> []"
    using wait unfolding waiting_v_def Let_def by blast
  have att: "all_attempt E (fd f) (pendingOps f s) m = Some (r, m1)"
    using opr o(1) call f(2) i(2) by (auto simp: all_attempt_def Let_def is_rwv_def vec_call_def)
  obtain o1 mem' where rec: "all_record (pendingOps f s) r (iovs m1) = (o1, mem')"
    by (cases "all_record (pendingOps f s) r (iovs m1)")
  have lens: "op_lenDone (pendingOps f s) = k" "op_lenTotal (pendingOps f s) = k + int (length (cells vs))"
    using opr o(1) i by (simp_all add: op_lenDone_def op_lenTotal_def)
  note eq = doOperation_all [OF f(1) refl _ o(2) att rec, unfolded o lens, OF is_rwv_all [OF opr],
      of isWrite hup]
  have fm1: "file_at m1 this = Some f" and iovs1: "iovs m1 = iovs m"
    using run_call_frame [OF call] f(1) by simp_all
  have free: "\<exists>opn. op_at (put_op this s x m1) this s = Some opn \<and> operation opn = Op_none"
    if "operation x = Op_none" for x using that op_at_file [OF fm1] by simp
  have kr: "s32 (k + r) = k + r" "r \<le> int (length (cells vs))" if "0 < r"
    using that r k len by (auto intro!: s32_id simp: in_s32_def nat_le_iff)
  have fin: "k + int (length (cells vs)) \<le> k + r \<longleftrightarrow> nat r = length (cells vs)" if "0 < r"
    using kr(2) [OF that] that by auto
  consider (block) "r < 0 \<and> isWouldBlock m1"
    | (stop) "\<not> (r < 0 \<and> isWouldBlock m1)" "r \<le> 0"
    | (finish) "0 < r" "nat r = length (cells vs) \<or> hup"
    | (more) "0 < r" "\<not> (nat r = length (cells vs) \<or> hup)" by linarith
  then show ?thesis
  proof cases
    case block
    have "waiting_v this s d opr c k vs
        (put_op this s ((pendingOps f s)\<lparr>skipSynchronousAttempt := False\<rparr>) m1)"
      using fm1 f(2) o i k iovs1 unfolding waiting_v_def
      by (auto simp: file_at_put_op Let_def iov_slice_buffers)
    then show ?thesis using block unfolding eq by simp
  next
    case stop
    have "reports E this s c (if k = 0 then r else k) (world m1) DONE_PERMANENT
        (File_doOperation E this s isWrite hup m)"
      by (rule reportsI [where m' = "put_op this s ((pendingOps f s)\<lparr>skipSynchronousAttempt := False,
            operation := Op_none\<rparr>) m1"]) (use stop free in \<open>auto simp: eq\<close>)
    then show ?thesis using stop by auto
  next
    case finish
    have "reports E this s c (k + r) (world m1) DONE (File_doOperation E this s isWrite hup m)"
      by (rule reportsI [where m' = "put_op this s (o1\<lparr>skipSynchronousAttempt := False,
            operation := Op_none\<rparr>) (m1\<lparr>iovs := mem'\<rparr>)"])
        (use finish free fin kr in \<open>auto simp: eq Let_def\<close>)
    then show ?thesis using finish by simp
  next
    case more
    let ?i = "readWriteV (pendingOps f s)"
    obtain iov' n' where adv: "advance_iov (iovs m) (rwv_iov ?i) (rwv_iovcnt ?i) r = (mem', iov', n')"
      and o1: "o1 = (pendingOps f s)\<lparr>readWriteV := ?i\<lparr>rwv_lenDone := s32 (k + r), rwv_iov := iov',
          rwv_iovcnt := n'\<rparr>\<rparr>"
      using rec opr o(1) i(1) iovs1 by (auto simp: all_record_def split: prod.splits)
    have vs: "buffers (iovs m) (rwv_iov ?i) (rwv_iovcnt ?i) = vs" using i(2) by (simp add: iov_slice_buffers)
    have adv': "cells (buffers mem' iov' n') = drop (nat r) (cells vs)"
      "\<forall>v \<in> set (buffers mem' iov' n'). 0 \<le> iov_len v"
      using advance_iov_cells [OF adv, unfolded vs, OF less_imp_le [OF more(1)] kr(2) [OF more(1)] k(2)]
      by blast+
    let ?vs' = "buffers mem' iov' n'" and ?x = "o1\<lparr>skipSynchronousAttempt := False\<rparr>"
    let ?m = "put_op this s ?x (m1\<lparr>iovs := mem'\<rparr>)"
    have f': "file_at ?m this = Some (f\<lparr>pendingOps := (pendingOps f)(s := ?x)\<rparr>)"
      using fm1 by (simp add: file_at_put_op)
    have n: "nat r < length (cells vs)" and pos: "0 \<le> k + r"
      using more kr(2) k(1) by (auto simp: nat_less_iff le_less)
    have l: "k + r + int (length (cells ?vs')) = k + int (length (cells vs))"
      using more(1) kr(2) by (simp add: adv'(1))
    have "cells ?vs' \<noteq> []" using n by (simp add: adv'(1))
    moreover have "operation ?x = opr" "\<not> repeating ?x" "op_cb ?x = Some c"
      "rwv_lenDone (readWriteV ?x) = k + r" "rwv_lenTotal (readWriteV ?x) = k + r + int (length (cells ?vs'))"
      "iov_slice ?m (rwv_iov (readWriteV ?x)) (rwv_iovcnt (readWriteV ?x)) = ?vs'"
      using o i(3) kr(1) more(1) l by (simp_all add: o1 iov_slice_buffers)
    ultimately have "waiting_v this s d opr c (k + r) ?vs' ?m"
      unfolding waiting_v_def Let_def using f' f(2) adv'(2) pos
      by (intro conjI exI [where x = "f\<lparr>pendingOps := (pendingOps f)(s := ?x)\<rparr>"]) simp_all
    moreover have "File_doOperation E this s isWrite hup m = ret CONTINUE ?m"
      using more kr(1) fin unfolding eq by simp
    moreover have "world ?m = world m1" by simp
    ultimately show ?thesis using more adv'(1) by auto
  qed
qed

section \<open>Whole transfers\<close>

text \<open>
  As \<open>moves\<close>, for the array \<open>cs\<close> of byte addresses of the caller's buffers: a call on the
  buffers that are left moves at most what they hold.
\<close>

definition moves_v ::
  "('w, 'cb) env \<Rightarrow> (iovec list \<Rightarrow> syscall) \<Rightarrow> addr list \<Rightarrow> (int \<Rightarrow> 'w \<Rightarrow> bool) \<Rightarrow> bool" where
  "moves_v E call cs P \<longleftrightarrow> (\<forall>k vs w r e w'. 0 \<le> k \<longrightarrow> cells vs = drop (nat k) cs \<longrightarrow> P k w \<longrightarrow>
     sys E (call vs) w = ((r, e), w') \<longrightarrow>
     (if 0 < r then nat r \<le> length (cells vs) \<and> P (k + r) w' else P k w'))"

definition all_waiting_v ::
  "(int \<Rightarrow> 'w \<Rightarrow> bool) \<Rightarrow> ptr \<Rightarrow> slot \<Rightarrow> int \<Rightarrow> Operations \<Rightarrow> addr list \<Rightarrow> 'cb \<Rightarrow> ('w, 'cb) machine \<Rightarrow> bool"
where
  "all_waiting_v P this s d opr cs c m \<longleftrightarrow> (\<exists>k vs. waiting_v this s d opr c k vs m \<and>
     cells vs = drop (nat k) cs \<and> P k (world m))"

lemma all_waiting_v_total:
  assumes "waiting_v this s d opr c k vs m" and "cells vs = drop (nat k) cs"
  shows "k + int (length (cells vs)) = int (length cs)"
proof -
  have "0 \<le> k" and "nat k < length cs" using assms by (auto simp: waiting_v_def)
  then show ?thesis by (simp add: assms(2) nat_less_iff)
qed

lemma doOperation_vector_transfer:
  assumes wait: "all_waiting_v P this s d opr cs c m" and opr: "is_rwv opr"
    and len: "in_s32 (int (length cs))" and mv: "moves_v E (vec_call opr d) cs P"
  shows "(\<exists>m'. File_doOperation E this s isWrite hup m = ret CONTINUE m' \<and>
            all_waiting_v P this s d opr cs c m') \<or>
         all_reports E P this s (int (length cs)) c (\<lambda>res. res \<noteq> CONTINUE)
           (File_doOperation E this s isWrite hup m)"
proof -
  obtain k vs where w: "waiting_v this s d opr c k vs m" and vs: "cells vs = drop (nat k) cs"
    and P: "P k (world m)" using wait unfolding all_waiting_v_def by blast
  then have k: "0 \<le> k" by (simp add: waiting_v_def)
  note total = all_waiting_v_total [OF w vs]
  obtain r m1 where c: "run_call E (vec_call opr d vs) m = (r, m1)"
    by (cases "run_call E (vec_call opr d vs) m")
  have st: "if 0 < r then nat r \<le> length (cells vs) \<and> P (k + r) (world m1) else P k (world m1)"
    using mv k vs P run_call_world [OF c] unfolding moves_v_def by metis
  then have "0 < r \<longrightarrow> nat r \<le> length (cells vs)" by simp
  note step = doOperation_vector_step [OF w opr _ c this, unfolded total, OF len, of isWrite hup]
  have kr: "k + r \<le> int (length cs)" if "0 < r"
    using that st total by (simp add: nat_le_iff split: if_splits)
  have repI: "all_reports E P this s (int (length cs)) c (\<lambda>res. res \<noteq> CONTINUE)
      (File_doOperation E this s isWrite hup m)"
    if "reports E this s c v (world m1) a (File_doOperation E this s isWrite hup m)" "a \<noteq> CONTINUE"
      "v \<le> int (length cs)" "P (max 0 v) (world m1)" for v a
    using that unfolding all_reports_def by blast
  consider (block) "r < 0 \<and> isWouldBlock m1"
    | (stop) "\<not> (r < 0 \<and> isWouldBlock m1)" "r \<le> 0"
    | (finish) "0 < r" "nat r = length (cells vs) \<or> hup"
    | (more) "0 < r" "\<not> (nat r = length (cells vs) \<or> hup)" by linarith
  then show ?thesis
  proof cases
    case block
    then obtain m' where "File_doOperation E this s isWrite hup m = ret CONTINUE m'"
        "world m' = world m1" "waiting_v this s d opr c k vs m'" using step by auto
    moreover have "P k (world m1)" using block st by simp
    ultimately show ?thesis using vs unfolding all_waiting_v_def by metis
  next
    case stop
    have "all_reports E P this s (int (length cs)) c (\<lambda>res. res \<noteq> CONTINUE)
        (File_doOperation E this s isWrite hup m)"
      by (rule repI [where v = "if k = 0 then r else k" and a = DONE_PERMANENT])
        (use stop step st k total in \<open>auto simp: max_def\<close>)
    then show ?thesis ..
  next
    case finish
    have "all_reports E P this s (int (length cs)) c (\<lambda>res. res \<noteq> CONTINUE)
        (File_doOperation E this s isWrite hup m)"
      by (rule repI [where v = "k + r" and a = DONE])
        (use finish step st k kr in \<open>auto simp: max_def\<close>)
    then show ?thesis ..
  next
    case more
    then obtain m' vs' where m': "File_doOperation E this s isWrite hup m = ret CONTINUE m'"
        "world m' = world m1" "cells vs' = drop (nat r) (cells vs)" "waiting_v this s d opr c (k + r) vs' m'"
      using step by auto
    have "all_waiting_v P this s d opr cs c m'"
      using m' more st vs k unfolding all_waiting_v_def
      by (intro exI [where x = "k + r"] exI [where x = vs']) (auto simp: nat_add_distrib add.commute)
    then show ?thesis using m'(1) by blast
  qed
qed

lemma all_waiting_v_world:
  assumes "all_waiting_v P this s d opr cs c m" and "\<And>k w. P k w \<Longrightarrow> P k (g w)"
  shows "all_waiting_v P this s d opr cs c (m\<lparr>world := g (world m)\<rparr>)"
  using assms unfolding all_waiting_v_def waiting_v_def Let_def
  by (fastforce simp: iov_slice_buffers)

lemma iovBytesTotal_cells:
  assumes "\<forall>v \<in> set vs. 0 \<le> iov_len v" and "in_s32 (int (length (cells vs)))"
  shows "iovBytesTotal vs = int (length (cells vs))"
proof -
  have "foldl (\<lambda>acc v. s32 (acc + iov_len v)) a vs = a + int (length (cells vs))"
    if "0 \<le> a" "in_s32 (a + int (length (cells vs)))" for a
    using that assms(1)
  proof (induction vs arbitrary: a)
    case (Cons v vs)
    have v: "0 \<le> iov_len v" using Cons.prems by simp
    then have "in_s32 (a + iov_len v)" using Cons.prems(1,2) by (auto simp: in_s32_def)
    then show ?case using Cons.IH [of "a + iov_len v"] Cons.prems v by (simp add: algebra_simps)
  qed simp
  from this [of 0] show ?thesis using assms(2) by (simp add: iovBytesTotal_def)
qed

lemma vAll_op_waiting:
  assumes f: "file_at m this = Some f" and vs: "iov_slice m iov n = vs"
    and "\<forall>v \<in> set vs. 0 \<le> iov_len v" and "cells vs \<noteq> []" and "in_s32 (int (length (cells vs)))"
  shows "waiting_v this s (fd f) opr c 0 vs
    (put_op this s (vAll_op opr iov n vs (Some c) (pendingOps f s)) m)"
  using assms iovBytesTotal_cells [OF assms(3,5)]
  by (simp add: waiting_v_def Let_def file_at_put_op vAll_op_def iov_slice_buffers)

lemma transfers_vI:
  assumes entry: "entry = (if skip then ret () m0 else obind (File_doOperation E this s isWrite False m0) (\<lambda>_ m. ret () m))"
    and w: "all_waiting_v P this s d opr cs c m0" and opr: "is_rwv opr"
    and len: "in_s32 (int (length cs))" and mv: "moves_v E (vec_call opr d) cs P" and "keeps P evs"
  shows "transfers E P this s isWrite (int (length cs)) c (all_waiting_v P this s d opr cs c) entry evs"
proof -
  have kept: "\<forall>(hup, g) \<in> set evs. \<forall>m. all_waiting_v P this s d opr cs c m \<longrightarrow>
      all_waiting_v P this s d opr cs c (m\<lparr>world := g (world m)\<rparr>)"
    using assms(6) all_waiting_v_world unfolding keeps_def by fastforce
  have later: "(\<exists>m'. deliver E this s isWrite evs m = ret False m' \<and> all_waiting_v P this s d opr cs c m') \<or>
      all_reports E P this s (int (length cs)) c (\<lambda>over. over) (deliver E this s isWrite evs m)"
    if "all_waiting_v P this s d opr cs c m" for m
    by (rule deliver_steps [where W = "all_waiting_v P this s d opr cs c",
        OF that doOperation_vector_transfer [OF _ opr len mv] kept])
  from doOperation_vector_transfer [OF w opr len mv, of isWrite False]
  consider (skip) "entry = ret () m0"
    | (wait) m' where "entry = ret () m'" "all_waiting_v P this s d opr cs c m'"
    | (rep) "all_reports E P this s (int (length cs)) c (\<lambda>res. res \<noteq> CONTINUE)
        (File_doOperation E this s isWrite False m0)"
        "entry = obind (File_doOperation E this s isWrite False m0) (\<lambda>_ m. ret () m)"
    using entry by (cases skip) auto
  then show ?thesis
  proof cases
    case rep
    then have "all_reports E P this s (int (length cs)) c (\<lambda>_. True) entry"
      unfolding all_reports_def reports_def by (force simp: obind_assoc)
    then show ?thesis unfolding transfers_def ..
  next
    case skip
    then show ?thesis using later [OF w] unfolding transfers_def by blast
  next
    case (wait m')
    then show ?thesis using later [OF wait(2)] unfolding transfers_def by blast
  qed
qed

section \<open>Reading into and writing from several buffers\<close>

definition store_cells :: "(addr \<Rightarrow> byte) \<Rightarrow> addr list \<Rightarrow> byte list \<Rightarrow> addr \<Rightarrow> byte" where
  "store_cells mem cs bs = foldl (\<lambda>mm (a, b). mm(a := b)) mem (zip cs bs)"

text \<open>readv(2) fills the buffers in the order of the array; writev(2) gathers in that order.\<close>

definition reads_into ::
  "('w, 'cb) env \<Rightarrow> int \<Rightarrow> ('w \<Rightarrow> byte list) \<Rightarrow> ('w \<Rightarrow> addr \<Rightarrow> byte) \<Rightarrow> bool" where
  "reads_into E d inp mem \<longleftrightarrow> (\<forall>vs w r e w'. sys E (Sys_readv d vs) w = ((r, e), w') \<longrightarrow>
     (if 0 < r then nat r \<le> length (cells vs) \<and> nat r \<le> length (inp w) \<and> inp w' = drop (nat r) (inp w) \<and>
                    mem w' = store_cells (mem w) (cells vs) (take (nat r) (inp w))
      else inp w' = inp w \<and> mem w' = mem w))"

definition writes_out ::
  "('w, 'cb) env \<Rightarrow> int \<Rightarrow> ('w \<Rightarrow> byte list) \<Rightarrow> ('w \<Rightarrow> addr \<Rightarrow> byte) \<Rightarrow> bool" where
  "writes_out E d outp mem \<longleftrightarrow> (\<forall>vs w r e w'. sys E (Sys_writev d vs) w = ((r, e), w') \<longrightarrow>
     mem w' = mem w \<and>
     (if 0 < r then nat r \<le> length (cells vs) \<and> outp w' = outp w @ map (mem w) (take (nat r) (cells vs))
      else outp w' = outp w))"

definition scattered ::
  "('w \<Rightarrow> byte list) \<Rightarrow> ('w \<Rightarrow> addr \<Rightarrow> byte) \<Rightarrow> addr list \<Rightarrow> 'w \<Rightarrow> int \<Rightarrow> 'w \<Rightarrow> bool" where
  "scattered inp mem cs w0 k w \<longleftrightarrow> nat k \<le> length cs \<and> nat k \<le> length (inp w0) \<and>
     inp w = drop (nat k) (inp w0) \<and> mem w = store_cells (mem w0) cs (take (nat k) (inp w0))"

definition gathered ::
  "('w \<Rightarrow> byte list) \<Rightarrow> ('w \<Rightarrow> addr \<Rightarrow> byte) \<Rightarrow> addr list \<Rightarrow> 'w \<Rightarrow> int \<Rightarrow> 'w \<Rightarrow> bool" where
  "gathered outp mem cs w0 k w \<longleftrightarrow> mem w = mem w0 \<and> outp w = outp w0 @ map (mem w0) (take (nat k) cs)"

lemma store_cells_append:
  assumes "length xs \<le> length cs"
  shows "store_cells (store_cells mem cs xs) (drop (length xs) cs) ys = store_cells mem cs (xs @ ys)"
proof -
  have "zip cs (xs @ ys) = zip (take (length xs) cs) xs @ zip (drop (length xs) cs) ys"
    using assms zip_append [of "take (length xs) cs" xs "drop (length xs) cs" ys] by simp
  moreover have "zip cs xs = zip (take (length xs) cs) xs"
    using zip_append [of "take (length xs) cs" xs "drop (length xs) cs" "[]"] assms by simp
  ultimately show ?thesis by (simp add: store_cells_def)
qed

lemma reads_into_moves:
  assumes "reads_into E d inp mem"
  shows "moves_v E (vec_call Op_readvAll d) cs (scattered inp mem cs w0)"
  unfolding moves_v_def
proof (intro allI impI)
  fix k vs w r e w'
  assume k: "0 \<le> k" and vs: "cells vs = drop (nat k) cs" and P: "scattered inp mem cs w0 k w"
    and c: "sys E (vec_call Op_readvAll d vs) w = ((r, e), w')"
  then have c': "sys E (Sys_readv d vs) w = ((r, e), w')" by (simp add: vec_call_def)
  show "if 0 < r then nat r \<le> length (cells vs) \<and> scattered inp mem cs w0 (k + r) w'
        else scattered inp mem cs w0 k w'"
  proof (cases "0 < r")
    case True
    then have r: "nat r \<le> length (cells vs)" "nat r \<le> length (inp w)" "inp w' = drop (nat r) (inp w)"
      "mem w' = store_cells (mem w) (cells vs) (take (nat r) (inp w))"
      using assms c' unfolding reads_into_def by (metis (full_types))+
    have kr: "nat (k + r) = nat k + nat r" using k True by simp
    have l: "length (take (nat k) (inp w0)) = nat k" using P by (simp add: scattered_def)
    have "store_cells (store_cells (mem w0) cs (take (nat k) (inp w0))) (drop (nat k) cs)
        (take (nat r) (drop (nat k) (inp w0))) = store_cells (mem w0) cs (take (nat (k + r)) (inp w0))"
      using store_cells_append [of "take (nat k) (inp w0)" cs "mem w0"] P l
      by (simp add: kr take_add scattered_def)
    moreover have "nat k + nat r \<le> length cs" "nat k + nat r \<le> length (inp w0)"
      using r(1,2) P vs by (simp_all add: scattered_def le_diff_conv2 add.commute)
    ultimately show ?thesis using True r P vs by (simp add: scattered_def kr add.commute)
  next
    case False
    with assms c' P show ?thesis unfolding reads_into_def scattered_def by metis
  qed
qed

lemma writes_out_moves:
  assumes "writes_out E d outp mem"
  shows "moves_v E (vec_call Op_writevAll d) cs (gathered outp mem cs w0)"
  unfolding moves_v_def
proof (intro allI impI)
  fix k vs w r e w'
  assume k: "0 \<le> k" and vs: "cells vs = drop (nat k) cs" and P: "gathered outp mem cs w0 k w"
    and c: "sys E (vec_call Op_writevAll d vs) w = ((r, e), w')"
  then have c': "sys E (Sys_writev d vs) w = ((r, e), w')" by (simp add: vec_call_def)
  show "if 0 < r then nat r \<le> length (cells vs) \<and> gathered outp mem cs w0 (k + r) w'
        else gathered outp mem cs w0 k w'"
  proof (cases "0 < r")
    case True
    then have r: "nat r \<le> length (cells vs)" "mem w' = mem w"
      "outp w' = outp w @ map (mem w) (take (nat r) (cells vs))"
      using assms c' unfolding writes_out_def by (metis (full_types))+
    have kr: "nat (k + r) = nat k + nat r" using k True by simp
    show ?thesis using True r P vs by (simp add: gathered_def kr take_add)
  next
    case False
    with assms c' P show ?thesis unfolding writes_out_def gathered_def by metis
  qed
qed

lemma keeps_scattered: "harmless inp mem evs \<Longrightarrow> keeps (scattered inp mem cs w0) evs"
  by (fastforce simp: harmless_def keeps_def scattered_def)

lemma keeps_gathered: "harmless outp mem evs \<Longrightarrow> keeps (gathered outp mem cs w0) evs"
  by (fastforce simp: harmless_def keeps_def gathered_def)

text \<open>A kernel for the witnesses: \<open>readv\<close> and \<open>writev\<close> on the pipe, piece by piece.\<close>

definition vector_sys :: "syscall \<Rightarrow> pipe \<Rightarrow> (int \<times> int option) \<times> pipe" where
  "vector_sys c w = (case c of
      Sys_readv d vs \<Rightarrow>
        (let r = min (int (length (cells vs))) (min (allowance w) (int (length (incoming w))));
             w1 = w\<lparr>script := tl (script w)\<rparr>
         in if 0 < r then ((r, None), w1\<lparr>incoming := drop (nat r) (incoming w),
              memory := store_cells (memory w) (cells vs) (take (nat r) (incoming w))\<rparr>)
            else ((-1, Some EAGAIN), w1))
    | Sys_writev d vs \<Rightarrow>
        (let r = min (int (length (cells vs))) (allowance w); w1 = w\<lparr>script := tl (script w)\<rparr>
         in if 0 < r then ((r, None),
              w1\<lparr>outgoing := outgoing w @ map (memory w) (take (nat r) (cells vs))\<rparr>)
            else ((-1, Some EAGAIN), w1))
    | _ \<Rightarrow> pipe_sys c w)"

definition vector_env :: "(pipe, user_code) env" where
  "vector_env = pipe_env\<lparr>sys := vector_sys\<rparr>"

lemma vector_env_ok:
  "reads_into vector_env d incoming memory" "writes_out vector_env d outgoing memory"
  by (auto simp: reads_into_def writes_out_def vector_env_def vector_sys_def Let_def min_def
      split: if_splits)

lemma two_buffers:
  "iov_slice (pipe_machine o0 o1 ev w) 10 2 =
     [\<lparr>iov_base = 160, iov_len = 4\<rparr>, \<lparr>iov_base = 176, iov_len = 4\<rparr>]"
  "cells [\<lparr>iov_base = 160, iov_len = 4\<rparr>, \<lparr>iov_base = 176, iov_len = 4\<rparr>] =
     [160, 161, 162, 163, 176, 177, 178, 179]"
  by (simp_all add: iov_slice_def object_machine_def buffer_cells_def numeral_2_eq_2 upt_conv_Cons)

section \<open>Properties\<close>

text \<open>
  C15. After \<open>r\<close> bytes have been moved, the loop that removes completed buffers and shortens the
  next one leaves an array that describes exactly the remaining byte addresses: what it does in
  place is \<open>drop r\<close> on the list of addresses.
\<close>

theorem advance_iov_drops:
  assumes "0 \<le> r" and "r \<le> int (length (cells (buffers mem iov n)))"
    and "\<forall>v \<in> set (buffers mem iov n). 0 \<le> iov_len v"
  shows "case advance_iov mem iov n r of (mem', iov', n') \<Rightarrow>
    cells (buffers mem' iov' n') = drop (nat r) (cells (buffers mem iov n)) \<and>
    (\<forall>v \<in> set (buffers mem' iov' n'). 0 \<le> iov_len v)"
proof (cases "advance_iov mem iov n r")
  case (fields mem' iov' n')
  then show ?thesis using advance_iov_cells [OF fields assms] by simp
qed

theorem advance_iov_drops_witness:
  "case advance_iov (\<lambda>a. \<lparr>iov_base = 16 * a, iov_len = 4\<rparr>) 10 2 5 of (mem', iov', n') \<Rightarrow>
    cells (buffers mem' iov' n') =
      drop (nat 5) (cells (buffers (\<lambda>a. \<lparr>iov_base = 16 * a, iov_len = 4\<rparr>) 10 2)) \<and>
    (\<forall>v \<in> set (buffers mem' iov' n'). 0 \<le> iov_len v)"
  by (rule advance_iov_drops) (auto simp: buffers_def cells_def numeral_2_eq_2)

text \<open>
  C16. \<open>readvAll\<close> and any number of events: the bytes of the stream arrive, in order, at the
  byte addresses \<open>cs\<close> of the caller's buffers taken one after the other; the callback is called at
  most once, with the number of bytes that have arrived, at most what the buffers hold.
\<close>

theorem readvAll_transfers:
  assumes f: "file_at m this = Some f" and vs: "iov_slice m iov n = vs" and cs: "cs = cells vs"
    and nonneg: "\<forall>v \<in> set vs. 0 \<le> iov_len v" and ne: "cs \<noteq> []" and len: "in_s32 (int (length cs))"
    and reads: "reads_into E (fd f) inp mem" and "harmless inp mem evs"
  shows "transfers E (scattered inp mem cs (world m)) this Rd False (int (length cs)) c
    (all_waiting_v (scattered inp mem cs (world m)) this Rd (fd f) Op_readvAll cs c)
    (File_readvAll E this iov n (Some c) m) evs"
proof (rule transfers_vI)
  let ?m0 = "put_op this Rd (vAll_op Op_readvAll iov n vs (Some c) (pendingOps f Rd)) m"
  show "File_readvAll E this iov n (Some c) m =
      (if skipSynchronousAttempt (pendingOps f Rd) then ret () ?m0
       else obind (File_doOperation E this Rd False False ?m0) (\<lambda>_ m. ret () m))"
    by (simp add: File_readvAll_def with_op_Some [OF op_at_file [OF f]] vs Let_def)
  have "waiting_v this Rd (fd f) Op_readvAll c 0 vs ?m0"
    by (rule vAll_op_waiting [OF f vs nonneg]) (use ne len cs in simp_all)
  then show "all_waiting_v (scattered inp mem cs (world m)) this Rd (fd f) Op_readvAll cs c ?m0"
    unfolding all_waiting_v_def by (force simp: cs scattered_def store_cells_def)
qed (use assms reads_into_moves keeps_scattered in \<open>auto simp: is_rwv_def\<close>)

theorem readvAll_transfers_witness:
  "transfers vector_env (scattered incoming memory [160, 161, 162, 163, 176, 177, 178, 179]
       (pipe_world [3, 5] [1, 2, 3, 4, 5, 6, 7, 8, 9])) 1 Rd False 8 Log
     (all_waiting_v (scattered incoming memory [160, 161, 162, 163, 176, 177, 178, 179]
       (pipe_world [3, 5] [1, 2, 3, 4, 5, 6, 7, 8, 9])) 1 Rd 5 Op_readvAll
       [160, 161, 162, 163, 176, 177, 178, 179] Log)
     (File_readvAll vector_env 1 10 2 (Some Log)
       (pipe_machine empty_op empty_op 1 (pipe_world [3, 5] [1, 2, 3, 4, 5, 6, 7, 8, 9]))) [(False, id)]"
  using readvAll_transfers [where m = "pipe_machine empty_op empty_op 1
        (pipe_world [3, 5] [1, 2, 3, 4, 5, 6, 7, 8, 9])" and this = 1 and iov = 10 and n = 2
      and E = vector_env and inp = incoming and mem = memory and evs = "[(False, id)]" and c = Log,
      OF _ two_buffers(1) refl]
  by (simp add: two_buffers(2) vector_env_ok in_s32_def harmless_def del: cells_simps)

text \<open>
  C17. \<open>writevAll\<close> in the same way: the bytes at the addresses of the buffers, taken one after the
  other, are appended to the stream, each once and in order.
\<close>

theorem writevAll_transfers:
  assumes f: "file_at m this = Some f" and vs: "iov_slice m iov n = vs" and cs: "cs = cells vs"
    and nonneg: "\<forall>v \<in> set vs. 0 \<le> iov_len v" and ne: "cs \<noteq> []" and len: "in_s32 (int (length cs))"
    and writes: "writes_out E (fd f) outp mem" and "harmless outp mem evs"
  shows "transfers E (gathered outp mem cs (world m)) this Wr True (int (length cs)) c
    (all_waiting_v (gathered outp mem cs (world m)) this Wr (fd f) Op_writevAll cs c)
    (File_writevAll E this iov n (Some c) m) evs"
proof (rule transfers_vI)
  let ?m0 = "put_op this Wr (vAll_op Op_writevAll iov n vs (Some c) (pendingOps f Wr)) m"
  show "File_writevAll E this iov n (Some c) m =
      (if skipSynchronousAttempt (pendingOps f Wr) then ret () ?m0
       else obind (File_doOperation E this Wr True False ?m0) (\<lambda>_ m. ret () m))"
    by (simp add: File_writevAll_def with_op_Some [OF op_at_file [OF f]] vs Let_def)
  have "waiting_v this Wr (fd f) Op_writevAll c 0 vs ?m0"
    by (rule vAll_op_waiting [OF f vs nonneg]) (use ne len cs in simp_all)
  then show "all_waiting_v (gathered outp mem cs (world m)) this Wr (fd f) Op_writevAll cs c ?m0"
    unfolding all_waiting_v_def by (force simp: cs gathered_def)
qed (use assms writes_out_moves keeps_gathered in \<open>auto simp: is_rwv_def\<close>)

theorem writevAll_transfers_witness:
  "transfers vector_env (gathered outgoing memory [160, 161, 162, 163, 176, 177, 178, 179]
       (pipe_world [3, 5] [])) 1 Wr True 8 Log
     (all_waiting_v (gathered outgoing memory [160, 161, 162, 163, 176, 177, 178, 179]
       (pipe_world [3, 5] [])) 1 Wr 5 Op_writevAll [160, 161, 162, 163, 176, 177, 178, 179] Log)
     (File_writevAll vector_env 1 10 2 (Some Log)
       (pipe_machine empty_op empty_op 4 (pipe_world [3, 5] []))) [(False, id)]"
  using writevAll_transfers [where m = "pipe_machine empty_op empty_op 4 (pipe_world [3, 5] [])"
      and this = 1 and iov = 10 and n = 2 and E = vector_env and outp = outgoing and mem = memory
      and evs = "[(False, id)]" and c = Log, OF _ two_buffers(1) refl]
  by (simp add: two_buffers(2) vector_env_ok in_s32_def harmless_def del: cells_simps)

end
