(* ===== verification/CPoll_Events.thy ===== *)
theory CPoll_Events
  imports CPoll_Vector
begin

text \<open>
  Properties of the event side of \<open>File\<close> and \<open>Socket\<close>: one-shot and repeated operations, what
  \<open>CONTINUE\<close> means for an edge-triggered descriptor, callbacks that delete the object, and
  hang-up.
\<close>

section \<open>Repeated operations\<close>

lemma put_op_same:
  assumes "op_at m this s = Some opn"
  shows "put_op this s opn m = m"
proof -
  obtain f where f: "file_at m this = Some f" "pendingOps f s = opn"
    using op_at_obtain_file [OF assms] .
  then have "f\<lparr>pendingOps := (pendingOps f)(s := opn)\<rparr> = f" by (cases f) auto
  then show ?thesis using f
    by (auto simp: put_op_def put_file_def file_at_def fun_upd_idem split: option.splits fd_object.splits)
qed

text \<open>
  A round of a repeated operation that transfers all it asked for, and whose callback returns
  with the operation as it was; \<open>full_rounds\<close> is a sequence of \<open>n\<close> such rounds.
\<close>

inductive full_rounds ::
  "('w, 'cb) env \<Rightarrow> ptr \<Rightarrow> slot \<Rightarrow> 'cb OperationInfo \<Rightarrow> ('w, 'cb) machine \<Rightarrow> nat \<Rightarrow> ('w, 'cb) machine \<Rightarrow> bool"
  for E this s opn where
  none: "full_rounds E this s opn m 0 m"
| round: "full_rounds E this s opn m (Suc n) m3"
  if "file_at m this = Some f" and "pendingOps f s = opn"
    and "ordinary_attempt E (fd f) opn m = Some (r, asked, m1)" and "0 < r" and "asked \<le> r"
    and "invoke E (op_cb opn) r m1 = ret () m2" and "op_at m2 this s = Some opn"
    and "full_rounds E this s opn m2 n m3"

inductive_cases full_rounds_0E: "full_rounds E this s opn m 0 m'"

lemma full_rounds_op:
  "full_rounds E this s opn m n m' \<Longrightarrow> op_at m this s = Some opn \<Longrightarrow> op_at m' this s = Some opn"
  by (induction rule: full_rounds.induct) auto

lemma full_rounds_block:
  assumes "full_rounds E this s opn m n m'" and "repeating opn"
  shows "ordinary_block E this s w False (operation opn) m = ordinary_block E this s w False (operation opn) m'"
  using assms
proof (induction rule: full_rounds.induct)
  case (round m f r asked m1 m2 n m3)
  then show ?case
    by (subst ordinary_block.simps)
      (simp add: with_file_Some with_op_Some op_at_file Let_def)
qed simp

lemma doOperation_repeating:
  assumes "op_at m this s = Some opn" and "is_ordinary (operation opn)" and "\<not> skipSynchronousAttempt opn"
  shows "File_doOperation E this s w h m = obind (ordinary_block E this s w h (operation opn) m)
    (\<lambda>res m1. case res of Some r \<Rightarrow> ret r m1 | None \<Rightarrow> all_or_other E this s h m1)"
proof -
  have "opn\<lparr>skipSynchronousAttempt := False\<rparr> = opn" using assms(3) by (cases opn) simp
  then show ?thesis
    using assms by (simp add: File_doOperation_def with_op_Some Let_def put_op_same)
qed

section \<open>What CONTINUE means\<close>

text \<open>
  The descriptors are registered with \<open>EPOLLET\<close>: an operation that stays registered without
  having met \<open>EAGAIN\<close> or a short transfer would not be woken up again. \<open>asks s d c n\<close>: \<open>c\<close> asks
  descriptor \<open>d\<close> for \<open>n\<close> bytes in the direction of slot \<open>s\<close>. \<open>exhausting\<close>: what the kernel promises
  of such calls, for a predicate \<open>Q\<close> on the world that holds when the descriptor is exhausted in that
  direction, so that the next change is an edge: a call moves at most what it was asked for and sets
  \<open>errno\<close> when it fails; one that would block or moves less than asked leaves the descriptor exhausted.
\<close>

inductive asks :: "slot \<Rightarrow> int \<Rightarrow> syscall \<Rightarrow> int \<Rightarrow> bool" where
  "asks Rd d (Sys_read d b n) n"
| "asks Rd d (Sys_recv d b n fl) n"
| "asks Rd d (Sys_readv d vs) (sum_list (map iov_len vs))"
| "asks Wr d (Sys_write d b n) n"
| "asks Wr d (Sys_send d b n fl) n"
| "asks Wr d (Sys_writev d vs) (sum_list (map iov_len vs))"

definition exhausting :: "('w, 'cb) env \<Rightarrow> slot \<Rightarrow> int \<Rightarrow> ('w \<Rightarrow> bool) \<Rightarrow> bool" where
  "exhausting E s d Q \<longleftrightarrow> (\<forall>c n w r e w'. asks s d c n \<longrightarrow> sys E c w = ((r, e), w') \<longrightarrow>
     (r < 0 \<longrightarrow> e \<noteq> None) \<and> (0 < r \<longrightarrow> r \<le> n) \<and>
     (r < 0 \<and> (e = Some EWOULDBLOCK \<or> e = Some EAGAIN) \<or> 0 < r \<and> r < n \<longrightarrow> Q w'))"

text \<open>
  The operation of slot \<open>s\<close> as the requests leave it: one of the slot's direction; the length that a
  vectored operation takes for its total is that of its array (for a \<open>*vAll\<close> operation: of what is left
  of it); a \<open>*All\<close> operation is not past its end. \<open>sendFileFrom\<close> is left out: its call is also short
  when the source file ends.
\<close>

definition slot_request :: "slot \<Rightarrow> Operations \<Rightarrow> bool" where
  "slot_request s opr \<longleftrightarrow> opr \<in> (case s of
      Rd \<Rightarrow> {Op_none, Op_read, Op_recv, Op_readv, Op_wait, Op_readAll, Op_recvAll, Op_readvAll, Op_close}
    | Wr \<Rightarrow> {Op_none, Op_write, Op_send, Op_writev, Op_wait, Op_writeAll, Op_sendAll, Op_writevAll})"

definition request_ok :: "slot \<Rightarrow> (addr \<Rightarrow> iovec) \<Rightarrow> 'cb OperationInfo \<Rightarrow> bool" where
  "request_ok s mem opn \<longleftrightarrow> slot_request s (operation opn) \<and>
     (let left = sum_list (map iov_len (buffers mem (rwv_iov (readWriteV opn)) (rwv_iovcnt (readWriteV opn))))
      in (operation opn = Op_readv \<or> operation opn = Op_writev \<longrightarrow> rwv_lenTotal (readWriteV opn) = left) \<and>
         (is_rwv (operation opn) \<longrightarrow> op_lenTotal opn - op_lenDone opn = left)) \<and>
     (is_all (operation opn) \<longrightarrow> 0 \<le> op_lenDone opn \<and> op_lenDone opn \<le> op_lenTotal opn \<and> in_s32 (op_lenTotal opn))"

definition slot_in_order :: "ptr \<Rightarrow> slot \<Rightarrow> int \<Rightarrow> ('w, 'cb) machine \<Rightarrow> bool" where
  "slot_in_order this s d m \<longleftrightarrow> (\<forall>f. file_at m this = Some f \<longrightarrow> fd f = d \<and> request_ok s (iovs m) (pendingOps f s))"

text \<open>Callbacks that leave an exhausted descriptor so, and the slot in order.\<close>

definition keeps_exhausted :: "('w, 'cb) env \<Rightarrow> ptr \<Rightarrow> slot \<Rightarrow> int \<Rightarrow> ('w \<Rightarrow> bool) \<Rightarrow> bool" where
  "keeps_exhausted E this s d Q \<longleftrightarrow> (\<forall>c r m m'. usr E c r m = ret () m' \<longrightarrow>
     (Q (world m) \<longrightarrow> Q (world m')) \<and> (slot_in_order this s d m \<longrightarrow> slot_in_order this s d m'))"

lemma request_ok_skip: "request_ok s mem opn \<Longrightarrow> request_ok s mem (opn\<lparr>skipSynchronousAttempt := b\<rparr>)"
proof -
  assume "request_ok s mem opn"
  moreover have "op_lenTotal (opn\<lparr>skipSynchronousAttempt := b\<rparr>) = op_lenTotal opn"
    "op_lenDone (opn\<lparr>skipSynchronousAttempt := b\<rparr>) = op_lenDone opn"
    by (simp_all add: op_lenTotal_def op_lenDone_def)
  ultimately show ?thesis by (simp add: request_ok_def)
qed

lemma asks_vector:
  "sum_list (map iov_len vs) = n \<Longrightarrow> asks Rd d (Sys_readv d vs) n"
  "sum_list (map iov_len vs) = n \<Longrightarrow> asks Wr d (Sys_writev d vs) n"
  using asks.intros(3,6) by blast+

lemma ordinary_attempt_asks:
  assumes "ordinary_attempt E d opn m = Some (r, n, m1)" and "request_ok s (iovs m) opn"
  shows "r = 0 \<or> (\<exists>c. asks s d c n \<and> run_call E c m = (r, m1))"
proof -
  have "slot_request s (operation opn)"
    and "operation opn = Op_readv \<or> operation opn = Op_writev \<longrightarrow> sum_list (map iov_len
      (iov_slice m (rwv_iov (readWriteV opn)) (rwv_iovcnt (readWriteV opn)))) = rwv_lenTotal (readWriteV opn)"
    using assms(2) by (simp_all add: request_ok_def Let_def iov_slice_buffers)
  with assms(1) show ?thesis
    by (cases "operation opn"; cases s)
      (auto simp: ordinary_attempt_def slot_request_def Let_def intro: asks.intros asks_vector split: prod.splits)
qed

lemma all_attempt_asks:
  assumes "all_attempt E d opn m = Some (r, m1)" and "request_ok s (iovs m) opn"
  shows "\<exists>c. asks s d c (op_lenTotal opn - op_lenDone opn) \<and> run_call E c m = (r, m1)"
proof -
  have "is_all (operation opn)"
    using assms(1) by (cases "operation opn") (simp_all add: all_attempt_def Let_def less_eq_Operations_def)
  then have k: "0 \<le> op_lenDone opn" "op_lenDone opn \<le> op_lenTotal opn" "in_s32 (op_lenTotal opn)"
    using assms(2) by (simp_all add: request_ok_def)
  then have "in_s32 (op_lenTotal opn - op_lenDone opn)" by (simp add: in_s32_def)
  then have "s32 (op_lenTotal opn - op_lenDone opn) = op_lenTotal opn - op_lenDone opn" by simp
  moreover have "slot_request s (operation opn)"
    and "is_rwv (operation opn) \<longrightarrow> sum_list (map iov_len
      (iov_slice m (rwv_iov (readWriteV opn)) (rwv_iovcnt (readWriteV opn)))) = op_lenTotal opn - op_lenDone opn"
    using assms(2) by (simp_all add: request_ok_def Let_def iov_slice_buffers)
  ultimately show ?thesis
    using assms(1)
    by (cases "operation opn"; cases s)
      (auto simp: all_attempt_def slot_request_def Let_def is_rwv_def op_lenTotal_def op_lenDone_def
        intro: asks.intros asks_vector)
qed

lemma exhaustingD:
  assumes "exhausting E s d Q" and "asks s d c n" and "run_call E c m = (r, m1)"
  shows "0 < r \<Longrightarrow> r \<le> n" and "r < 0 \<and> isWouldBlock m1 \<or> 0 < r \<and> r < n \<Longrightarrow> Q (world m1)"
proof -
  obtain e w' where c: "sys E c (world m) = ((r, e), w')" and m1: "m1 = set_errno e (m\<lparr>world := w'\<rparr>)"
    using assms(3) by (auto simp: run_call_def split: prod.splits)
  note k = assms(1) [unfolded exhausting_def, rule_format, OF assms(2) c]
  show "0 < r \<Longrightarrow> r \<le> n" using k by blast
  have w: "world m1 = w'" by (simp add: m1 set_errno_def split: option.split)
  assume "r < 0 \<and> isWouldBlock m1 \<or> 0 < r \<and> r < n"
  moreover have "e = Some EWOULDBLOCK \<or> e = Some EAGAIN" if "r < 0" "isWouldBlock m1"
    using k that by (cases e) (auto simp: m1 set_errno_def isWouldBlock_def)
  ultimately show "Q (world m1)" unfolding w using k by blast
qed

lemma slot_in_order_frame:
  assumes "slot_in_order this s d m" and "heap m' = heap m" and "iovs m' = iovs m"
  shows "slot_in_order this s d m'"
  using assms(1,3) file_at_heap [OF assms(2), of this] by (simp add: slot_in_order_def)

lemma slot_in_order_put_op:
  assumes "slot_in_order this s d m" and "request_ok s (iovs m) opn"
  shows "slot_in_order this s d (put_op this s opn m)"
  using assms by (cases "file_at m this") (auto simp: slot_in_order_def file_at_put_op)

lemma obind_RetE:
  assumes "obind x k = ret b m'"
  obtains a m where "x = ret a m" and "k a m = ret b m'"
  using assms by (rule obind_eq_RetE)

lemma with_op_RetE:
  assumes "with_op this s m k = ret a m'"
  obtains opn where "op_at m this s = Some opn" and "k opn = ret a m'"
  using assms by (cases "op_at m this s") (simp_all add: with_op_def)

lemma with_file_RetE:
  assumes "with_file this m k = ret a m'"
  obtains f where "file_at m this = Some f" and "k f = ret a m'"
  using assms by (cases "file_at m this") (simp_all add: with_file_def)

lemma ordinary_block_exhausts:
  assumes "exhausting E s d Q" and "keeps_exhausted E this s d Q" and "slot_in_order this s d m"
    and "ordinary_block E this s w h opr m = ret res m'"
  shows "(res = Some CONTINUE \<longrightarrow> Q (world m')) \<and> (res = None \<longrightarrow> slot_in_order this s d m')"
proof -
  let ?P = "\<lambda>E this s m out. exhausting E s d Q \<longrightarrow> keeps_exhausted E this s d Q \<longrightarrow> slot_in_order this s d m \<longrightarrow>
      (\<forall>res m'. out = Ret res m' \<longrightarrow>
        (res = Some CONTINUE \<longrightarrow> Q (world m')) \<and> (res = None \<longrightarrow> slot_in_order this s d m'))"
  have "?P E this s m out" if "ordinary_block E this s w h opr m = Some out" for out
  proof (rule ordinary_block.raw_induct [where P = "\<lambda>E this s w h opr m out. ?P E this s m out", OF _ that],
      intro impI allI)
    fix f E this s w h opr m out res m'
    assume IH: "\<And>E this s w h opr m out. f E this s w h opr m = Some out \<Longrightarrow> ?P E this s m out"
      and eq: "with_file this m (\<lambda>fl. with_op this s m (\<lambda>opn.
        case ordinary_attempt E (fd fl) opn m of None \<Rightarrow> Some (Fault Assertion_failed)
        | Some (r, myLen, m1) \<Rightarrow>
          if r < 0 \<and> isWouldBlock m1 then ret (Some CONTINUE) m1
          else if r \<le> 0 then
            obind (invoke E (op_cb opn) r (put_op this s (opn\<lparr>operation := Op_none\<rparr>) m1))
              (\<lambda>_ m2. ret (Some DONE_PERMANENT) m2)
          else (let shortRead = (r < myLen) in
             if repeating opn then
               obind (invoke E (op_cb opn) r m1) (\<lambda>_ m2. with_op this s m2 (\<lambda>opn2.
                 if operation opn2 = opr then
                   if h then
                     obind (invoke E (op_cb opn2) (if w then -1 else 0)
                        ((put_op this s (opn2\<lparr>operation := Op_none\<rparr>) m2)
                           \<lparr>errno := (if w then EPIPE else 0)\<rparr>))
                       (\<lambda>_ m3. ret (Some DONE_PERMANENT) m3)
                   else if shortRead then ret (Some CONTINUE) m2
                   else f E this s w h opr m2
                 else if shortRead \<and> \<not> h then
                   ret None (put_op this s (opn2\<lparr>skipSynchronousAttempt := True\<rparr>) m2)
                 else ret None m2))
             else
               (let opn1 = opn\<lparr>operation := Op_none\<rparr>;
                    opn2 = (if shortRead \<and> \<not> h then opn1\<lparr>skipSynchronousAttempt := True\<rparr> else opn1)
                in obind (invoke E (op_cb opn) r (put_op this s opn2 m1))
                     (\<lambda>_ m2. ret (Some DONE) m2))))) = Some out"
      and ex: "exhausting E s d Q" and keep: "keeps_exhausted E this s d Q" and ok: "slot_in_order this s d m"
      and out: "out = Ret res m'"
    from eq [unfolded out] obtain fl where fl: "file_at m this = Some fl" by (rule with_file_RetE)
    then have o: "op_at m this s = Some (pendingOps fl s)" by (rule op_at_file)
    obtain r asked m1 where att: "ordinary_attempt E (fd fl) (pendingOps fl s) m = Some (r, asked, m1)"
      using eq out fl o by (cases "ordinary_attempt E (fd fl) (pendingOps fl s) m")
        (auto simp: with_file_Some with_op_Some)
    note eq' = eq [unfolded out with_file_Some [OF fl] with_op_Some [OF o] att, simplified]
    have d: "fd fl = d" and req: "request_ok s (iovs m) (pendingOps fl s)"
      using ok fl by (simp_all add: slot_in_order_def)
    have Q1: "Q (world m1)" if "r < 0 \<and> isWouldBlock m1 \<or> 0 < r \<and> r < asked"
      using ordinary_attempt_asks [OF att req] that exhaustingD(2) [OF ex, where n = asked] d by fastforce
    have ok1: "slot_in_order this s d m1"
      using slot_in_order_frame [OF ok] ordinary_attempt_frame [OF att] by blast
    have cb: "(Q (world m1) \<longrightarrow> Q (world m2)) \<and> slot_in_order this s d m2"
      if "invoke E (op_cb (pendingOps fl s)) r m1 = ret () m2" for m2
      using that keep ok1 by (cases "op_cb (pendingOps fl s)") (auto simp: keeps_exhausted_def)
    show "(res = Some CONTINUE \<longrightarrow> Q (world m')) \<and> (res = None \<longrightarrow> slot_in_order this s d m')"
    proof (cases "r < 0 \<and> isWouldBlock m1")
      case True
      then show ?thesis using eq' Q1 by auto
    next
      case False
      show ?thesis
      proof (cases "0 < r \<and> repeating (pendingOps fl s)")
        case True
        with eq' False obtain m2 opn2 where m2: "invoke E (op_cb (pendingOps fl s)) r m1 = ret () m2"
          and o2: "op_at m2 this s = Some opn2"
          and rest: "(if operation opn2 = opr then
               if h then
                 obind (invoke E (op_cb opn2) (if w then -1 else 0)
                    ((put_op this s (opn2\<lparr>operation := Op_none\<rparr>) m2)\<lparr>errno := (if w then EPIPE else 0)\<rparr>))
                   (\<lambda>_ m3. ret (Some DONE_PERMANENT) m3)
               else if r < asked then ret (Some CONTINUE) m2
               else f E this s w h opr m2
             else if r < asked \<and> \<not> h then
               ret None (put_op this s (opn2\<lparr>skipSynchronousAttempt := True\<rparr>) m2)
             else ret None m2) = ret res m'"
          by (auto simp: Let_def elim!: obind_RetE with_op_RetE)
        note ok2 = cb [OF m2, THEN conjunct2]
        have req2: "request_ok s (iovs m2) opn2"
          using ok2 o2 by (auto simp: slot_in_order_def op_at_def)
        then have "slot_in_order this s d (put_op this s (opn2\<lparr>skipSynchronousAttempt := True\<rparr>) m2)"
          by (intro slot_in_order_put_op ok2 request_ok_skip)
        then show ?thesis
          using rest True Q1 cb [OF m2] IH [of E this s w h opr m2] ex keep
          by (auto split: if_splits elim!: obind_RetE)
      next
        case nrep: False
        then show ?thesis using eq' False by (auto simp: Let_def split: if_splits elim!: obind_RetE)
      qed
    qed
  qed
  then show ?thesis using assms by blast
qed

lemma all_block_exhausts:
  assumes ex: "exhausting E s d Q" and ok: "slot_in_order this s d m" and eq: "all_block E this s h m = ret CONTINUE m'"
  shows "Q (world m')"
proof -
  from eq obtain f where f: "file_at m this = Some f" unfolding all_block_def by (rule with_file_RetE)
  let ?opn = "pendingOps f s"
  have d: "fd f = d" and req: "request_ok s (iovs m) ?opn" using ok f by (simp_all add: slot_in_order_def)
  note eq' = eq [unfolded all_block_def with_file_Some [OF f] with_op_Some [OF op_at_file [OF f]]]
  then obtain r m1 where att: "all_attempt E (fd f) ?opn m = Some (r, m1)"
    by (cases "all_attempt E (fd f) ?opn m") (auto split: if_splits)
  from all_attempt_asks [OF att req] obtain c where c: "asks s d c (op_lenTotal ?opn - op_lenDone ?opn)"
    "run_call E c m = (r, m1)" unfolding d by blast
  have all: "is_all (operation ?opn)"
    using att by (cases "operation ?opn") (simp_all add: all_attempt_def Let_def less_eq_Operations_def)
  have "r < 0 \<and> isWouldBlock m1 \<and> m' = m1 \<or>
      0 < r \<and> s32 (op_lenDone ?opn + r) < op_lenTotal ?opn \<and> world m' = world m1"
    using eq' att by (fastforce simp: Let_def not_le split: if_splits prod.splits elim!: obind_RetE)
  then show ?thesis
  proof (elim disjE conjE)
    assume "0 < r" "s32 (op_lenDone ?opn + r) < op_lenTotal ?opn" and w: "world m' = world m1"
    moreover from this have "in_s32 (op_lenDone ?opn + r)"
      using exhaustingD(1) [OF ex c] req all by (simp add: request_ok_def in_s32_def)
    ultimately show ?thesis using exhaustingD(2) [OF ex c] by simp
  qed (use exhaustingD(2) [OF ex c] in simp)
qed

lemma other_block_not_continue: "other_block E this s m \<noteq> ret CONTINUE m'"
  unfolding other_block_def
  by (auto elim!: with_op_RetE obind_RetE split: Operations.splits)

lemma all_or_other_exhausts:
  assumes "exhausting E s d Q" and "slot_in_order this s d m" and "all_or_other E this s h m = ret CONTINUE m'"
  shows "Q (world m')"
  using assms(3) other_block_not_continue [of E this s m m'] all_block_exhausts [OF assms(1,2)]
  unfolding all_or_other_def by (auto elim!: with_op_RetE split: if_splits)

section \<open>Properties of pending operations\<close>

text \<open>
  C12. A pending one-shot operation (\<open>read\<close>, \<open>write\<close>, \<open>send\<close>, \<open>recv\<close>, \<open>readv\<close>, \<open>writev\<close>,
  \<open>sendFileFrom\<close>, \<open>wait\<close>) makes one system call. If it would block, the operation stays. Otherwise
  the slot is freed first and the callback is then called once, with the result of the call;
  \<open>skipSynchronousAttempt\<close> is set exactly after a short transfer without hang-up.
\<close>

theorem oneshot_operation:
  assumes "file_at m this = Some f" and "opn = pendingOps f s"
    and "is_ordinary (operation opn)" and "\<not> repeating opn"
    and "ordinary_attempt E (fd f) opn m = Some (r, asked, m1)"
  shows "File_doOperation E this s isWrite hup m =
    (if r < 0 \<and> isWouldBlock m1
     then ret CONTINUE (put_op this s (opn\<lparr>skipSynchronousAttempt := False\<rparr>) m1)
     else obind (invoke E (op_cb opn) r
         (put_op this s (opn\<lparr>operation := Op_none,
            skipSynchronousAttempt := (0 < r \<and> r < asked \<and> \<not> hup)\<rparr>) m1))
       (\<lambda>_ m2. ret (if r \<le> 0 then DONE_PERMANENT else DONE) m2))"
  using doOperation_oneshot [OF assms(1) assms(2) [symmetric] assms(3-5)] .

lemma pipe_attempt:
  "ordinary_attempt pipe_env 5 (pending Op_read 100 4 0 rep c) (pipe_machine o0 o1 ev (pipe_world [3] [7, 8, 9, 10])) =
     Some (3, 4, pipe_machine o0 o1 ev (pipe_world [] [10]\<lparr>memory := store_bytes word_of_int 100 [7, 8, 9]\<rparr>))"
  by (simp add: ordinary_attempt_def pipe_read_def Let_def allowance_def pipe_world_def)

lemma ordinary_ops [simp]: "Op_read \<le> Op_read" "Op_read \<le> Op_wait"
  by (simp_all add: less_eq_Operations_def)

theorem oneshot_operation_witness:
  "File_doOperation pipe_env 1 Rd False False
     (pipe_machine (pending Op_read 100 4 0 False Log) empty_op 1 (pipe_world [3] [7, 8, 9, 10])) =
   ret DONE (pipe_machine ((pending Op_read 100 4 0 False Log)\<lparr>operation := Op_none,
       skipSynchronousAttempt := True\<rparr>) empty_op 1
     (pipe_world [] [10]\<lparr>memory := store_bytes word_of_int 100 [7, 8, 9], logged := [3]\<rparr>))"
  using oneshot_operation [where E = pipe_env and this = 1 and s = Rd and isWrite = False and hup = False
      and m = "pipe_machine (pending Op_read 100 4 0 False Log) empty_op 1 (pipe_world [3] [7, 8, 9, 10])"
      and f = "pipe_file 5 (pending Op_read 100 4 0 False Log) empty_op", OF _ refl]
  by (simp add: pipe_attempt) (simp add: pipe_world_def)

lemma doOperation_rounds:
  assumes "op_at m this s = Some opn" and "is_ordinary (operation opn)" and "repeating opn"
    and "\<not> skipSynchronousAttempt opn" and rounds: "full_rounds E this s opn m n m'" and h: "h \<longrightarrow> n = 0"
    and "file_at m' this = Some f" and "ordinary_attempt E (fd f) opn m' = Some (r, asked, m1)"
  shows "if r < 0 \<and> isWouldBlock m1 then File_doOperation E this s w h m = ret CONTINUE m1
    else if r \<le> 0 then File_doOperation E this s w h m =
      obind (invoke E (op_cb opn) r (put_op this s (opn\<lparr>operation := Op_none\<rparr>) m1))
        (\<lambda>_ m2. ret DONE_PERMANENT m2)
    else \<forall>m2. invoke E (op_cb opn) r m1 = ret () m2 \<and> op_at m2 this s = Some opn \<longrightarrow>
      (if h then File_doOperation E this s w h m =
         obind (invoke E (op_cb opn) (hup_result w) (hup_state this s opn w m2)) (\<lambda>_ m3. ret DONE_PERMANENT m3)
       else r < asked \<longrightarrow> File_doOperation E this s w h m = ret CONTINUE m2)"
proof -
  have s: "pendingOps f s = opn" using full_rounds_op [OF rounds assms(1)] assms(7) by (simp add: op_at_def)
  have "ordinary_block E this s w h (operation opn) m = ordinary_block E this s w h (operation opn) m'"
    using full_rounds_block [OF rounds assms(3)] rounds h by (cases h) (auto elim: full_rounds_0E)
  note eq = doOperation_repeating [OF assms(1,2,4), of E w h, unfolded this]
    ordinary_block.simps [of E this s w h "operation opn" m'] with_file_Some [OF assms(7)]
    with_op_Some [OF op_at_file [OF assms(7)]] s assms(8)
  show ?thesis
    unfolding eq by (auto simp: assms(3) Let_def with_op_Some obind_assoc hup_result_def hup_state_def hup_errno_def)
qed

text \<open>
  C13. A repeated operation is repeated for as long as each round transfers all that was asked for and
  the callback leaves the operation as it is (with a hang-up: not at all). What stops it is the call after
  these rounds. If that would block, the operation stays registered. On an error or at the end of the
  stream the slot is freed and the callback is called once more, with that result. If it transfers
  something and its callback too leaves the operation as it is: without a hang-up a short transfer leaves
  the operation registered; with a hang-up the slot is freed and the callback is called once more, with
  the result and \<open>errno\<close> of a hang-up, whether the transfer was short or not.
\<close>

theorem repeated_operation:
  assumes "op_at m this s = Some opn" and "is_ordinary (operation opn)" and "repeating opn"
    and "\<not> skipSynchronousAttempt opn" and "full_rounds E this s opn m n m'" and "h \<longrightarrow> n = 0"
    and "file_at m' this = Some f" and "ordinary_attempt E (fd f) opn m' = Some (r, asked, m1)"
  shows "if r < 0 \<and> isWouldBlock m1 then File_doOperation E this s w h m = ret CONTINUE m1
    else if r \<le> 0 then File_doOperation E this s w h m =
      obind (invoke E (op_cb opn) r (put_op this s (opn\<lparr>operation := Op_none\<rparr>) m1))
        (\<lambda>_ m2. ret DONE_PERMANENT m2)
    else \<forall>m2. invoke E (op_cb opn) r m1 = ret () m2 \<and> op_at m2 this s = Some opn \<longrightarrow>
      (if h then File_doOperation E this s w h m =
         obind (invoke E (op_cb opn) (hup_result w) (hup_state this s opn w m2)) (\<lambda>_ m3. ret DONE_PERMANENT m3)
       else r < asked \<longrightarrow> File_doOperation E this s w h m = ret CONTINUE m2)"
  using assms by (rule doOperation_rounds)

lemma pipe_blocks:
  "ordinary_attempt pipe_env 5 (pending Op_read 100 4 0 rep c)
     (pipe_machine o0 o1 ev (w\<lparr>script := []\<rparr>)) =
     Some (-1, 4, (pipe_machine o0 o1 ev (w\<lparr>script := []\<rparr>))\<lparr>errno := EAGAIN\<rparr>)"
  by (simp add: ordinary_attempt_def pipe_read_def Let_def allowance_def)

lemma pipe_full_round:
  assumes "p = pending Op_read 100 4 0 True Log"
  shows "full_rounds pipe_env 1 Rd p (pipe_machine p empty_op 1 (pipe_world [4] [1, 2, 3, 4, 5])) 1
    (pipe_machine p empty_op 1 (pipe_world [] [5]\<lparr>memory := store_bytes word_of_int 100 [1, 2, 3, 4],
       logged := [4], script := []\<rparr>))"
  unfolding One_nat_def
  by (rule full_rounds.round [where f = "pipe_file 5 p empty_op" and r = 4 and asked = 4
        and ?m1.0 = "pipe_machine p empty_op 1 (pipe_world [] [5]\<lparr>memory := store_bytes word_of_int 100 [1, 2, 3, 4]\<rparr>)",
        OF _ _ _ _ _ _ _ full_rounds.none])
    (simp_all add: assms ordinary_attempt_def pipe_read_def Let_def allowance_def pipe_world_def)

theorem repeated_operation_witness:
  "File_doOperation pipe_env 1 Rd False False
     (pipe_machine (pending Op_read 100 4 0 True Log) empty_op 1 (pipe_world [4] [1, 2, 3, 4, 5])) =
   ret CONTINUE ((pipe_machine (pending Op_read 100 4 0 True Log) empty_op 1
     (pipe_world [] [5]\<lparr>memory := store_bytes word_of_int 100 [1, 2, 3, 4],
       logged := [4], script := []\<rparr>))\<lparr>errno := EAGAIN\<rparr>)"
  using repeated_operation [OF _ _ _ _ pipe_full_round [OF refl],
      where w = False and h = False and f = "pipe_file 5 (pending Op_read 100 4 0 True Log) empty_op"]
  by (simp add: pipe_blocks isWouldBlock_def errno_defs)

text \<open>
  C14. When \<open>doOperation\<close> leaves an operation registered (\<open>CONTINUE\<close>), it has exhausted the descriptor:
  whatever \<open>Q\<close> the kernel makes true of the world when a call of the slot's direction would block or moves
  less than it was asked for, \<open>Q\<close> holds then. Since descriptors are registered edge triggered, this is what
  makes the next event arrive. It holds for one-shot, repeated and \<open>*All\<close> operations, from any machine in
  which the slot holds what a request has left there, and for callbacks that do not undo \<open>Q\<close> and leave
  the slot in order.
\<close>

theorem continue_means_drained:
  assumes "exhausting E s d Q" and "keeps_exhausted E this s d Q" and "slot_in_order this s d m"
    and "File_doOperation E this s w h m = ret CONTINUE m'"
  shows "Q (world m')"
proof -
  from assms(4) obtain opn where o: "op_at m this s = Some opn"
    and eq: "(let opType = operation opn; m0 = put_op this s (opn\<lparr>skipSynchronousAttempt := False\<rparr>) m
      in if is_ordinary opType then
           obind (ordinary_block E this s w h opType m0) (\<lambda>res m1.
             case res of Some r \<Rightarrow> ret r m1 | None \<Rightarrow> all_or_other E this s h m1)
         else all_or_other E this s h m0) = ret CONTINUE m'"
    unfolding File_doOperation_def by (rule with_op_RetE)
  let ?m0 = "put_op this s (opn\<lparr>skipSynchronousAttempt := False\<rparr>) m"
  have "request_ok s (iovs m) opn" using assms(3) o by (auto simp: slot_in_order_def op_at_def)
  then have ok: "slot_in_order this s d ?m0" by (intro slot_in_order_put_op assms(3) request_ok_skip)
  show ?thesis
  proof (cases "is_ordinary (operation opn)")
    case True
    with eq obtain res m1 where "ordinary_block E this s w h (operation opn) ?m0 = ret res m1"
      and "(case res of Some r \<Rightarrow> ret r m1 | None \<Rightarrow> all_or_other E this s h m1) = ret CONTINUE m'"
      by (auto simp: Let_def elim!: obind_RetE)
    then show ?thesis
      using ordinary_block_exhausts [OF assms(1,2) ok] all_or_other_exhausts [OF assms(1), of this m1 h m']
      by (cases res) auto
  next
    case False
    show ?thesis
      using eq unfolding Let_def if_not_P [OF False] by (rule all_or_other_exhausts [OF assms(1) ok])
  qed
qed

text \<open>A repeated read on the edge triggered kernel: a full round, and a call that would block.\<close>

definition noting_env :: "(pipe, user_code) env" where
  "noting_env = pipe_env\<lparr>sys := edge_sys, usr := (\<lambda>c r m. ret () (note_result r m))\<rparr>"

lemma noting_env_ok:
  "exhausting noting_env Rd d all_taken" "keeps_exhausted noting_env this s d all_taken"
  by (auto simp: exhausting_def keeps_exhausted_def noting_env_def edge_sys_def edge_move_def all_taken_def
      allowance_def Let_def note_result_def slot_in_order_def file_at_def elim!: asks.cases split: if_splits)

lemma run_call_noting:
  "run_call noting_env c (object_machine mk d o0 o1 ev w) =
     (case edge_sys c w of ((r, e), w') \<Rightarrow> (r, set_errno e (object_machine mk d o0 o1 ev w')))"
  by (simp add: run_call_def noting_env_def)

lemma noting_round:
  assumes "p = pending Op_read 100 4 0 True Log"
  shows "full_rounds noting_env 1 Rd p (pipe_machine p empty_op 1 (pipe_world [4] [1, 2, 3, 4, 5])) 1
    (pipe_machine p empty_op 1 (pipe_world [0] [5]\<lparr>memory := store_bytes word_of_int 100 [1, 2, 3, 4],
       logged := [4]\<rparr>))"
  unfolding One_nat_def
  by (rule full_rounds.round [where f = "pipe_file 5 p empty_op" and r = 4 and asked = 4
        and ?m1.0 = "pipe_machine p empty_op 1 (pipe_world [0] [5]\<lparr>memory := store_bytes word_of_int 100 [1, 2, 3, 4]\<rparr>)",
        OF _ _ _ _ _ _ _ full_rounds.none])
    (simp_all add: assms ordinary_attempt_def run_call_noting edge_sys_def edge_move_def Let_def allowance_def
      pipe_world_def, simp add: noting_env_def note_result_def object_machine_def)

theorem continue_means_drained_witness:
  "\<exists>m'. File_doOperation noting_env 1 Rd False False
      (pipe_machine (pending Op_read 100 4 0 True Log) empty_op 1 (pipe_world [4] [1, 2, 3, 4, 5])) = ret CONTINUE m' \<and>
    logged (world m') = [4] \<and> all_taken (world m')"
proof -
  let ?p = "pending Op_read 100 4 0 True Log"
  let ?m = "pipe_machine ?p empty_op 1 (pipe_world [4] [1, 2, 3, 4, 5])"
  let ?w = "pipe_world [0] [5]\<lparr>memory := store_bytes word_of_int 100 [1, 2, 3, 4], logged := [4]\<rparr>"
  let ?m' = "(pipe_machine ?p empty_op 1 (?w\<lparr>script := []\<rparr>))\<lparr>errno := EAGAIN\<rparr>"
  have "ordinary_attempt noting_env 5 ?p (pipe_machine ?p empty_op 1 ?w) = Some (-1, 4, ?m')"
    by (simp add: ordinary_attempt_def run_call_noting edge_sys_def edge_move_def Let_def allowance_def pipe_world_def)
  then have m': "File_doOperation noting_env 1 Rd False False ?m = ret CONTINUE ?m'" "logged (world ?m') = [4]"
    using doOperation_rounds [OF _ _ _ _ noting_round [OF refl], where w = False and h = False and f = "pipe_file 5 ?p empty_op"]
    by (simp_all add: isWouldBlock_def errno_defs)
  have "slot_in_order 1 Rd 5 ?m" by (simp add: slot_in_order_def request_ok_def slot_request_def is_rwv_def less_eq_Operations_def)
  from continue_means_drained [OF noting_env_ok this m'(1)] show ?thesis
    using m' by (intro exI [where x = ?m'] conjI)
qed

text \<open>
  C30. On an event with a hang-up a repeated read makes one call, and after the callback it
  reports the end of the stream (0) and frees the slot, without another call: when that one
  read filled the buffer and the stream holds more, the rest is never read. The code's comment
  says that the skipped call "will return 0".
\<close>

theorem hangup_discards_repeated_read:
  assumes f: "file_at m this = Some f" "pendingOps f Rd = opn"
    and opr: "operation opn = Op_read" "repeating opn" "\<not> skipSynchronousAttempt opn" "op_cb opn = Some c"
    and stream: "reads_from E (Sys_read (fd f)) inp mem" "n < int (length (inp (world m)))" "0 < n"
    and n: "n = rw_len (readWrite opn)"
    and call: "run_call E (Sys_read (fd f) (rw_buf (readWrite opn)) n) m = (n, m1)"
    and cb: "usr E c n m1 = ret () m2" "op_at m2 this Rd = Some opn"
  shows "inp (world m1) \<noteq> [] \<and> File_doOperation E this Rd False True m =
    obind (usr E c 0 ((put_op this Rd (opn\<lparr>operation := Op_none\<rparr>) m2)\<lparr>errno := 0\<rparr>))
      (\<lambda>_ m3. ret DONE_PERMANENT m3)"
proof -
  have o: "op_at m this Rd = Some opn" using op_at_file [OF f(1)] f(2) by simp
  have kind: "is_ordinary (operation opn)" using opr(1) by simp
  obtain e where "sys E (Sys_read (fd f) (rw_buf (readWrite opn)) n) (world m) = ((n, e), world m1)"
    using run_call_world [OF call] .
  then have "inp (world m1) = drop (nat n) (inp (world m))"
    using stream unfolding reads_from_def by (metis (full_types))
  moreover have att: "ordinary_attempt E (fd f) opn m = Some (n, n, m1)"
    using opr(1) n call by (simp add: ordinary_attempt_def Let_def)
  ultimately show ?thesis
    using stream(2,3) opr f cb
    by (simp add: doOperation_repeating [OF o kind opr(3)] ordinary_block.simps [of E this Rd False True _ m]
        with_file_Some [OF f(1)] with_op_Some [OF o] with_op_Some [OF cb(2)] Let_def obind_assoc
        nat_less_iff)
qed

theorem hangup_discards_repeated_read_witness:
  "incoming (pipe_world [] [5]\<lparr>memory := store_bytes word_of_int 100 [1, 2, 3, 4]\<rparr>) \<noteq> [] \<and>
   File_doOperation pipe_env 1 Rd False True
     (pipe_machine (pending Op_read 100 4 0 True Log) empty_op 17 (pipe_world [4] [1, 2, 3, 4, 5])) =
   obind (user Log 0 ((pipe_machine ((pending Op_read 100 4 0 True Log)\<lparr>operation := Op_none\<rparr>) empty_op 17
       (pipe_world [] [5]\<lparr>memory := store_bytes word_of_int 100 [1, 2, 3, 4], logged := [4]\<rparr>))\<lparr>errno := 0\<rparr>))
     (\<lambda>_ m3. ret DONE_PERMANENT m3)"
  using hangup_discards_repeated_read [where E = pipe_env and this = 1 and inp = incoming and mem = memory
      and m = "pipe_machine (pending Op_read 100 4 0 True Log) empty_op 17 (pipe_world [4] [1, 2, 3, 4, 5])"
      and f = "pipe_file 5 (pending Op_read 100 4 0 True Log) empty_op" and n = 4 and c = Log
      and opn = "pending Op_read 100 4 0 True Log"
      and ?m1.0 = "pipe_machine (pending Op_read 100 4 0 True Log) empty_op 17
        (pipe_world [] [5]\<lparr>memory := store_bytes word_of_int 100 [1, 2, 3, 4]\<rparr>)"
      and ?m2.0 = "pipe_machine (pending Op_read 100 4 0 True Log) empty_op 17
        (pipe_world [] [5]\<lparr>memory := store_bytes word_of_int 100 [1, 2, 3, 4], logged := [4]\<rparr>)"]
  by (simp add: pipe_reads pipe_read_def allowance_def pipe_world_def)

text \<open>
  C10. On an event with \<open>EPOLLIN\<close> (whether or not it also says \<open>EPOLLOUT\<close>, an error or a hang-up), the callback
  of a pending ordinary one-shot operation in the reading slot may remove its object from the \<open>EPoll\<close> and delete
  it: \<open>EPoll::remove\<close> clears the events that \<open>dispatch\<close> reads through its reference, so \<open>dispatch\<close> returns
  without touching the object again. This holds for a file and for a socket. (Without \<open>EPOLLIN\<close> a hang-up
  goes through \<open>handleHup\<close>, which does read the object again.)
\<close>

theorem dispatch_survives_delete:
  assumes ep: "epoll_at m ep = Some e" "i < length (currCycleNotifications e)"
      "int i < currCycleNotificationsCount e" "ev_ptr (currCycleNotifications e ! i) = this"
      "ev_events (currCycleNotifications e ! i) = ev" "has_event ev EPOLLIN" "this \<noteq> ep"
    and f: "file_at m this = Some f" "pendingOps f Rd = opn" "is_ordinary (operation opn)"
      "\<not> repeating opn" "op_cb opn = Some c"
    and call: "ordinary_attempt E (fd f) opn m = Some (r, asked, m1)" "\<not> (r < 0 \<and> isWouldBlock m1)"
    and m2: "m2 = settled this Rd opn r asked (has_event ev EPOLLERR \<or> has_event ev EPOLLHUP) m1"
    and cb: "EPoll_remove E ep this m2 = ret () m3" "usr E c r m2 = ret () (free_object this m3)"
  shows "File_dispatch E this (Notification ep i) m = ret () (free_object this m3) \<and>
    Socket_dispatch E this (Notification ep i) m = ret () (free_object this m3)"
proof -
  have "epoll_at m1 ep = Some e"
    using ep(1) ordinary_attempt_frame(1) [OF call(1)] by (simp add: epoll_at_def)
  then have "epoll_at m2 ep = Some e" by (simp add: m2 settled_def)
  then have "events_at m3 (Notification ep i) = Some 0"
    using EPoll_remove_events [OF cb(1)] ep by blast
  then have gone: "events_at (free_object this m3) (Notification ep i) = Some 0"
    using ep(7) events_at_free_object by metis
  have ev: "events_at m (Notification ep i) = Some ev" using ep by simp
  note dead = ev ep(6) f call cb(2) [unfolded m2] gone
  show ?thesis
    unfolding File_dispatch_def Socket_dispatch_def
    using file_ops.read_then_gone [OF dead] socket_ops.read_then_gone [OF dead] by blast
qed

lemma epoll_at_object:
  "epoll_at (object_machine mk d o0 o1 ev w) 9 = Some \<lparr>epoll_fd = 4,
     currCycleNotifications = [\<lparr>ev_events = ev, ev_ptr = 1\<rparr>], currCycleNotificationsCount = 1\<rparr>"
  by (simp add: epoll_at_def object_machine_def)

theorem dispatch_survives_delete_witness:
  "\<exists>m. File_dispatch pipe_env 1 (Notification 9 0)
       (pipe_machine (pending Op_read 100 4 0 False (Remove_and_delete 9 1)) empty_op 5 (pipe_world [3] [7, 8, 9, 10])) =
     ret () m \<and> heap m 1 = None"
proof -
  let ?p = "pending Op_read 100 4 0 False (Remove_and_delete 9 1)"
  let ?m1 = "pipe_machine ?p empty_op 5 (pipe_world [] [10]\<lparr>memory := store_bytes word_of_int 100 [7, 8, 9]\<rparr>)"
  let ?m2 = "settled 1 Rd ?p 3 4 False ?m1"
  have np: "has_event 5 EPOLLIN" "\<not> has_event 5 EPOLLERR" "\<not> has_event 5 EPOLLHUP"
    by (simp_all add: has_event_def epoll_defs)
  obtain m3 where m3: "EPoll_remove pipe_env 9 1 ?m2 = ret () m3"
    by (simp add: EPoll_remove_def with_epoll_def epoll_at_def settled_def object_machine_def put_op_def
        file_at_def put_file_def EVENTSPERCYCLE_def put_epoll_def fd_of_def run_call_def pipe_sys_def)
  show ?thesis
    using dispatch_survives_delete [where E = pipe_env and this = 1 and ep = 9 and i = 0 and ev = 5
        and c = "Remove_and_delete 9 1" and opn = ?p and f = "pipe_file 5 ?p empty_op" and r = 3 and asked = 4
        and m = "pipe_machine ?p empty_op 5 (pipe_world [3] [7, 8, 9, 10])" and ?m1.0 = ?m1 and ?m2.0 = ?m2
        and ?m3.0 = m3] m3 np
    by (simp add: epoll_at_object pipe_attempt EPoll_remove_pipe_env)
qed

end
