(* ===== verification/CPoll_Hangup.thy ===== *)
theory CPoll_Hangup
  imports CPoll_Events
begin

text \<open>
  Hang-up (\<open>handleHup\<close>), cancelling, and requests on a slot that is in use: what the code does
  where it can surprise its user.
\<close>

section \<open>Hang-up\<close>

text \<open>
  C29. A hang-up without \<open>EPOLLIN\<close> ends a pending one-shot operation by calling its callback; then
  \<open>handleHup\<close> reads the operation again. If the callback has deleted the object (after
  \<open>EPoll::remove\<close>, as the header allows), that is an access to freed memory, unlike in
  \<open>doOperation\<close>.
\<close>

theorem hangup_touches_deleted_object:
  assumes "events_at m ref = Some ev" and "\<not> has_event ev EPOLLIN"
    and "has_event ev EPOLLERR \<or> has_event ev EPOLLHUP"
    and "op_at m this Rd = Some opn" and "hup_ordinary (operation opn)" and "op_cb opn = Some c"
    and "usr E c 0 (hup_state this Rd opn False m) = ret () m2" and "file_at m2 this = None"
  shows "File_dispatch E this ref m = Some (Fault Bad_pointer)"
proof -
  have "op_at m2 this Rd = None" using assms(8) by (simp add: op_at_def)
  then have "File_handleHup E this Rd False m = Some (Fault Bad_pointer)"
    using assms(6,7) by (simp add: handleHup_ordinary [OF assms(4,5)] hup_result_def hup_all_part_def with_op_None)
  then show ?thesis
    using assms(1-3) by (auto simp: File_dispatch_def dispatch_slots_def with_events_Some)
qed

lemma hup_event [simp]: "has_event 16 EPOLLHUP" "\<not> has_event 16 EPOLLIN" "\<not> has_event 16 EPOLLERR"
  by (simp_all add: has_event_def epoll_defs)

theorem hangup_touches_deleted_object_witness:
  "File_dispatch pipe_env 1 (Notification 9 0)
     (pipe_machine (pending Op_read 100 4 0 False (Delete 1)) empty_op 16 (pipe_world [] [])) =
   Some (Fault Bad_pointer)"
  by (rule hangup_touches_deleted_object [where ev = 16 and c = "Delete 1"
        and opn = "pending Op_read 100 4 0 False (Delete 1)"])
    (auto simp: less_eq_Operations_def hup_state_def epoll_at_object)

text \<open>
  C31. A hang-up that meets a \<open>readAll\<close>, \<open>writeAll\<close>, \<open>sendAll\<close> or \<open>recvAll\<close> with \<open>k > 0\<close> bytes done
  calls two callbacks: first the operation's with \<open>k\<close>, and then, with 0 or -1, whatever callback
  the slot holds by then. When the first callback has started a new operation, the new
  operation's callback is called although that operation is still registered.
\<close>

theorem hangup_reports_twice:
  assumes "op_at m this s = Some opn" and "hup_all (operation opn)" and "op_cb opn = Some c"
    and "k = rw_lenDone (readWrite opn)" and "0 < k"
    and "usr E c k (put_op this s (opn\<lparr>operation := Op_none\<rparr>) m) = ret () m2"
    and "op_at m2 this s = Some opn2" and "op_cb opn2 = Some c2"
  shows "File_handleHup E this s isWrite m = usr E c2 (hup_result isWrite) (m2\<lparr>errno := hup_errno isWrite\<rparr>)"
  using assms by (simp add: handleHup_all [OF assms(1,2)] with_op_Some)

theorem hangup_reports_twice_witness:
  "File_handleHup pipe_env 1 Rd False
     (pipe_machine (pending Op_readAll 100 4 3 False Log) empty_op 16 (pipe_world [] [])) =
   user Log (hup_result False) ((pipe_machine ((pending Op_readAll 100 4 3 False Log)\<lparr>operation := Op_none\<rparr>)
     empty_op 16 (pipe_world [] []\<lparr>logged := [3]\<rparr>))\<lparr>errno := hup_errno False\<rparr>)"
  using hangup_reports_twice [where E = pipe_env and this = 1 and s = Rd and isWrite = False and c = Log
      and m = "pipe_machine (pending Op_readAll 100 4 3 False Log) empty_op 16 (pipe_world [] [])"
      and opn = "pending Op_readAll 100 4 3 False Log" and k = 3]
  by (simp add: less_eq_Operations_def pipe_world_def)

text \<open>
  A hang-up without \<open>EPOLLIN\<close> does nothing for a pending \<open>wait\<close>, \<open>readvAll\<close>, \<open>writevAll\<close> or
  \<open>close\<close>: the operation stays registered and its callback is not called.
\<close>

lemma hangup_ignores_operations:
  assumes "op_at m this s = Some opn"
    and "operation opn \<in> {Op_wait, Op_readvAll, Op_writevAll, Op_close}"
  shows "File_handleHup E this s isWrite m = ret () m"
  using assms by (intro handleHup_others) (auto simp: less_eq_Operations_def)

section \<open>Callbacks that change the slot\<close>

text \<open>
  C32. When the callback of a repeated operation cancels it and starts another kind of one-shot
  operation on the same slot, \<open>doOperation\<close> falls through to its last \<open>switch\<close>, whose default is
  \<open>assert(false)\<close>.
\<close>

theorem restart_in_repeat_asserts:
  assumes f: "file_at m this = Some f" "pendingOps f s = opn"
    and opr: "is_ordinary (operation opn)" "repeating opn" "\<not> skipSynchronousAttempt opn"
    and call: "ordinary_attempt E (fd f) opn m = Some (r, asked, m1)" "0 < r"
    and cb: "invoke E (op_cb opn) r m1 = ret () m2" "op_at m2 this s = Some opn2"
      "is_ordinary (operation opn2)" "operation opn2 \<noteq> operation opn"
  shows "File_doOperation E this s w hup m = Some (Fault Assertion_failed)"
proof -
  have o: "op_at m this s = Some opn" using op_at_file [OF f(1)] f(2) by simp
  have stuck: "all_or_other E this s h m3 = Some (Fault Assertion_failed)"
    if "op_at m3 this s = Some opn3" "operation opn3 = operation opn2" for m3 opn3 h
    using that cb(3) not_all_if_ordinary [OF cb(3)] unfolding is_ordinary_cases
    by (auto simp: all_or_other_def other_block_def with_op_Some split: Operations.split)
  show ?thesis
    using f opr call cb stuck [OF cb(2) refl]
      stuck [of "put_op this s (opn2\<lparr>skipSynchronousAttempt := True\<rparr>) m2" "opn2\<lparr>skipSynchronousAttempt := True\<rparr>"]
    by (simp add: doOperation_repeating [OF o opr(1,3)] ordinary_block.simps [of E this s w hup _ m]
        with_file_Some [OF f(1)] with_op_Some [OF o] with_op_Some [OF cb(2)] Let_def)
qed

theorem restart_in_repeat_asserts_witness:
  "File_doOperation pipe_env 1 Rd False False
     (pipe_machine (pending Op_read 100 4 0 True (Cancel_and_wait 1)) empty_op 1 (pipe_world [3] [7, 8, 9, 10])) =
   Some (Fault Assertion_failed)"
  using restart_in_repeat_asserts [where E = pipe_env and this = 1 and s = Rd and w = False and hup = False
      and m = "pipe_machine (pending Op_read 100 4 0 True (Cancel_and_wait 1)) empty_op 1 (pipe_world [3] [7, 8, 9, 10])"
      and f = "pipe_file 5 (pending Op_read 100 4 0 True (Cancel_and_wait 1)) empty_op"
      and opn = "pending Op_read 100 4 0 True (Cancel_and_wait 1)"]
  by (simp add: pipe_attempt File_cancelRead_def with_op_def File_waitReadable_def when_free_def addRWOp_def
      less_eq_Operations_def)

text \<open>
  C24. After \<open>cancelRead\<close> and with no pending write, no event whatever calls a callback or makes a
  system call: \<open>dispatch\<close> returns with the world and \<open>errno\<close> as they are, for a file and for a
  socket.
\<close>

theorem cancelled_read_is_silent:
  assumes "op_at m this Rd = Some o0" and "op_at m this Wr = Some o1" and "operation o1 = Op_none"
    and "File_cancelRead this m = ret () m1" and "events_at m ref = Some ev"
  shows "(\<exists>m2. File_dispatch E this ref m1 = ret () m2 \<and> world m2 = world m \<and> errno m2 = errno m) \<and>
    (\<exists>m2. Socket_dispatch E this ref m1 = ret () m2 \<and> world m2 = world m \<and> errno m2 = errno m)"
proof -
  have m1: "m1 = put_op this Rd (o0\<lparr>operation := Op_none\<rparr>) m"
    using assms(1,4) by (simp add: File_cancelRead_def with_op_Some)
  have s: "events_at m1 ref = Some ev" "op_at m1 this Rd = Some (o0\<lparr>operation := Op_none\<rparr>)"
      "operation (o0\<lparr>operation := Op_none\<rparr>) = Op_none" "op_at m1 this Wr = Some o1"
    using assms(1,2,5) by (simp_all add: m1)
  have same: "world m1 = world m" "errno m1 = errno m" by (simp_all add: m1)
  show ?thesis
    unfolding File_dispatch_def Socket_dispatch_def
    using file_ops.idle [OF s(1,2,3,4) assms(3)] socket_ops.idle [OF s(1,2,3,4) assms(3)] same by metis
qed

theorem cancelled_read_is_silent_witness:
  "(\<exists>m2. File_dispatch pipe_env 1 (Notification 9 0)
      (pipe_machine ((pending Op_read 100 4 0 True Log)\<lparr>operation := Op_none\<rparr>) empty_op 31 (pipe_world [3] [7])) =
        ret () m2 \<and> world m2 = pipe_world [3] [7] \<and> errno m2 = 0) \<and>
   (\<exists>m2. Socket_dispatch pipe_env 1 (Notification 9 0)
      (pipe_machine ((pending Op_read 100 4 0 True Log)\<lparr>operation := Op_none\<rparr>) empty_op 31 (pipe_world [3] [7])) =
        ret () m2 \<and> world m2 = pipe_world [3] [7] \<and> errno m2 = 0)"
  using cancelled_read_is_silent [where E = pipe_env and this = 1 and ref = "Notification 9 0"
      and m = "pipe_machine (pending Op_read 100 4 0 True Log) empty_op 31 (pipe_world [3] [7])"]
  by (simp add: File_cancelRead_def with_op_def epoll_at_object)

section \<open>Requests\<close>

text \<open>
  \<open>recvAll\<close> (like \<open>sendAll\<close>) looks at the slot only after it has called \<open>recv\<close>: when the data
  is there, it takes the bytes from under the pending operation and reports success, although
  the header's contract for the slot is one operation at a time; \<open>readAll\<close> throws.
\<close>

lemma recvAll_ignores_pending_operation:
  assumes "file_at m this = Some f" and "operation (pendingOps f Rd) \<noteq> Op_none"
    and "in_s32 len" and "0 < len" and "run_call E (Sys_recv (fd f) buf len flags) m = (len, m1)"
  shows "File_recvAll E this buf len flags c m = obind (invoke E c len m1) (\<lambda>_ m2. ret () m2)"
  using assms
  by (simp add: File_recvAll_def try2_then_set_def with_file_Some File_tryOperation2_def
      tryOperation2_loop.simps [of E c _ buf len 0] tryOperation2_loop.simps [of E c _ buf len len] obind_assoc)

lemma recvAll_ignores_pending_operation_example:
  "File_recvAll pipe_env 1 200 2 0 (Some Log) (pipe_machine (pending Op_readAll 100 4 0 False Log) empty_op 1
      (pipe_world [2] [1, 2, 3])) =
   obind (user Log 2 (pipe_machine (pending Op_readAll 100 4 0 False Log) empty_op 1
      (pipe_world [] [3]\<lparr>memory := store_bytes word_of_int 200 [1, 2]\<rparr>))) (\<lambda>_ m2. ret () m2)"
  using recvAll_ignores_pending_operation [where E = pipe_env and this = 1
      and f = "pipe_file 5 (pending Op_readAll 100 4 0 False Log) empty_op"
      and m = "pipe_machine (pending Op_readAll 100 4 0 False Log) empty_op 1 (pipe_world [2] [1, 2, 3])"
      and buf = 200 and len = 2 and flags = 0 and c = "Some Log"]
  by (simp add: in_s32_def pipe_read_def Let_def allowance_def pipe_world_def)

text \<open>
  \<open>readvAll\<close> and \<open>writevAll\<close> do not look at the slot: they overwrite an operation that is
  pending there, whose callback is then never called.
\<close>

lemma readvAll_replaces_pending_operation:
  assumes "op_at m this Rd = Some o0" and "op_at m this Wr = Some o1"
    and "skipSynchronousAttempt o0" and "skipSynchronousAttempt o1"
  shows "(\<exists>m1 x. File_readvAll E this iov n c m = ret () m1 \<and> op_at m1 this Rd = Some x \<and>
      operation x = Op_readvAll \<and> op_cb x = c \<and> world m1 = world m) \<and>
    (\<exists>m1 x. File_writevAll E this iov n c m = ret () m1 \<and> op_at m1 this Wr = Some x \<and>
      operation x = Op_writevAll \<and> op_cb x = c \<and> world m1 = world m)"
  using assms by (simp add: File_readvAll_def File_writevAll_def with_op_Some vAll_op_def)

lemma tryOperation_repeat_never:
  assumes "\<And>m. 0 < fst (run_call E (call m) m)"
  shows "tryOperation_repeat E c call m \<noteq> ret b m'"
proof -
  have "call' = call \<longrightarrow> E' = E \<longrightarrow> out \<noteq> Ret b m'"
    if "tryOperation_repeat E' c call' m = Some out" for E' call' out
  proof (rule tryOperation_repeat.raw_induct [where P = "\<lambda>E' c call' m out.
      call' = call \<longrightarrow> E' = E \<longrightarrow> out \<noteq> Ret b m'", OF _ that], intro impI notI)
    fix f E' c call' m out
    assume IH: "\<And>E' c call' m out. f E' c call' m = Some out \<Longrightarrow>
        call' = call \<longrightarrow> E' = E \<longrightarrow> out \<noteq> Ret b m'"
      and eq: "(case run_call E' (call' m) m of (r, m1) \<Rightarrow>
         if r \<le> 0 then
           (if r < 0 \<and> isWouldBlock m1 then ret False m1
            else obind (invoke E' c r m1) (\<lambda>_ m2. ret True m2))
         else obind (invoke E' c r m1) (\<lambda>_ m2. f E' c call' m2)) = Some out"
      and e: "call' = call" "E' = E" "out = Ret b m'"
    obtain r m1 where r: "run_call E (call m) m = (r, m1)" "0 < r"
      using assms [of m] by (cases "run_call E (call m) m") auto
    then have "obind (invoke E c r m1) (\<lambda>_ m2. f E c call m2) = ret b m'" using eq e by simp
    then obtain m2 where "f E c call m2 = Some (Ret b m')" by (rule obind_RetE)
    then show False using IH e by blast
  qed
  then show ?thesis by blast
qed

text \<open>
  C33. A repeated request on a descriptor that is always ready never returns from its synchronous
  attempt: whatever the callback does (also \<open>cancelRead\<close>, which only frees the slot), the loop
  goes on, unless the callback throws or does not return itself.
\<close>

theorem ready_repeat_never_returns:
  assumes "file_at m this = Some f" and "operation (pendingOps f Rd) = Op_none"
    and "\<not> skipSynchronousAttempt (pendingOps f Rd)"
    and "\<forall>m. 0 < fst (run_call E (Sys_read (fd f) buf len) m)"
  shows "File_read E this buf len c True m \<noteq> ret () m'"
proof
  assume "File_read E this buf len c True m = ret () m'"
  then obtain b m1 where "tryOperation_repeat E c (\<lambda>_. Sys_read (fd f) buf len) m = ret b m1"
    using assms(1-3)
    by (auto simp: File_read_def try_then_add_def when_free_def with_op_Some [OF op_at_file [OF assms(1)]]
        with_file_Some File_tryOperation_def elim!: obind_RetE)
  then show False using tryOperation_repeat_never [of E "\<lambda>_. Sys_read (fd f) buf len"] assms(4) by blast
qed

definition zero_device :: "(pipe, user_code) env" where
  "zero_device = pipe_env\<lparr>sys := (\<lambda>c w. ((case c of Sys_read d b n \<Rightarrow> n | _ \<Rightarrow> 0, None), w))\<rparr>"

theorem ready_repeat_never_returns_witness:
  "File_read zero_device 1 100 4 (Some (Cancel 1)) True (pipe_machine empty_op empty_op 1 (pipe_world [] [])) \<noteq>
     ret () (pipe_machine empty_op empty_op 1 (pipe_world [] []))"
  by (rule ready_repeat_never_returns [where f = "pipe_file 5 empty_op empty_op"])
    (auto simp: zero_device_def run_call_def)

end
