(* ===== verification/CPoll_Serve.thy ===== *)
theory CPoll_Serve
  imports CPoll_Hangup
begin

text \<open>
  What one dispatch does when all pending operations are one-shot: it returns, and it leaves the
  objects in such a state again, also when a callback removes and deletes objects. The notifications
  of the running cycle are part of the state, because \<open>remove\<close> cancels them.
\<close>

section \<open>States\<close>

text \<open>
  The state of an \<open>EPoll\<close> object during a cycle: every notification left points to an object that
  exists.
\<close>

definition epoll_wf :: "ptr \<Rightarrow> ('w, 'cb) machine \<Rightarrow> bool" where
  "epoll_wf this m \<longleftrightarrow> (\<exists>e. epoll_at m this = Some e \<and>
     length (currCycleNotifications e) = EVENTSPERCYCLE \<and>
     currCycleNotificationsCount e \<le> int EVENTSPERCYCLE \<and>
     (\<forall>i. int i < currCycleNotificationsCount e \<longrightarrow>
        ev_ptr (currCycleNotifications e ! i) = 0 \<or> heap m (ev_ptr (currCycleNotifications e ! i)) \<noteq> None))"

definition is_socket :: "('w, 'cb) machine \<Rightarrow> ptr \<Rightarrow> bool" where
  "is_socket m p \<longleftrightarrow> (\<exists>f. heap m p = Some (Socket_object f))"

text \<open>Operations that an object performs; a one-shot operation has a callback and is not repeated.\<close>

definition performable :: "bool \<Rightarrow> Operations \<Rightarrow> bool" where
  "performable sock opr \<longleftrightarrow> is_ordinary opr \<or> is_all opr \<or> opr = Op_close \<or>
     sock \<and> (opr = Op_accept \<or> opr = Op_connect)"

definition oneshot :: "bool \<Rightarrow> 'cb OperationInfo \<Rightarrow> bool" where
  "oneshot sock opn \<longleftrightarrow> operation opn = Op_none \<or>
     performable sock (operation opn) \<and> \<not> repeating opn \<and> op_cb opn \<noteq> None"

text \<open>Events in which errors and hang-ups come with readiness, so that no slot is only hung up.\<close>

definition accompanied :: "32 word \<Rightarrow> bool" where
  "accompanied ev \<longleftrightarrow> (has_event ev EPOLLERR \<or> has_event ev EPOLLHUP \<longrightarrow> has_event ev EPOLLIN) \<and>
     (has_event ev EPOLLERR \<longrightarrow> has_event ev EPOLLOUT)"

text \<open>
  All pending operations are one-shot, and every outstanding notification is for an existing file,
  socket or timer. With \<open>del\<close>, callbacks may delete objects, and then events must be \<open>accompanied\<close>:
  \<open>handleHup\<close> uses the object after its callback.
\<close>

definition served :: "ptr \<Rightarrow> bool \<Rightarrow> ('w, 'cb) machine \<Rightarrow> bool" where
  "served ep del m \<longleftrightarrow> epoll_wf ep m \<and> (\<forall>p s x. op_at m p s = Some x \<longrightarrow> oneshot (is_socket m p) x) \<and>
     (\<forall>e. epoll_at m ep = Some e \<longrightarrow>
        (\<forall>i. int i < currCycleNotificationsCount e \<longrightarrow> ev_ptr (currCycleNotifications e ! i) = 0 \<or>
           epoll_at m (ev_ptr (currCycleNotifications e ! i)) = None) \<and>
        (del \<longrightarrow> (\<forall>x \<in> set (currCycleNotifications e). accompanied (ev_events x))))"

text \<open>An object is still there, of the same class and with its callbacks, or its notifications are cancelled.\<close>

definition same_object :: "ptr \<Rightarrow> ('w, 'cb) machine \<Rightarrow> ('w, 'cb) machine \<Rightarrow> bool" where
  "same_object p m m' \<longleftrightarrow> file_at m' p \<noteq> None \<and> is_socket m' p = is_socket m p \<and>
     (\<forall>s x. op_at m p s = Some x \<longrightarrow> op_cb x \<noteq> None \<longrightarrow> (\<exists>y. op_at m' p s = Some y \<and> op_cb y \<noteq> None))"

definition notified :: "ptr \<Rightarrow> ('w, 'cb) machine \<Rightarrow> nat \<Rightarrow> ptr \<Rightarrow> bool" where
  "notified ep m i p \<longleftrightarrow> (\<exists>e. epoll_at m ep = Some e \<and> int i < currCycleNotificationsCount e \<and>
     ev_ptr (currCycleNotifications e ! i) = p)"

definition stays :: "ptr \<Rightarrow> bool \<Rightarrow> ptr \<Rightarrow> ('w, 'cb) machine \<Rightarrow> ('w, 'cb) machine \<Rightarrow> bool" where
  "stays ep del p m m' \<longleftrightarrow> same_object p m m' \<or>
     del \<and> (\<forall>i. notified ep m i p \<longrightarrow> events_at m' (Notification ep i) = Some 0)"

text \<open>
  Callbacks that return, keep such a state, and delete a file or socket only with \<open>del\<close> and after
  removing it.
\<close>

definition gentle :: "('w, 'cb) env \<Rightarrow> ptr \<Rightarrow> bool \<Rightarrow> bool" where
  "gentle E ep del \<longleftrightarrow> (\<forall>k r m. served ep del m \<longrightarrow> (\<exists>m'. usr E k r m = ret () m' \<and> served ep del m' \<and>
     (\<forall>p. file_at m p \<noteq> None \<longrightarrow> stays ep del p m m')))"

section \<open>Steps of the library itself\<close>

lemma epoll_at_heap: "heap m1 = heap m \<Longrightarrow> epoll_at m1 p = epoll_at m p"
  by (simp add: epoll_at_def)

lemma is_socket_heap: "heap m1 = heap m \<Longrightarrow> is_socket m1 p = is_socket m p"
  by (simp add: is_socket_def)

lemma served_heap:
  assumes "heap m1 = heap m"
  shows "served ep del m1 = served ep del m"
  unfolding served_def epoll_wf_def epoll_at_heap [OF assms] op_at_heap [OF assms] is_socket_heap [OF assms]
    assms ..

lemma heap_put_op_None [simp]: "heap (put_op this s x m) p = None \<longleftrightarrow> heap m p = None"
  by (auto simp: put_op_def put_file_def file_at_def split: option.splits fd_object.splits)

lemma is_socket_put_op [simp]: "is_socket (put_op this s x m) p = is_socket m p"
  by (auto simp: is_socket_def put_op_def put_file_def file_at_def split: option.splits fd_object.splits)

lemma same_object_refl: "file_at m p \<noteq> None \<Longrightarrow> same_object p m m"
  by (auto simp: same_object_def)

lemma same_object_trans: "same_object p m m1 \<Longrightarrow> same_object p m1 m2 \<Longrightarrow> same_object p m m2"
  unfolding same_object_def by meson

text \<open>\<open>m'\<close> has come from \<open>m\<close> by steps of the library on the object \<open>this\<close>.\<close>

definition calm :: "ptr \<Rightarrow> bool \<Rightarrow> ptr \<Rightarrow> ('w, 'cb) machine \<Rightarrow> ('w, 'cb) machine \<Rightarrow> bool" where
  "calm ep del this m m' \<longleftrightarrow> served ep del m' \<and> same_object this m m' \<and> epoll_at m' ep = epoll_at m ep"

definition settles :: "ptr \<Rightarrow> bool \<Rightarrow> ptr \<Rightarrow> ('w, 'cb) machine \<Rightarrow> ('w, 'cb) machine \<Rightarrow> bool" where
  "settles ep del this m m' \<longleftrightarrow> served ep del m' \<and> stays ep del this m m'"

lemma calm_refl: "served ep del m \<Longrightarrow> file_at m this \<noteq> None \<Longrightarrow> calm ep del this m m"
  by (simp add: calm_def same_object_refl)

lemma calm_settles: "calm ep del this m m' \<Longrightarrow> settles ep del this m m'"
  by (simp add: calm_def settles_def stays_def)

lemma calm_heap:
  assumes "calm ep del this m m1" and "heap m2 = heap m1"
  shows "calm ep del this m m2"
  using assms(1) unfolding calm_def served_heap [OF assms(2)] same_object_def file_at_heap [OF assms(2)]
    op_at_heap [OF assms(2)] epoll_at_heap [OF assms(2)] is_socket_heap [OF assms(2)] .

lemma served_put_op:
  assumes "served ep del m" and "oneshot (is_socket m this) x"
  shows "served ep del (put_op this s x m)"
  unfolding served_def
proof (intro conjI allI impI)
  show "epoll_wf ep (put_op this s x m)"
    using assms(1) by (simp add: served_def epoll_wf_def del: not_None_eq)
  fix p s' y
  assume "op_at (put_op this s x m) p s' = Some y"
  then show "oneshot (is_socket (put_op this s x m) p) y"
    using assms(2) assms(1) [unfolded served_def, THEN conjunct2, THEN conjunct1] by (auto split: if_splits)
qed (use assms(1) in \<open>simp_all add: served_def\<close>)

lemma calm_put_op:
  assumes "calm ep del this m m1" and "op_at m1 this s = Some y" and "oneshot (is_socket m1 this) x"
    and "op_cb y \<noteq> None \<longrightarrow> op_cb x \<noteq> None"
  shows "calm ep del this m (put_op this s x m1)"
proof -
  obtain f where f: "file_at m1 this = Some f" using assms(1) by (auto simp: calm_def same_object_def)
  have "same_object this m1 (put_op this s x m1)"
    using assms(2,4) f by (auto simp: same_object_def file_at_put_op split: if_splits)
  then show ?thesis
    using assms(1,3) served_put_op same_object_trans unfolding calm_def epoll_at_put_op by blast
qed

lemma oneshot_reset [simp]:
  "operation x = Op_none \<Longrightarrow> oneshot k x"
  "oneshot k (x\<lparr>skipSynchronousAttempt := b\<rparr>) \<longleftrightarrow> oneshot k x"
  by (simp_all add: oneshot_def)

lemma served_op: "served ep del m \<Longrightarrow> op_at m p s = Some x \<Longrightarrow> oneshot (is_socket m p) x"
  by (simp add: served_def)

lemma served_events:
  assumes "served ep del m" and "i < EVENTSPERCYCLE"
  obtains ev where "events_at m (Notification ep i) = Some ev" and "del \<longrightarrow> accompanied ev"
proof -
  obtain e where e: "epoll_at m ep = Some e" "length (currCycleNotifications e) = EVENTSPERCYCLE"
    using assms(1) by (auto simp: served_def epoll_wf_def)
  then have "currCycleNotifications e ! i \<in> set (currCycleNotifications e)" using assms(2) by simp
  then show ?thesis using that e assms unfolding served_def by simp
qed

text \<open>A callback that the library calls as its last step.\<close>

lemma callback_settles:
  assumes "gentle E ep del" and "calm ep del this m m1"
  obtains m2 where "usr E k r m1 = ret () m2" and "settles ep del this m m2"
proof -
  have m1: "served ep del m1" "same_object this m m1" "epoll_at m1 ep = epoll_at m ep" "file_at m1 this \<noteq> None"
    using assms(2) by (simp_all add: calm_def same_object_def)
  obtain m2 where u: "usr E k r m1 = ret () m2" and s: "served ep del m2" and st: "stays ep del this m1 m2"
    using assms(1) m1(1,4) unfolding gentle_def by meson
  have "notified ep m1 i p = notified ep m i p" for i p unfolding notified_def m1(3) ..
  then have "stays ep del this m m2"
    using st same_object_trans [OF m1(2)] unfolding stays_def by auto
  then show ?thesis using that u s by (simp add: settles_def)
qed

lemma report_settles:
  assumes "gentle E ep del" and "calm ep del this m m1" and "op_at m1 this s = Some y"
    and "operation x = Op_none" and "op_cb x = op_cb y" and "op_cb y = Some k"
  shows "\<exists>m2. usr E k r (put_op this s x m1) = ret () m2 \<and> settles ep del this m m2"
proof -
  have "calm ep del this m (put_op this s x m1)"
    by (rule calm_put_op [OF assms(2,3)]) (use assms in simp_all)
  then show ?thesis using callback_settles [OF assms(1)] by metis
qed

section \<open>Performing operations\<close>

lemma calm_put_fd:
  assumes "calm ep del this m m1" and "file_at m1 this = Some f"
  shows "calm ep del this m (put_file this (f\<lparr>fd := d\<rparr>) m1)"
proof -
  let ?m = "put_file this (f\<lparr>fd := d\<rparr>) m1"
  have op: "op_at ?m p s = op_at m1 p s" for p s using assms(2) by (simp add: op_at_def)
  have sock: "is_socket ?m p = is_socket m1 p" and none: "heap ?m p = None \<longleftrightarrow> heap m1 p = None"
    and ep: "epoll_at ?m p = epoll_at m1 p" for p
    by (auto simp: is_socket_def put_file_def epoll_at_def split: option.splits fd_object.splits)
  have "served ep del ?m"
    using assms(1) unfolding calm_def served_def epoll_wf_def op sock none ep by (rule conjunct1)
  moreover have "same_object this m ?m"
    using assms unfolding calm_def same_object_def op sock by simp
  ultimately show ?thesis using assms(1) by (simp add: calm_def ep)
qed

lemma File_doOperation_settles:
  assumes g: "gentle E ep del" and sv: "served ep del m" and f: "file_at m this = Some f"
    and no: "operation (pendingOps f s) \<noteq> Op_accept" "operation (pendingOps f s) \<noteq> Op_connect"
  shows "\<exists>r m1. File_doOperation E this s w h' m = ret r m1 \<and> settles ep del this m m1"
proof -
  let ?opn = "pendingOps f s"
  have o: "op_at m this s = Some ?opn" by (rule op_at_file [OF f])
  have c: "calm ep del this m m" using sv f by (simp add: calm_refl)
  have one: "oneshot (is_socket m this) ?opn" by (rule served_op [OF sv o])
  then consider (none) "operation ?opn = Op_none"
    | (ordinary) "is_ordinary (operation ?opn)" | (all) "is_all (operation ?opn)"
    | (close) "operation ?opn = Op_close"
    using no by (auto simp: oneshot_def performable_def)
  then show ?thesis
  proof cases
    case none
    have "calm ep del this m (put_op this s (?opn\<lparr>skipSynchronousAttempt := False\<rparr>) m)"
      by (rule calm_put_op [OF c o]) (use one in simp_all)
    then show ?thesis using File_doOperation_idle [OF o none] calm_settles by blast
  next
    case ordinary
    then obtain k where k: "\<not> repeating ?opn" "op_cb ?opn = Some k"
      using one by (auto simp: oneshot_def less_eq_Operations_def)
    obtain r l m1 where att: "ordinary_attempt E (fd f) ?opn m = Some (r, l, m1)"
      by (rule ordinary_attempt_defined [OF ordinary])
    note h = ordinary_attempt_frame(1) [OF att]
    have c1: "calm ep del this m m1" and o1: "op_at m1 this s = Some ?opn"
      using calm_heap [OF c h] o op_at_heap [OF h] by simp_all
    note eq = doOperation_oneshot [OF f refl ordinary k(1) att, of w h']
    have wait: "calm ep del this m (put_op this s (?opn\<lparr>skipSynchronousAttempt := False\<rparr>) m1)"
      by (rule calm_put_op [OF c1 o1]) (use one is_socket_heap [OF h] in simp_all)
    show ?thesis
    proof (cases "r < 0 \<and> isWouldBlock m1")
      case True
      then show ?thesis using eq calm_settles [OF wait] by simp
    next
      case False
      obtain m2 where "usr E k r (put_op this s (?opn\<lparr>operation := Op_none,
            skipSynchronousAttempt := (0 < r \<and> r < l \<and> \<not> h')\<rparr>) m1) = ret () m2" "settles ep del this m m2"
        using report_settles [OF g c1 o1 _ _ k(2), of "?opn\<lparr>operation := Op_none,
            skipSynchronousAttempt := (0 < r \<and> r < l \<and> \<not> h')\<rparr>" r] by auto
      then show ?thesis using False k(2) unfolding eq by (auto simp: invoke_def)
    qed
  next
    case all
    then obtain k where k: "\<not> repeating ?opn" "op_cb ?opn = Some k"
      using one by (auto simp: oneshot_def less_eq_Operations_def)
    obtain r m1 where att: "all_attempt E (fd f) ?opn m = Some (r, m1)" by (rule all_attempt_defined [OF all])
    obtain o2 v where rec: "all_record ?opn r (iovs m1) = (o2, v)" by fastforce
    note h = all_attempt_frame(1) [OF att]
    have c1: "calm ep del this m x" and o1: "op_at x this s = Some ?opn" and s1: "is_socket x this = is_socket m this"
      if "heap x = heap m" for x
      using calm_heap [OF c that] o op_at_heap [OF that] is_socket_heap [OF that] by simp_all
    note rf = all_record_fields [OF rec]
    have one2: "oneshot (is_socket m this) o2" using one rf by (simp add: oneshot_def)
    have wt: "calm ep del this m (put_op this s (x\<lparr>skipSynchronousAttempt := False\<rparr>) m2)"
      if "heap m2 = heap m" "x = ?opn \<or> x = o2" for x m2
    proof (rule calm_put_op [OF c1 [OF that(1)] o1 [OF that(1)]])
      show "oneshot (is_socket m2 this) (x\<lparr>skipSynchronousAttempt := False\<rparr>)"
        using that(2) one one2 unfolding s1 [OF that(1)] by auto
      show "op_cb ?opn \<noteq> None \<longrightarrow> op_cb (x\<lparr>skipSynchronousAttempt := False\<rparr>) \<noteq> None"
        using that(2) rf(1) by auto
    qed
    have fin: "\<exists>r' m3. obind (invoke E (op_cb ?opn) q (put_op this s x m2)) (\<lambda>_ m'. ret res m') = ret r' m3 \<and>
        settles ep del this m m3"
      if "heap m2 = heap m" "operation x = Op_none" "op_cb x = op_cb ?opn" for x m2 q and res :: OperationResult
    proof -
      have "\<exists>m3. usr E k q (put_op this s x m2) = ret () m3 \<and> settles ep del this m m3"
        by (rule report_settles [OF g c1 [OF that(1)] o1 [OF that(1)] that(2,3) k(2)])
      then show ?thesis using k(2) by (auto simp: invoke_def)
    qed
    have hv: "heap (m1\<lparr>iovs := v\<rparr>) = heap m" using h by simp
    note eq = doOperation_all [OF f refl all k(1) att rec, of w h']
    consider (wait) "r < 0 \<and> isWouldBlock m1"
      | (stop) "\<not> (r < 0 \<and> isWouldBlock m1)" "r \<le> 0"
      | (finish) "0 < r" "op_lenTotal ?opn \<le> s32 (op_lenDone ?opn + r) \<or> h'"
      | (more) "0 < r" "\<not> (op_lenTotal ?opn \<le> s32 (op_lenDone ?opn + r) \<or> h')" by linarith
    then show ?thesis
    proof cases
      case wait
      then show ?thesis unfolding eq using calm_settles [OF wt [OF h, of ?opn]] by auto
    next
      case stop
      then show ?thesis unfolding eq if_not_P [OF stop(1)] if_P [OF stop(2)] by (intro fin h) simp_all
    next
      case finish
      then have "\<not> (r < 0 \<and> isWouldBlock m1)" "\<not> r \<le> 0" by simp_all
      note e = eq [unfolded if_not_P [OF this(1)] if_not_P [OF this(2)] if_P [OF finish(2)] Let_def]
      have cb: "op_cb ?opn \<noteq> None" using k(2) by simp
      show ?thesis unfolding e if_P [OF cb] by (intro fin hv) (simp_all add: rf(1))
    next
      case more
      then have "\<not> (r < 0 \<and> isWouldBlock m1)" "\<not> r \<le> 0" by simp_all
      note e = eq [unfolded if_not_P [OF this(1)] if_not_P [OF this(2)] if_not_P [OF more(2)]]
      show ?thesis unfolding e using calm_settles [OF wt [OF hv, of o2]] by auto
    qed
  next
    case close
    then obtain k where k: "op_cb ?opn = Some k" using one by (auto simp: oneshot_def)
    let ?m = "put_op this s (?opn\<lparr>skipSynchronousAttempt := False\<rparr>) m"
    have c1: "calm ep del this m ?m" by (rule calm_put_op [OF c o]) (use one in simp_all)
    have op1: "op_at ?m this s = Some (?opn\<lparr>skipSynchronousAttempt := False\<rparr>)" using o by simp
    then obtain f1 where f1: "file_at ?m this = Some f1" "pendingOps f1 s = ?opn\<lparr>skipSynchronousAttempt := False\<rparr>"
      by (rule op_at_obtain_file)
    obtain r m1 where call: "run_call E (Sys_close (fd f1)) ?m = (r, m1)" by fastforce
    note h = run_call_frame(1) [OF call]
    let ?m2 = "put_file this (f1\<lparr>fd := -1\<rparr>) m1"
    have f2: "file_at m1 this = Some f1" using f1 file_at_heap [OF h] by simp
    have c2: "calm ep del this m ?m2" by (rule calm_put_fd [OF calm_heap [OF c1 h] f2])
    have op2: "op_at ?m2 this s = Some (?opn\<lparr>skipSynchronousAttempt := False\<rparr>)"
      using f1(2) f2 by (simp add: op_at_def)
    obtain m3 where m3: "usr E k r (put_op this s (?opn\<lparr>skipSynchronousAttempt := False, operation := Op_none\<rparr>) ?m2) = ret () m3"
      "settles ep del this m m3"
      using report_settles [OF g c2 op2, of "?opn\<lparr>skipSynchronousAttempt := False, operation := Op_none\<rparr>" k r] k by auto
    then show ?thesis
      using close k call op1 op2 f1
      by (simp add: File_doOperation_def with_op_Some [OF o] Let_def less_eq_Operations_def all_or_other_def
          with_op_Some other_block_def File_close_def with_file_Some invoke_def)
  qed
qed

section \<open>Hang-up without deletion\<close>

lemma settles_iff: "settles ep False this m m' \<longleftrightarrow> served ep False m' \<and> same_object this m m'"
  by (simp add: settles_def stays_def)

lemma settles_trans: "settles ep False this m m1 \<Longrightarrow> settles ep False this m1 m2 \<Longrightarrow> settles ep False this m m2"
  using same_object_trans by (auto simp: settles_iff)

lemma callback_again:
  assumes "gentle E ep False" and "settles ep False this m m1" and "heap m2 = heap m1"
  shows "\<exists>m3. usr E k r m2 = ret () m3 \<and> settles ep False this m m3"
proof -
  have "calm ep False this m1 m2"
    using calm_heap [OF calm_refl assms(3)] assms(2) by (auto simp: settles_iff same_object_def)
  then obtain m3 where "usr E k r m2 = ret () m3" "settles ep False this m1 m3"
    by (rule callback_settles [OF assms(1)])
  then show ?thesis using settles_trans [OF assms(2)] by blast
qed

lemma settled_op:
  assumes "settles ep False this m m1"
  obtains x where "op_at m1 this s = Some x" and "oneshot (is_socket m1 this) x"
    and "\<And>y. op_at m this s = Some y \<Longrightarrow> op_cb y \<noteq> None \<Longrightarrow> op_cb x \<noteq> None"
proof -
  obtain f where "file_at m1 this = Some f" using assms by (auto simp: settles_iff same_object_def)
  then have o: "op_at m1 this s = Some (pendingOps f s)" by (rule op_at_file)
  moreover have "oneshot (is_socket m1 this) (pendingOps f s)"
    using assms served_op [OF _ o, of ep False] by (simp add: settles_iff)
  moreover have "op_cb (pendingOps f s) \<noteq> None" if "op_at m this s = Some y" "op_cb y \<noteq> None" for y
  proof -
    have "\<exists>z. op_at m1 this s = Some z \<and> op_cb z \<noteq> None"
      using assms that unfolding settles_iff same_object_def by blast
    then show ?thesis using o by simp
  qed
  ultimately show ?thesis using that by blast
qed

lemma hup_all_part_settles:
  assumes g: "gentle E ep False" and m1: "settles ep False this m m1"
  shows "\<exists>m2. hup_all_part E this s w m1 = ret () m2 \<and> settles ep False this m m2"
proof -
  obtain x where x: "op_at m1 this s = Some x" "oneshot (is_socket m1 this) x" by (rule settled_op [OF m1])
  show ?thesis
  proof (cases "hup_all (operation x)")
    case False
    then show ?thesis using m1 x by (auto simp: hup_all_part_def with_op_Some)
  next
    case True
    then obtain k where k: "op_cb x = Some k" using x(2) by (auto simp: oneshot_def less_eq_Operations_def)
    let ?m2 = "put_op this s (x\<lparr>operation := Op_none\<rparr>) m1"
    have "calm ep False this m1 ?m2"
      by (rule calm_put_op [OF calm_refl x(1)]) (use m1 in \<open>auto simp: settles_iff same_object_def\<close>)
    then have m2: "settles ep False this m1 ?m2" by (rule calm_settles)
    obtain m3 where m3: "(if 0 < rw_lenDone (readWrite x) then invoke E (op_cb x) (rw_lenDone (readWrite x)) ?m2
        else ret () ?m2) = ret () m3" "settles ep False this m1 m3"
    proof (cases "0 < rw_lenDone (readWrite x)")
      case True
      then show ?thesis using callback_again [OF g m2 refl, of k "rw_lenDone (readWrite x)"] k that
        by (auto simp: invoke_def)
    qed (use m2 that in simp)
    obtain y where y: "op_at m3 this s = Some y" "op_cb y \<noteq> None"
      using settled_op [OF m3(2)] x(1) k by (metis option.distinct(1))
    obtain k2 where k2: "op_cb y = Some k2" using y(2) by blast
    obtain m4 where m4: "usr E k2 (hup_result w) (m3\<lparr>errno := hup_errno w\<rparr>) = ret () m4" "settles ep False this m1 m4"
      using callback_again [OF g m3(2), of "m3\<lparr>errno := hup_errno w\<rparr>"] by auto
    have "hup_all_part E this s w m1 = ret () m4"
      using True x(1) m3(1) y(1) k2 m4(1) by (simp add: hup_all_part_def with_op_Some Let_def invoke_def)
    then show ?thesis using settles_trans [OF m1 m4(2)] by blast
  qed
qed

lemma File_handleHup_settles:
  assumes g: "gentle E ep False" and sv: "served ep False m" and f: "file_at m this = Some f"
  shows "\<exists>m1. File_handleHup E this s w m = ret () m1 \<and> settles ep False this m m1"
proof -
  let ?opn = "pendingOps f s"
  have o: "op_at m this s = Some ?opn" by (rule op_at_file [OF f])
  have c: "calm ep False this m m" using sv f by (simp add: calm_refl)
  have one: "oneshot (is_socket m this) ?opn" by (rule served_op [OF sv o])
  show ?thesis
  proof (cases "hup_ordinary (operation ?opn)")
    case True
    then obtain k where k: "op_cb ?opn = Some k" using one by (auto simp: oneshot_def less_eq_Operations_def)
    let ?m1 = "(put_op this s (?opn\<lparr>operation := Op_none\<rparr>) m)\<lparr>errno := hup_errno w\<rparr>"
    have "calm ep False this m (put_op this s (?opn\<lparr>operation := Op_none\<rparr>) m)" by (rule calm_put_op [OF c o]) simp_all
    then have "calm ep False this m ?m1" by (rule calm_heap) simp
    then obtain m2 where m2: "usr E k (hup_result w) ?m1 = ret () m2" "settles ep False this m m2"
      by (rule callback_settles [OF g])
    then show ?thesis
      using hup_all_part_settles [OF g m2(2), of s w] True k hup_ordinary_not_none [OF True]
      by (simp add: File_handleHup_def with_op_Some [OF o] invoke_def)
  next
    case False
    then show ?thesis
      using hup_all_part_settles [OF g calm_settles [OF c], of s w] calm_settles [OF c]
      by (auto simp: File_handleHup_def with_op_Some [OF o])
  qed
qed

section \<open>Sockets\<close>

lemma finish_connect_settles:
  assumes g: "gentle E ep del" and sv: "served ep del m" and f: "file_at m this = Some f"
    and k: "op_cb (pendingOps f s) = Some k"
  shows "\<exists>m1. finish_connect E this s m = ret () m1 \<and> settles ep del this m m1"
proof -
  let ?opn = "pendingOps f s"
  have o: "op_at m this s = Some ?opn" by (rule op_at_file [OF f])
  obtain r v m1 where out: "run_out (sys_so_error E (fd f)) m = (r, v, m1)" by (metis prod_cases3)
  let ?m2 = "if 0 \<le> r then m1\<lparr>errno := v\<rparr> else m1"
  have h: "heap ?m2 = heap m" using run_out_frame(1) [OF out] by simp
  have c: "calm ep del this m ?m2" using calm_heap [OF calm_refl h] sv f by simp
  have o2: "op_at ?m2 this s = Some ?opn" using o unfolding op_at_heap [OF h] .
  from report_settles [OF g c o2, of "?opn\<lparr>operation := Op_none\<rparr>" k "if errno ?m2 = 0 then 0 else -1"] k
  show ?thesis by (simp add: finish_connect_def with_file_Some [OF f] with_op_Some [OF o] out invoke_def Let_def)
qed

lemma Socket_doOperation_settles:
  assumes g: "gentle E ep del" and sv: "served ep del m" and f: "file_at m this = Some f"
  shows "\<exists>r m1. Socket_doOperation E this s w h m = ret r m1 \<and> settles ep del this m m1"
proof -
  let ?opn = "pendingOps f s"
  have o: "op_at m this s = Some ?opn" by (rule op_at_file [OF f])
  have one: "oneshot (is_socket m this) ?opn" by (rule served_op [OF sv o])
  consider (accept) "operation ?opn = Op_accept" | (connect) "operation ?opn = Op_connect"
    | (other) "operation ?opn \<noteq> Op_accept" "operation ?opn \<noteq> Op_connect" by blast
  then show ?thesis
  proof cases
    case accept
    then obtain k where k: "\<not> repeating ?opn" "op_cb ?opn = Some k" using one by (auto simp: oneshot_def)
    obtain r m1 where call: "run_call E (Sys_accept4 (fd f) SOCK_FLAGS) m = (r, m1)" by fastforce
    note h = run_call_frame(1) [OF call]
    have c: "calm ep del this m m1" using calm_heap [OF calm_refl h] sv f by simp
    have o1: "op_at m1 this s = Some ?opn" using o unfolding op_at_heap [OF h] .
    obtain m2 where "usr E k r (put_op this s (?opn\<lparr>operation := Op_none\<rparr>) m1) = ret () m2" "settles ep del this m m2"
      using report_settles [OF g c o1, of "?opn\<lparr>operation := Op_none\<rparr>" k r] k by auto
    then show ?thesis
      using accept k call calm_settles [OF c]
      by (auto simp: Socket_doOperation_def with_op_Some [OF o] Socket_accept_def with_file_Some [OF f] invoke_def)
  next
    case connect
    then obtain k where "op_cb ?opn = Some k" using one by (auto simp: oneshot_def)
    from finish_connect_settles [OF g sv f this] connect show ?thesis
      by (auto simp: Socket_doOperation_def with_op_Some [OF o])
  next
    case other
    then show ?thesis
      using File_doOperation_settles [OF g sv f other] Socket_doOperation_File [OF o other] by simp
  qed
qed

lemma Socket_handleHup_settles:
  assumes g: "gentle E ep False" and sv: "served ep False m" and f: "file_at m this = Some f"
  shows "\<exists>m1. Socket_handleHup E this s w m = ret () m1 \<and> settles ep False this m m1"
proof -
  let ?opn = "pendingOps f s"
  have o: "op_at m this s = Some ?opn" by (rule op_at_file [OF f])
  have one: "oneshot (is_socket m this) ?opn" by (rule served_op [OF sv o])
  consider (accept) "operation ?opn = Op_accept" | (connect) "operation ?opn = Op_connect"
    | (other) "operation ?opn \<noteq> Op_accept" "operation ?opn \<noteq> Op_connect" by blast
  then show ?thesis
  proof cases
    case accept
    then obtain k where k: "op_cb ?opn = Some k" using one by (auto simp: oneshot_def)
    have "calm ep False this m (put_op this s (?opn\<lparr>operation := Op_none\<rparr>) m)"
      by (rule calm_put_op [OF calm_refl o]) (use sv f in simp_all)
    then have "calm ep False this m ((put_op this s (?opn\<lparr>operation := Op_none\<rparr>) m)\<lparr>errno := EPIPE\<rparr>)"
      by (rule calm_heap) simp
    from callback_settles [OF g this, of k "-1"] accept k show ?thesis
      by (auto simp: Socket_handleHup_def with_op_Some [OF o] invoke_def)
  next
    case connect
    then obtain k where "op_cb ?opn = Some k" using one by (auto simp: oneshot_def)
    from finish_connect_settles [OF g sv f this] connect show ?thesis
      by (auto simp: Socket_handleHup_def with_op_Some [OF o])
  next
    case other
    then show ?thesis
      using File_handleHup_settles [OF g sv f] Socket_handleHup_File [OF o other] by simp
  qed
qed

section \<open>One dispatch\<close>

text \<open>What \<open>dispatch\<close> needs of the class of an object to be done with a notification.\<close>

locale served_object =
  fixes ep :: ptr and del :: bool and this :: ptr
    and doOp :: "slot \<Rightarrow> bool \<Rightarrow> bool \<Rightarrow> ('w, 'cb) machine \<Rightarrow> (OperationResult, ('w, 'cb) machine) result"
    and hh :: "slot \<Rightarrow> bool \<Rightarrow> ('w, 'cb) machine \<Rightarrow> (unit, ('w, 'cb) machine) result"
    and mine :: "('w, 'cb) machine \<Rightarrow> bool"
  assumes doOp_settles: "\<And>m s w h. served ep del m \<Longrightarrow> mine m \<Longrightarrow>
      \<exists>r m1. doOp s w h m = ret r m1 \<and> settles ep del this m m1"
    and hh_settles: "\<And>m s w. \<not> del \<Longrightarrow> served ep del m \<Longrightarrow> mine m \<Longrightarrow>
      \<exists>m1. hh s w m = ret () m1 \<and> settles ep del this m m1"
    and mine_stays: "\<And>m m'. mine m \<Longrightarrow> same_object this m m' \<Longrightarrow> mine m'"
    and mine_there: "\<And>m. mine m \<Longrightarrow> file_at m this \<noteq> None"
begin

lemma half_returns:
  assumes "served ep del m" and "mine m" and "del \<and> b \<longrightarrow> a"
  shows "\<exists>m1. (if a then obind (doOp s w h m) (\<lambda>_ m'. ret () m') else if b then hh s w m else ret () m) =
    ret () m1 \<and> settles ep del this m m1"
proof (cases a)
  case True
  then show ?thesis using doOp_settles [OF assms(1,2), of s w h] by auto
next
  case False
  have "settles ep del this m m"
    using assms(1) mine_there [OF assms(2)] by (simp add: calm_settles calm_refl)
  then show ?thesis using False assms hh_settles [OF _ assms(1,2), of s w] by auto
qed

lemma dispatch_returns:
  assumes sv: "served ep del m" and mine: "mine m" and n: "notified ep m i this" and i: "i < EVENTSPERCYCLE"
  shows "\<exists>m1. dispatch_slots doOp hh (Notification ep i) m = ret () m1 \<and> served ep del m1"
proof -
  let ?ref = "Notification ep i"
  obtain ev where ev: "events_at m ?ref = Some ev" "del \<longrightarrow> accompanied ev" by (rule served_events [OF sv i])
  have acc: "del \<and> (has_event ev EPOLLERR \<or> has_event ev EPOLLHUP) \<longrightarrow> has_event ev EPOLLIN"
    using ev(2) by (auto simp: accompanied_def)
  obtain m1 where m1: "(if has_event ev EPOLLIN
       then obind (doOp Rd False (has_event ev EPOLLERR \<or> has_event ev EPOLLHUP) m) (\<lambda>_ m'. ret () m')
       else if has_event ev EPOLLERR \<or> has_event ev EPOLLHUP then hh Rd False m else ret () m) = ret () m1"
      "settles ep del this m m1"
    using half_returns [OF sv mine acc] by blast
  then have sv1: "served ep del m1" by (simp add: settles_def)
  obtain ev1 where ev1: "events_at m1 ?ref = Some ev1" "del \<longrightarrow> accompanied ev1" by (rule served_events [OF sv1 i])
  note eq = dispatch_slots_def [of doOp hh ?ref m, unfolded with_events_Some [OF ev(1)] m1(1) obind_simps
      with_events_Some [OF ev1(1)]]
  consider (there) "same_object this m m1" | (gone) "events_at m1 ?ref = Some 0"
    using m1(2) n by (auto simp: settles_def stays_def)
  then show ?thesis
  proof cases
    case there
    have "del \<and> has_event ev1 EPOLLERR \<longrightarrow> has_event ev1 EPOLLOUT" using ev1(2) by (auto simp: accompanied_def)
    from half_returns [OF sv1 mine_stays [OF mine there] this, of Wr True "has_event ev1 EPOLLERR"]
    show ?thesis unfolding eq settles_def by blast
  next
    case gone
    then have "ev1 = 0" using ev1(1) by simp
    then show ?thesis unfolding eq using sv1 by (simp add: has_event_def)
  qed
qed

end

interpretation served_file: served_object ep del this "File_doOperation E this" "File_handleHup E this"
  "\<lambda>m. gentle E ep del \<and> file_at m this \<noteq> None \<and> \<not> is_socket m this"
  for E :: "('w, 'cb) env" and ep del this
proof (unfold_locales, goal_cases)
  case (1 m s w h)
  then obtain f where f: "file_at m this = Some f" by blast
  have "oneshot False (pendingOps f s)" using served_op [OF 1(1) op_at_file [OF f]] 1(2) by simp
  then have "operation (pendingOps f s) \<noteq> Op_accept" "operation (pendingOps f s) \<noteq> Op_connect"
    by (auto simp: oneshot_def performable_def less_eq_Operations_def)
  then show ?case using 1 f by (intro File_doOperation_settles) auto
next
  case (2 m s w)
  then show ?case using File_handleHup_settles by auto
qed (auto simp: same_object_def)

interpretation served_socket: served_object ep del this "Socket_doOperation E this" "Socket_handleHup E this"
  "\<lambda>m. gentle E ep del \<and> file_at m this \<noteq> None"
  for E :: "('w, 'cb) env" and ep del this
proof (unfold_locales, goal_cases)
  case (1 m s w h)
  then show ?case using Socket_doOperation_settles by blast
next
  case (2 m s w)
  then show ?case using Socket_handleHup_settles by auto
qed (auto simp: same_object_def)

lemma timer_returns:
  assumes g: "gentle E ep del" and sv: "served ep del m" and t: "heap m p = Some (Timer_object t)"
    and i: "i < EVENTSPERCYCLE"
  shows "\<exists>m1. Timer_dispatch E p (Notification ep i) m = ret () m1 \<and> served ep del m1"
proof -
  obtain ev where ev: "events_at m (Notification ep i) = Some ev" by (rule served_events [OF sv i])
  obtain r n m1 where out: "run_out (sys_timer_read E (timer_fd t)) m = (r, n, m1)"
    by (cases "run_out (sys_timer_read E (timer_fd t)) m")
  have m1: "served ep del m1" using served_heap [OF run_out_frame(1) [OF out]] sv by simp
  have "\<exists>m2. usr E k x m1 = ret () m2 \<and> served ep del m2" for k x
    using g m1 unfolding gentle_def by meson
  then show ?thesis
    using m1 sv t out
    by (simp add: Timer_dispatch_def with_events_Some [OF ev] with_timer_def timer_at_def invoke_def
        split: option.split)
qed

lemma virtual_dispatch_returns:
  assumes g: "gentle E ep del" and sv: "served ep del m" and n: "notified ep m i p" and there: "p \<noteq> 0" "heap m p \<noteq> None"
  shows "\<exists>m1. virtual_dispatch E p (Notification ep i) m = ret () m1 \<and> served ep del m1"
proof -
  obtain e where e: "epoll_at m ep = Some e" "int i < currCycleNotificationsCount e"
      "ev_ptr (currCycleNotifications e ! i) = p"
    using n by (auto simp: notified_def)
  have i: "i < EVENTSPERCYCLE" using sv e(1,2) by (auto simp: served_def epoll_wf_def)
  have "ev_ptr (currCycleNotifications e ! i) = 0 \<or> epoll_at m (ev_ptr (currCycleNotifications e ! i)) = None"
    using sv e(1,2) unfolding served_def by simp
  then have no: "epoll_at m p = None" unfolding e(3) using there(1) by simp
  obtain x where x: "heap m p = Some x" using there(2) by blast
  show ?thesis
  proof (cases x)
    case (File_object f)
    then have "file_at m p \<noteq> None" "\<not> is_socket m p" using x by (simp_all add: file_at_def is_socket_def)
    then show ?thesis
      using served_file.dispatch_returns [OF sv _ n i] g File_object x
      by (simp add: virtual_dispatch_def File_dispatch_def)
  next
    case (Socket_object f)
    then have "file_at m p \<noteq> None" using x by (simp add: file_at_def)
    then show ?thesis
      using served_socket.dispatch_returns [OF sv _ n i] g Socket_object x
      by (simp add: virtual_dispatch_def Socket_dispatch_def)
  next
    case (Timer_object t)
    then show ?thesis using timer_returns [OF g sv _ i] x by (simp add: virtual_dispatch_def)
  next
    case (EPoll_object e)
    then show ?thesis using no x by (simp add: epoll_at_def)
  qed
qed

lemma served_end:
  assumes "served this del m" and "epoll_at m this = Some e"
  shows "served this del (put_epoll this (e\<lparr>currCycleNotificationsCount := 0\<rparr>) m)"
proof -
  have h: "heap m this = Some (EPoll_object e)"
    using assms(2) by (auto simp: epoll_at_def split: option.splits fd_object.splits)
  then have "op_at (put_epoll this e' m) p s = op_at m p s"
    and "is_socket (put_epoll this e' m) p = is_socket m p" for e' p s
    by (simp_all add: op_at_def file_at_def put_epoll_def is_socket_def)
  then show ?thesis using assms by (simp add: served_def epoll_wf_def)
qed

end
