(* ===== verification/CPoll_Loop.thy ===== *)
theory CPoll_Loop
  imports CPoll_Serve
begin

text \<open>
  The contract of \<open>EPoll\<close>: what \<open>remove\<close> promises, when a cycle returns, in which order it
  dispatches, and what failures and nested cycles do.
\<close>

section \<open>Removal\<close>

text \<open>
  C19. \<open>remove\<close> cancels exactly the outstanding notifications of its object: their events become 0
  and their pointer null; the other notifications, their number and every other object stay as
  they are.
\<close>

theorem remove_cancels_notifications:
  assumes "EPoll_remove E this p m = ret () m'" and "epoll_at m this = Some e"
  shows "\<exists>e'. epoll_at m' this = Some e' \<and> currCycleNotificationsCount e' = currCycleNotificationsCount e \<and>
    length (currCycleNotifications e') = length (currCycleNotifications e) \<and>
    (\<forall>i. int i < currCycleNotificationsCount e \<longrightarrow> i < length (currCycleNotifications e) \<longrightarrow>
       currCycleNotifications e' ! i =
         (if ev_ptr (currCycleNotifications e ! i) = p then \<lparr>ev_events = 0, ev_ptr = 0\<rparr>
          else currCycleNotifications e ! i)) \<and>
    (\<forall>q. q \<noteq> this \<longrightarrow> heap m' q = heap m q)"
proof -
  obtain e1 where "epoll_at m this = Some e1"
    and h: "heap m' = (heap m)(this \<mapsto> EPoll_object (e1\<lparr>currCycleNotifications :=
       cancel_events p (currCycleNotificationsCount e1) (currCycleNotifications e1)\<rparr>))"
    using assms(1) by (rule EPoll_remove_ret)
  then have "e1 = e" using assms(2) by simp
  then show ?thesis using h by (simp add: epoll_at_def cancel_events_nth cancel_event_def)
qed

lemma remove_pipe_env:
  "EPoll_remove pipe_env 9 1 (pipe_machine o0 o1 ev w) = ret () ((pipe_machine o0 o1 ev w)\<lparr>heap :=
     (heap (pipe_machine o0 o1 ev w))(9 \<mapsto> EPoll_object \<lparr>epoll_fd = 4,
       currCycleNotifications = [\<lparr>ev_events = 0, ev_ptr = 0\<rparr>], currCycleNotificationsCount = 1\<rparr>)\<rparr>)"
  by (simp add: EPoll_remove_def with_epoll_def epoll_at_def object_machine_def put_epoll_def
      EVENTSPERCYCLE_def cancel_events_def cancel_event_def fd_of_def run_call_def pipe_sys_def)

theorem remove_cancels_notifications_witness:
  "\<exists>m' e'. EPoll_remove pipe_env 9 1 (pipe_machine empty_op empty_op 5 (pipe_world [] [])) = ret () m' \<and>
     epoll_at m' 9 = Some e' \<and> currCycleNotifications e' ! 0 = \<lparr>ev_events = 0, ev_ptr = 0\<rparr>"
proof -
  let ?m = "pipe_machine empty_op empty_op 5 (pipe_world [] [])"
  let ?e = "\<lparr>epoll_fd = 4, currCycleNotifications = [\<lparr>ev_events = 5, ev_ptr = 1\<rparr>],
      currCycleNotificationsCount = 1\<rparr>"
  obtain m' where m': "EPoll_remove pipe_env 9 1 ?m = ret () m'" using remove_pipe_env by blast
  have "epoll_at ?m 9 = Some ?e" by (simp add: epoll_at_object)
  from remove_cancels_notifications [OF m' this] m' show ?thesis by (elim exE conjE, intro exI conjI) simp_all
qed

lemma epoll_wf_removed:
  assumes wf: "epoll_wf this m" and e: "epoll_at m this = Some e" and p: "p \<noteq> this"
    and h: "heap m' = (heap m)(this \<mapsto> EPoll_object (e\<lparr>currCycleNotifications :=
       cancel_events p (currCycleNotificationsCount e) (currCycleNotifications e)\<rparr>))"
  shows "epoll_wf this (free_object p m')"
proof -
  from assms(1) e have wf': "length (currCycleNotifications e) = EVENTSPERCYCLE"
    "currCycleNotificationsCount e \<le> int EVENTSPERCYCLE"
    "\<And>i. int i < currCycleNotificationsCount e \<Longrightarrow> ev_ptr (currCycleNotifications e ! i) = 0 \<or>
       heap m (ev_ptr (currCycleNotifications e ! i)) \<noteq> None"
    unfolding epoll_wf_def by auto
  have "heap m this \<noteq> None" using e by (auto simp: epoll_at_def split: option.splits)
  then have keep: "ev_ptr x = 0 \<or> heap (free_object p m') (ev_ptr x) \<noteq> None"
    if "x = cancel_event p (currCycleNotifications e ! i)" "int i < currCycleNotificationsCount e" for x i
    using wf'(3) [OF that(2)] that(1) h by (auto simp: cancel_event_def)
  have at: "epoll_at (free_object p m') this = Some (e\<lparr>currCycleNotifications :=
       cancel_events p (currCycleNotificationsCount e) (currCycleNotifications e)\<rparr>)"
    using h p by (simp add: epoll_at_def)
  show ?thesis
    unfolding epoll_wf_def
  proof (intro exI conjI allI impI, rule at)
    fix i
    assume "int i < currCycleNotificationsCount (e\<lparr>currCycleNotifications :=
       cancel_events p (currCycleNotificationsCount e) (currCycleNotifications e)\<rparr>)"
    then have i: "int i < currCycleNotificationsCount e" by simp
    then have "i < length (currCycleNotifications e)" using wf'(1,2) by simp
    then show "ev_ptr (currCycleNotifications (e\<lparr>currCycleNotifications :=
         cancel_events p (currCycleNotificationsCount e) (currCycleNotifications e)\<rparr>) ! i) = 0 \<or>
       heap (free_object p m') (ev_ptr (currCycleNotifications (e\<lparr>currCycleNotifications :=
         cancel_events p (currCycleNotificationsCount e) (currCycleNotifications e)\<rparr>) ! i)) \<noteq> None"
      using keep [OF refl i] by (simp add: cancel_events_nth [OF i] del: free_object_simps not_None_eq)
  qed (use wf'(1,2) in simp_all)
qed


text \<open>
  C11. The contract in the header: after \<open>remove\<close> the object may be deleted. Deleting it then keeps
  every outstanding notification pointing to an existing object.
\<close>

theorem remove_then_delete_is_safe:
  assumes "epoll_wf this m" and "EPoll_remove E this p m = ret () m'" and "p \<noteq> this"
  shows "epoll_wf this (free_object p m')"
proof -
  obtain e where "epoll_at m this = Some e"
    and "heap m' = (heap m)(this \<mapsto> EPoll_object (e\<lparr>currCycleNotifications :=
       cancel_events p (currCycleNotificationsCount e) (currCycleNotifications e)\<rparr>))"
    using assms(2) by (rule EPoll_remove_ret)
  then show ?thesis by (rule epoll_wf_removed [OF assms(1) _ assms(3)])
qed

text \<open>A cycle that has received a readiness event of object 1 and one of timer 3.\<close>

definition cycle_machine :: "(pipe, user_code) machine" where
  "cycle_machine = (pipe_machine (pending Op_read 100 4 0 False Log) empty_op 1 (pipe_world [2, 3] []))\<lparr>heap :=
     (heap (pipe_machine (pending Op_read 100 4 0 False Log) empty_op 1 (pipe_world [2, 3] [])))(9 \<mapsto> EPoll_object \<lparr>epoll_fd = 4,
       currCycleNotifications = [\<lparr>ev_events = 1, ev_ptr = 1\<rparr>, \<lparr>ev_events = 1, ev_ptr = 3\<rparr>] @
         replicate 30 \<lparr>ev_events = 0, ev_ptr = 0\<rparr>,
       currCycleNotificationsCount = 2\<rparr>)\<rparr>"

lemma less_2_nat: "i < (2::nat) \<Longrightarrow> i = 0 \<or> i = 1"
  by auto

lemma cycle_machine_wf: "epoll_wf 9 cycle_machine"
  by (auto simp: epoll_wf_def cycle_machine_def epoll_at_def EVENTSPERCYCLE_def object_machine_def
      dest!: less_2_nat)

lemma cycle_machine_remove: "\<exists>m'. EPoll_remove pipe_env 9 1 cycle_machine = ret () m'"
  by (simp add: EPoll_remove_def with_epoll_def epoll_at_def object_machine_def put_epoll_def
      cycle_machine_def EVENTSPERCYCLE_def fd_of_def run_call_def pipe_sys_def)

theorem remove_then_delete_is_safe_witness:
  "\<exists>m'. EPoll_remove pipe_env 9 1 cycle_machine = ret () m' \<and> epoll_wf 9 (free_object 1 m')"
proof -
  obtain m' where m': "EPoll_remove pipe_env 9 1 cycle_machine = ret () m'"
    using cycle_machine_remove by blast
  have "epoll_wf 9 (free_object 1 m')"
    by (rule remove_then_delete_is_safe [OF cycle_machine_wf m']) simp
  then show ?thesis using m' by blast
qed

section \<open>A cycle\<close>

text \<open>
  What \<open>run\<close> needs of the objects it dispatches to: each call of \<open>dispatch\<close> returns and keeps an
  invariant that makes the cycle's state well formed.
\<close>

locale event_cycle =
  fixes E :: "('w, 'cb) env" and this :: ptr and I :: "('w, 'cb) machine \<Rightarrow> bool"
  assumes wf: "\<And>m. I m \<Longrightarrow> epoll_wf this m"
    and dispatch: "\<And>m e p i. I m \<Longrightarrow> epoll_at m this = Some e \<Longrightarrow> int i < currCycleNotificationsCount e \<Longrightarrow>
      ev_ptr (currCycleNotifications e ! i) = p \<Longrightarrow> p \<noteq> 0 \<Longrightarrow> heap m p \<noteq> None \<Longrightarrow>
      \<exists>m1. virtual_dispatch E p (Notification this i) m = ret () m1 \<and> I m1"
begin

lemma next_returns:
  assumes "I m"
  obtains m1 e1 where "EPoll_cycle E (Next this i) m =
      ret () (put_epoll this (e1\<lparr>currCycleNotificationsCount := 0\<rparr>) m1)"
    and "I m1" and "epoll_at m1 this = Some e1"
  using assms
proof (induction "EVENTSPERCYCLE - i" arbitrary: i m thesis rule: less_induct)
  case less
  obtain e where e: "epoll_at m this = Some e" "length (currCycleNotifications e) = EVENTSPERCYCLE"
      "currCycleNotificationsCount e \<le> int EVENTSPERCYCLE"
    and live: "\<And>i. int i < currCycleNotificationsCount e \<Longrightarrow>
        ev_ptr (currCycleNotifications e ! i) = 0 \<or> heap m (ev_ptr (currCycleNotifications e ! i)) \<noteq> None"
    using wf [OF less.prems(2)] unfolding epoll_wf_def by auto
  show ?case
  proof (cases "int i < currCycleNotificationsCount e")
    case False
    then show ?thesis using less.prems cycle_end [OF e(1), of i E] e(1) by (simp add: not_less)
  next
    case True
    then have i: "i < length (currCycleNotifications e)" "EVENTSPERCYCLE - Suc i < EVENTSPERCYCLE - i"
      using e(2,3) by auto
    let ?p = "ev_ptr (currCycleNotifications e ! i)"
    show ?thesis
    proof (cases "?p = 0")
      case p: True
      obtain m1 e1 where "EPoll_cycle E (Next this (Suc i)) m =
          ret () (put_epoll this (e1\<lparr>currCycleNotificationsCount := 0\<rparr>) m1)"
        and "I m1" "epoll_at m1 this = Some e1"
        using less.hyps [OF i(2) _ less.prems(2)] by blast
      then show ?thesis using less.prems(1) cycle_skip [OF e(1) True i(1) p, of E] by simp
    next
      case p: False
      obtain m2 where m2: "virtual_dispatch E ?p (Notification this i) m = ret () m2" "I m2"
        using dispatch [OF less.prems(2) e(1) True refl p] live [OF True] p by blast
      obtain m1 e1 where "EPoll_cycle E (Next this (Suc i)) m2 =
          ret () (put_epoll this (e1\<lparr>currCycleNotificationsCount := 0\<rparr>) m1)"
        and "I m1" "epoll_at m1 this = Some e1"
        using less.hyps [OF i(2) _ m2(2)] by blast
      then show ?thesis using less.prems(1) cycle_dispatch [OF e(1) True i(1) refl p, of E] m2(1) by simp
    qed
  qed
qed

lemma run_ends:
  assumes "EPoll_wait E this t m = ret () m1" and "I m1"
  obtains m2 e2 where "EPoll_run E this t m = ret () (put_epoll this (e2\<lparr>currCycleNotificationsCount := 0\<rparr>) m2)"
    and "I m2" and "epoll_at m2 this = Some e2"
proof -
  obtain m2 e2 where "EPoll_cycle E (Next this 0) m1 =
      ret () (put_epoll this (e2\<lparr>currCycleNotificationsCount := 0\<rparr>) m2)"
    and "I m2" and "epoll_at m2 this = Some e2"
    by (rule next_returns [OF assms(2)])
  then show ?thesis using assms(1) that by (simp add: cycle_start)
qed

end

text \<open>One-shot requests and gentle callbacks are such an invariant.\<close>

interpretation served_cycle: event_cycle E this "\<lambda>m. gentle E this del \<and> served this del m"
  for E :: "('w, 'cb) env" and this del
proof (unfold_locales, goal_cases)
  case (1 m)
  then show ?case by (simp add: served_def)
next
  case (2 m e p i)
  then have "notified this m i p" by (auto simp: notified_def)
  then show ?case using virtual_dispatch_returns [of E this del m i p] 2 by auto
qed

section \<open>Properties of run\<close>

text \<open>
  C7. \<open>run\<close> returns: when what \<open>epoll_wait\<close> reports are events of existing files, sockets and
  timers, all pending operations are one-shot (of any kind, also \<open>readAll\<close>, \<open>accept\<close>, \<open>connect\<close>,
  \<open>close\<close>) and the callbacks return, the cycle ends without a fault, again in such a state, and no
  notification is left over. Callbacks may remove and delete objects, also the one that is being
  dispatched (\<open>del\<close>), on one more condition on the events (\<open>accompanied\<close>, a part of \<open>served\<close>): one that
  reports an error or a hang-up also reports \<open>EPOLLIN\<close>, and one that reports an error also \<open>EPOLLOUT\<close>.
\<close>

theorem run_serves_requests:
  assumes "gentle E this del" and "EPoll_wait E this t m = ret () m1" and "served this del m1"
  shows "\<exists>m' e'. EPoll_run E this t m = ret () m' \<and> served this del m' \<and> epoll_at m' this = Some e' \<and>
    currCycleNotificationsCount e' = 0"
proof -
  obtain m2 e2 where "EPoll_run E this t m = ret () (put_epoll this (e2\<lparr>currCycleNotificationsCount := 0\<rparr>) m2)"
    and "gentle E this del \<and> served this del m2" and e2: "epoll_at m2 this = Some e2"
    by (rule served_cycle.run_ends [where del = del, OF assms(2)]) (use assms in simp_all)
  then show ?thesis using served_end [OF _ e2] by simp
qed

text \<open>
  Callbacks that remove and delete object 1, as long as it exists, and an \<open>epoll_wait\<close> that reports
  the two events of \<open>cycle_machine\<close>.
\<close>

definition delete_one :: "int \<Rightarrow> (pipe, user_code) machine \<Rightarrow> (unit, (pipe, user_code) machine) result" where
  "delete_one r m = (if file_at m 1 = None then ret () m
     else obind (EPoll_remove pipe_env 9 1 m) (\<lambda>_ m1. ret () (free_object 1 m1)))"

definition calm_env :: "(pipe, user_code) env" where
  "calm_env = pipe_env\<lparr>usr := (\<lambda>k. delete_one),
     sys_epoll_wait := (\<lambda>d n t w. ((2, None, [\<lparr>ev_events = 1, ev_ptr = 1\<rparr>, \<lparr>ev_events = 1, ev_ptr = 3\<rparr>]), w))\<rparr>"

lemma remove_one:
  assumes "epoll_wf 9 m" and "file_at m 1 \<noteq> None"
  shows "\<exists>m'. EPoll_remove pipe_env 9 1 m = ret () m'"
proof -
  obtain e where e: "epoll_at m 9 = Some e" "currCycleNotificationsCount e \<le> int EVENTSPERCYCLE"
    using assms(1) by (auto simp: epoll_wf_def)
  have "\<exists>d. fd_of (put_epoll 9 x m) 1 = Some d" for x
    using assms(2) by (auto simp: fd_of_def put_epoll_def file_at_def split: option.splits fd_object.splits)
  then show ?thesis
    using e by (auto simp: EPoll_remove_def with_epoll_Some Let_def run_call_def pipe_sys_def checkError_def
        split: option.splits)
qed

lemma delete_one_gentle:
  assumes sv: "served 9 True m"
  shows "\<exists>m'. delete_one r m = ret () m' \<and> served 9 True m' \<and>
    (\<forall>p. file_at m p \<noteq> None \<longrightarrow> stays 9 True p m m')"
proof (cases "file_at m 1 = None")
  case True
  then show ?thesis using sv by (auto simp: delete_one_def stays_def same_object_refl)
next
  case False
  have wf: "epoll_wf 9 m" using sv by (simp add: served_def)
  obtain m1 where m1: "EPoll_remove pipe_env 9 1 m = ret () m1" using remove_one [OF wf False] by blast
  obtain e where e: "epoll_at m 9 = Some e"
    and h: "heap m1 = (heap m)(9 \<mapsto> EPoll_object (e\<lparr>currCycleNotifications :=
       cancel_events 1 (currCycleNotificationsCount e) (currCycleNotifications e)\<rparr>))"
    using m1 by (rule EPoll_remove_ret)
  let ?m = "free_object 1 m1"
  have h9: "heap m 9 = Some (EPoll_object e)"
    using e by (auto simp: epoll_at_def split: option.splits fd_object.splits)
  have same: "file_at ?m p = (if p = 1 then None else file_at m p)" "is_socket ?m p = (p \<noteq> 1 \<and> is_socket m p)"
    "op_at ?m p s = (if p = 1 then None else op_at m p s)" for p s
    using h h9 by (simp_all add: file_at_def is_socket_def op_at_def)
  have ep: "epoll_at ?m 9 = Some (e\<lparr>currCycleNotifications :=
      cancel_events 1 (currCycleNotificationsCount e) (currCycleNotifications e)\<rparr>)"
    and ep': "epoll_at m p = None \<Longrightarrow> epoll_at ?m p = None" for p
    using h h9 e by (auto simp: epoll_at_def)
  have l: "length (currCycleNotifications e) = EVENTSPERCYCLE" "currCycleNotificationsCount e \<le> int EVENTSPERCYCLE"
    and n: "\<And>i. int i < currCycleNotificationsCount e \<Longrightarrow> ev_ptr (currCycleNotifications e ! i) = 0 \<or>
      epoll_at m (ev_ptr (currCycleNotifications e ! i)) = None"
    and acc: "\<forall>x \<in> set (currCycleNotifications e). accompanied (ev_events x)"
    using sv e unfolding served_def epoll_wf_def by auto
  have "served 9 True ?m"
    unfolding served_def
  proof (intro conjI allI impI)
    show "epoll_wf 9 ?m" by (rule epoll_wf_removed [OF wf e _ h]) simp
    fix p s x
    assume "op_at ?m p s = Some x"
    then have "p \<noteq> 1" and "op_at m p s = Some x" unfolding same by (simp_all split: if_splits)
    then show "oneshot (is_socket ?m p) x" unfolding same using served_op [OF sv] by simp
  next
    fix e' i
    assume "epoll_at ?m 9 = Some e'" and "int i < currCycleNotificationsCount e'"
    then have e': "e' = e\<lparr>currCycleNotifications :=
        cancel_events 1 (currCycleNotificationsCount e) (currCycleNotifications e)\<rparr>"
      and i: "int i < currCycleNotificationsCount e" "i < length (currCycleNotifications e)"
      using ep l by simp_all
    show "ev_ptr (currCycleNotifications e' ! i) = 0 \<or> epoll_at ?m (ev_ptr (currCycleNotifications e' ! i)) = None"
      using n [OF i(1)] ep' by (auto simp: e' cancel_events_nth [OF i(1,2)] cancel_event_def)
  next
    fix e'
    assume "epoll_at ?m 9 = Some e'"
    then have "set (currCycleNotifications e') \<subseteq> cancel_event 1 ` set (currCycleNotifications e) \<union> set (currCycleNotifications e)"
      using ep set_take_subset set_drop_subset by (fastforce simp: cancel_events_def)
    then show "\<forall>x \<in> set (currCycleNotifications e'). accompanied (ev_events x)"
      using acc by (fastforce simp: cancel_event_def accompanied_def has_event_def)
  qed
  moreover have "stays 9 True p m ?m" if "file_at m p \<noteq> None" for p
  proof (cases "p = 1")
    case True
    have "events_at ?m (Notification 9 i) = Some 0" if "notified 9 m i 1" for i
      using that e l EPoll_remove_events [OF m1 e] events_at_free_object [of 1 9 m1 i] by (auto simp: notified_def)
    then show ?thesis by (simp add: stays_def True)
  next
    case False
    then show ?thesis unfolding stays_def same_object_def same using that by auto
  qed
  moreover have "delete_one r m = ret () ?m" unfolding delete_one_def if_not_P [OF False] m1 by simp
  ultimately show ?thesis by blast
qed

lemma calm_gentle: "gentle calm_env 9 True"
  using delete_one_gentle by (simp add: gentle_def calm_env_def)

lemma cycle_epoll_at: "epoll_at cycle_machine 9 = Some \<lparr>epoll_fd = 4,
    currCycleNotifications = [\<lparr>ev_events = 1, ev_ptr = 1\<rparr>, \<lparr>ev_events = 1, ev_ptr = 3\<rparr>] @
      replicate 30 \<lparr>ev_events = 0, ev_ptr = 0\<rparr>, currCycleNotificationsCount = 2\<rparr>"
  by (simp add: cycle_machine_def epoll_at_def)

lemma cycle_put_epoll: "put_epoll 9 \<lparr>epoll_fd = 4,
    currCycleNotifications = [\<lparr>ev_events = 1, ev_ptr = 1\<rparr>, \<lparr>ev_events = 1, ev_ptr = 3\<rparr>] @
      replicate 30 \<lparr>ev_events = 0, ev_ptr = 0\<rparr>, currCycleNotificationsCount = 2\<rparr> cycle_machine = cycle_machine"
  by (simp add: put_epoll_def cycle_machine_def)

lemma cycle_wait: "EPoll_wait calm_env 9 t cycle_machine = ret () cycle_machine"
  using cycle_put_epoll
  by (simp add: EPoll_wait_def with_epoll_Some [OF cycle_epoll_at] run_out_def calm_env_def store_events_def EVENTSPERCYCLE_def
      put_epoll_def)

lemma cycle_served: "served 9 True cycle_machine"
proof -
  have "oneshot k x" if "op_at cycle_machine p s = Some x" for p s x k
    using that by (cases s) (auto simp: op_at_def file_at_def cycle_machine_def object_machine_def oneshot_def
        performable_def less_eq_Operations_def split: if_splits)
  moreover have "epoll_at cycle_machine (Suc 0) = None" "epoll_at cycle_machine 3 = None"
    by (simp_all add: epoll_at_def cycle_machine_def object_machine_def)
  moreover have "accompanied 1" "accompanied 0"
    by (simp_all add: accompanied_def has_event_def EPOLLERR_def EPOLLHUP_def EPOLLIN_def)
  ultimately show ?thesis
    using cycle_machine_wf by (auto simp: served_def cycle_epoll_at dest!: less_2_nat)
qed

theorem run_serves_requests_witness:
  "\<exists>m' e'. EPoll_run calm_env 9 (-1) cycle_machine = ret () m' \<and> served 9 True m' \<and> epoll_at m' 9 = Some e' \<and>
    currCycleNotificationsCount e' = 0"
  by (rule run_serves_requests [OF calm_gentle cycle_wait cycle_served])

text \<open>Dispatching a list of notifications one after the other.\<close>

fun dispatch_all ::
  "('w, 'cb) env \<Rightarrow> ptr \<Rightarrow> nat \<Rightarrow> epoll_event list \<Rightarrow> ('w, 'cb) machine \<Rightarrow> (unit, ('w, 'cb) machine) result"
where
  "dispatch_all E this i [] m = ret () m"
| "dispatch_all E this i (x # xs) m =
     obind (if ev_ptr x = 0 then ret () m else virtual_dispatch E (ev_ptr x) (Notification this i) m)
       (\<lambda>_ m1. dispatch_all E this (Suc i) xs m1)"

text \<open>
  C18. The loop of \<open>run\<close>, which reads the array, the count and each pointer again in every round,
  is the plain iteration over the notifications received: each is dispatched once, in the order of
  \<open>epoll_wait\<close>, also when a callback throws or does not return. This holds when no dispatch
  changes the \<open>EPoll\<close> object, that is, when no callback calls \<open>remove\<close> or a nested \<open>run\<close>; \<open>I\<close> is
  any invariant of the callbacks that makes this so.
\<close>

theorem run_dispatches_in_order:
  assumes "epoll_at m this = Some e" and "currCycleNotificationsCount e = int n"
    and "n \<le> length (currCycleNotifications e)" and "I m"
    and "\<forall>x \<in> set (take n (currCycleNotifications e)). \<forall>i m0 m1. I m0 \<longrightarrow>
      virtual_dispatch E (ev_ptr x) (Notification this i) m0 = ret () m1 \<longrightarrow>
        I m1 \<and> epoll_at m1 this = epoll_at m0 this"
  shows "EPoll_cycle E (Next this 0) m = obind (dispatch_all E this 0 (take n (currCycleNotifications e)) m)
    (\<lambda>_ m1. ret () (put_epoll this (e\<lparr>currCycleNotificationsCount := 0\<rparr>) m1))"
proof -
  let ?xs = "take n (currCycleNotifications e)"
  have "EPoll_cycle E (Next this i) m0 = obind (dispatch_all E this i (drop i ?xs) m0)
      (\<lambda>_ m1. ret () (put_epoll this (e\<lparr>currCycleNotificationsCount := 0\<rparr>) m1))"
    if "i \<le> n" "epoll_at m0 this = Some e" "I m0" for i m0
    using that
  proof (induction i arbitrary: m0 rule: inc_induct)
    case base
    then show ?case using cycle_end [OF base(1), of n E] assms(2) by simp
  next
    case (step i)
    have i: "i < length ?xs" "int i < currCycleNotificationsCount e" "i < length (currCycleNotifications e)"
      using step.hyps assms(2,3) by simp_all
    let ?x = "currCycleNotifications e ! i"
    have x: "drop i ?xs = ?x # drop (Suc i) ?xs" using Cons_nth_drop_Suc [OF i(1)] step.hyps by simp
    show ?case
    proof (cases "ev_ptr ?x = 0")
      case True
      then show ?thesis
        using cycle_skip [OF step.prems(1) i(2,3) True, of E] step.IH [OF step.prems] x by simp
    next
      case False
      have keep: "I m1" "epoll_at m1 this = Some e"
        if "virtual_dispatch E (ev_ptr ?x) (Notification this i) m0 = ret () m1" for m1
        using assms(5) that step.prems nth_mem [OF i(1)] step.hyps by simp_all
      show ?thesis
        using False step.IH [OF keep(2,1)]
        unfolding x dispatch_all.simps obind_assoc cycle_dispatch [OF step.prems(1) i(2,3) refl False, of E]
        by (auto intro!: obind_cong)
    qed
  qed
  from this [of 0 m] show ?thesis using assms(1,4) by simp
qed

text \<open>A cycle of three events of timer 3, whose callback logs.\<close>

definition logging_env :: "(pipe, user_code) env" where
  "logging_env = pipe_env\<lparr>usr := (\<lambda>k r m. ret () (note_result r m))\<rparr>"

definition timer_machine :: "(pipe, user_code) machine" where
  "timer_machine = put_epoll 9 \<lparr>epoll_fd = 4, currCycleNotifications = replicate 32 \<lparr>ev_events = 1, ev_ptr = 3\<rparr>,
     currCycleNotificationsCount = 3\<rparr> (pipe_machine empty_op empty_op 0 (pipe_world [] []))"

lemma Timer_dispatch_calm:
  assumes "Timer_dispatch logging_env p ref m = ret () m1"
  shows "heap m1 = heap m"
  using assms
  by (auto simp: Timer_dispatch_def with_events_def with_timer_def invoke_def logging_env_def note_result_def
      run_out_def split: option.splits if_splits prod.splits)

theorem run_dispatches_in_order_witness:
  "EPoll_cycle logging_env (Next 9 0) timer_machine =
   obind (dispatch_all logging_env 9 0 (replicate 3 \<lparr>ev_events = 1, ev_ptr = 3\<rparr>) timer_machine)
     (\<lambda>_ m1. ret () (put_epoll 9 \<lparr>epoll_fd = 4, currCycleNotifications = replicate 32 \<lparr>ev_events = 1, ev_ptr = 3\<rparr>,
       currCycleNotificationsCount = 0\<rparr> m1))"
proof -
  let ?I = "\<lambda>m :: (pipe, user_code) machine. \<exists>t. heap m 3 = Some (Timer_object t)"
  let ?e = "\<lparr>epoll_fd = 4, currCycleNotifications = replicate 32 \<lparr>ev_events = 1, ev_ptr = 3\<rparr>,
     currCycleNotificationsCount = 3\<rparr>"
  have keep: "?I m1 \<and> epoll_at m1 9 = epoll_at m0 9"
    if i: "?I m0" and d: "virtual_dispatch logging_env 3 ref m0 = ret () m1" for ref m0 m1
  proof -
    obtain t where t: "heap m0 3 = Some (Timer_object t)" using i by blast
    then have h: "heap m1 = heap m0"
      using d by (auto simp: virtual_dispatch_def dest: Timer_dispatch_calm)
    show ?thesis unfolding epoll_at_def h using t by simp
  qed
  have start: "?I timer_machine" "epoll_at timer_machine 9 = Some ?e"
    by (simp_all add: timer_machine_def put_epoll_def object_machine_def epoll_at_def)
  show ?thesis
    using run_dispatches_in_order [OF start(2), where n = 3 and I = ?I and E = logging_env] start(1) keep
    by (simp add: numeral_3_eq_3)
qed

lemma put_epoll_same: "epoll_at m this = Some e \<Longrightarrow> put_epoll this e m = m"
  by (auto simp: epoll_at_def put_epoll_def fun_upd_idem split: option.splits fd_object.splits)

text \<open>
  C28. When \<open>epoll_wait\<close> fails, nothing is dispatched: interrupted by a signal (\<open>EINTR\<close>), \<open>run\<close>
  returns, so that \<open>loop\<close> tries again; any other failure is thrown with its \<open>errno\<close>.
\<close>

theorem run_failures:
  assumes "epoll_at m this = Some e" and "r < 0"
    and "run_out (sys_epoll_wait E (epoll_fd e) (int EVENTSPERCYCLE) t) m = (r, [], m1)"
  shows "EPoll_run E this t m =
    (if errno m1 = EINTR \<or> errno m1 = EINPROGRESS
     then ret () (put_epoll this (e\<lparr>currCycleNotificationsCount := 0\<rparr>) m1)
     else Some (Throw (CPoll_exception (strerror E (errno m1)) (errno m1)) m1))"
proof -
  have m1: "put_epoll this e m1 = m1"
    using put_epoll_same epoll_at_run_out [OF assms(3)] assms(1) by metis
  have twice: "put_epoll this b (put_epoll this a x) = put_epoll this b x" for a b and x :: "('a, 'b) machine"
    by (simp add: put_epoll_def)
  have "checkError E r m1 = (if errno m1 = EINTR \<or> errno m1 = EINPROGRESS then ret r m1
      else Some (Throw (CPoll_exception (strerror E (errno m1)) (errno m1)) m1))"
    using assms(2) by (simp add: checkError_def CPollException_errno_def)
  then show ?thesis
    using assms(2) cycle_end [of "put_epoll this (e\<lparr>currCycleNotificationsCount := r\<rparr>) m1" this
        "e\<lparr>currCycleNotificationsCount := r\<rparr>" 0 E]
    by (simp add: cycle_start EPoll_wait_def with_epoll_Some [OF assms(1)] assms(3) m1 twice)
qed

theorem run_failures_witness:
  "EPoll_run (pipe_env\<lparr>sys_epoll_wait := (\<lambda>d n t w. ((-1, Some EINTR, []), w))\<rparr>) 9 (-1)
     (pipe_machine empty_op empty_op 1 (pipe_world [] [])) =
   ret () (put_epoll 9 \<lparr>epoll_fd = 4, currCycleNotifications = [\<lparr>ev_events = 1, ev_ptr = 1\<rparr>],
     currCycleNotificationsCount = 0\<rparr> ((pipe_machine empty_op empty_op 1 (pipe_world [] []))\<lparr>errno := EINTR\<rparr>))"
  using run_failures [OF epoll_at_object, where r = "-1" and t = "-1"
      and E = "pipe_env\<lparr>sys_epoll_wait := (\<lambda>d n t w. ((-1, Some EINTR, []), w))\<rparr>"]
  by (simp add: run_out_def)

lemma cycle_leaves_no_count:
  assumes "EPoll_cycle E c m = ret () m'"
  shows "\<exists>e. epoll_at m' (case c of Start p t \<Rightarrow> p | Next p i \<Rightarrow> p) = Some e \<and> currCycleNotificationsCount e = 0"
proof -
  have "out = Ret () m' \<longrightarrow> (\<exists>e. epoll_at m' (case c of Start p t \<Rightarrow> p | Next p i \<Rightarrow> p) = Some e \<and>
      currCycleNotificationsCount e = 0)"
    if "EPoll_cycle E c m = Some out" for E :: "('a, 'b) env" and c m out m'
  proof (rule EPoll_cycle.raw_induct [where P = "\<lambda>E c m out. \<forall>m'. out = Ret () m' \<longrightarrow>
      (\<exists>e. epoll_at m' (case c of Start p t \<Rightarrow> p | Next p i \<Rightarrow> p) = Some e \<and>
        currCycleNotificationsCount e = 0)", OF _ that, THEN spec], intro allI impI, goal_cases)
    case (1 f E c m out m')
    note IH = 1(1)
    show ?case
    proof (cases c)
      case (Start p t)
      obtain m1 where "f E (Next p 0) m1 = Some (Ret () m')"
        using 1(2,3) Start by (auto elim!: obind_RetE)
      then show ?thesis using IH Start by fastforce
    next
      case (Next p i)
      obtain e where e: "epoll_at m p = Some e"
        using 1(2,3) Next by (auto simp: with_epoll_def split: option.splits)
      show ?thesis
      proof (cases "int i < currCycleNotificationsCount e")
        case True
        obtain m1 where "f E (Next p (Suc i)) m1 = Some (Ret () m')"
          using 1(2,3) Next True by (auto simp: with_epoll_Some [OF e] Let_def elim!: obind_RetE split: if_splits)
        then show ?thesis using IH Next by fastforce
      next
        case False
        then have "m' = put_epoll p (e\<lparr>currCycleNotificationsCount := 0\<rparr>) m"
          using 1(2,3) Next by (simp add: with_epoll_Some [OF e])
        then show ?thesis using Next by simp
      qed
    qed
  qed
  then show ?thesis using assms by blast
qed

text \<open>
  C34. A \<open>run\<close> that a callback starts on the same object ends the outer cycle: it leaves the count
  at 0, so the outer loop dispatches nothing more. The outer notifications that were still to come
  are lost, and since the descriptors are registered edge triggered, \<open>epoll_wait\<close> does not report
  them again.
\<close>

theorem nested_run_drops_notifications:
  assumes "epoll_at m this = Some e" and "int i < currCycleNotificationsCount e"
    and "i < length (currCycleNotifications e)"
    and "currCycleNotifications e ! i = \<lparr>ev_events = EPOLLIN, ev_ptr = p\<rparr>" and "p \<noteq> 0"
    and "heap m p = Some (Timer_object tm)" and "timer_cb tm = Some c"
    and "run_out (sys_timer_read E (timer_fd tm)) m = (8, n, m0)"
    and "usr E c (s32 n) m0 = EPoll_run E this t m0" and "EPoll_run E this t m0 = ret () m1"
  shows "EPoll_cycle E (Next this i) m = ret () m1"
proof -
  obtain e1 where e1: "epoll_at m1 this = Some e1" "currCycleNotificationsCount e1 = 0"
    using cycle_leaves_no_count [OF assms(10) [unfolded EPoll_run_def]] by auto
  then have same: "e1\<lparr>currCycleNotificationsCount := 0\<rparr> = e1" by simp
  have "events_at m (Notification this i) = Some EPOLLIN" using assms(1,3,4) by simp
  then have d: "virtual_dispatch E p (Notification this i) m = ret () m1"
    using assms(6-10)
    by (simp add: virtual_dispatch_def Timer_dispatch_def with_events_Some with_timer_def timer_at_def
        has_event_def EPOLLIN_def)
  have "EPoll_cycle E (Next this (Suc i)) m1 = ret () m1"
    using cycle_end [OF e1(1), of "Suc i" E] e1(2) unfolding same put_epoll_same [OF e1(1)] by simp
  then show ?thesis using cycle_dispatch [OF assms(1-3) _ assms(5), of E] assms(4) d by simp
qed

lemma run_without_events:
  assumes "epoll_at m this = Some e"
    and "run_out (sys_epoll_wait E (epoll_fd e) (int EVENTSPERCYCLE) t) m = (0, [], m)"
  shows "EPoll_run E this t m = ret () (put_epoll this (e\<lparr>currCycleNotificationsCount := 0\<rparr>) m)"
proof -
  have "put_epoll this b (put_epoll this a x) = put_epoll this b x" for a b and x :: "('a, 'b) machine"
    by (simp add: put_epoll_def)
  then show ?thesis
    using cycle_end [of "put_epoll this (e\<lparr>currCycleNotificationsCount := 0\<rparr>) m" this
        "e\<lparr>currCycleNotificationsCount := 0\<rparr>" 0 E]
    by (simp add: cycle_start EPoll_wait_def with_epoll_Some [OF assms(1)] assms(2))
qed

definition nesting_env :: "(pipe, user_code) env" where
  "nesting_env = kernel_env\<lparr>usr := (\<lambda>k r m. EPoll_run kernel_env 9 0 m)\<rparr>"

theorem nested_run_drops_notifications_witness:
  "EPoll_cycle nesting_env (Next 9 0) timer_machine =
   ret () (put_epoll 9 \<lparr>epoll_fd = 4, currCycleNotifications = replicate 32 \<lparr>ev_events = 1, ev_ptr = 3\<rparr>,
     currCycleNotificationsCount = 0\<rparr> timer_machine)"
proof -
  let ?e = "\<lparr>epoll_fd = 4, currCycleNotifications = replicate 32 \<lparr>ev_events = 1, ev_ptr = 3\<rparr>,
     currCycleNotificationsCount = 3\<rparr>"
  have e: "epoll_at timer_machine 9 = Some ?e" by (simp add: timer_machine_def)
  have t: "heap timer_machine 3 = Some (Timer_object
      \<lparr>timer_fd = 7, timer_cb = Some Log, interval = \<lparr>tv_sec = 1, tv_nsec = 0\<rparr>\<rparr>)"
    by (simp add: timer_machine_def put_epoll_def object_machine_def)
  have w: "run_out (sys_epoll_wait E (epoll_fd ?e) (int EVENTSPERCYCLE) 0) timer_machine = (0, [], timer_machine)"
    if "sys_epoll_wait E = sys_epoll_wait kernel_env" for E :: "(pipe, user_code) env"
    by (simp add: that kernel_env_def run_out_def)
  have r: "run_out (sys_timer_read nesting_env 7) timer_machine = (8, -1, timer_machine)"
    by (simp add: nesting_env_def kernel_env_def run_out_def allowance_def timer_machine_def put_epoll_def
        pipe_world_def)
  show ?thesis
    using nested_run_drops_notifications [OF e, where i = 0 and p = 3 and E = nesting_env and t = 0 and c = Log]
      t r run_without_events [OF e w, of nesting_env] run_without_events [OF e w, of kernel_env]
    by (simp add: EPOLLIN_def nesting_env_def)
qed

text \<open>\<open>loop\<close> ends by an exception or a fault only.\<close>

lemma loop_never_returns: "EPoll_loop E this m \<noteq> ret u m'"
proof (cases "EPoll_loop E this m")
  case (Some out)
  have "out \<noteq> Ret u m'"
  proof (rule EPoll_loop.raw_induct [where P = "\<lambda>E this m out. out \<noteq> Ret u m'", OF _ Some], goal_cases)
    case (1 f E this m out)
    have "f E this m1 \<noteq> ret u m'" for m1 using 1(1) by auto
    then have "obind (EPoll_run E this (-1) m) (\<lambda>_ m1. f E this m1) \<noteq> ret u m'"
      by (metis obind_eq_RetE)
    then show ?case using 1(2) by auto
  qed
  then show ?thesis using Some by simp
qed simp

end
