(* ===== verification/CPoll_SocketProps.thy ===== *)
theory CPoll_SocketProps
  imports CPoll_Loop
begin

text \<open>
  Properties of \<open>Socket\<close>: the result of a pending \<open>connect\<close>, the connections that a repeated
  \<open>accept\<close> hands out, and the descriptors that binding and connecting by host name open and
  close.
\<close>

section \<open>The end of a pending connect\<close>

text \<open>
  C23. A pending \<open>connect\<close> ends at the first event: the slot is free, \<open>errno\<close> is the socket's
  \<open>SO_ERROR\<close>, and the callback gets 0 when that is 0 and -1 otherwise. A hang-up does the same.
\<close>

theorem connect_reports_so_error:
  assumes "file_at m this = Some f" and "pendingOps f s = opn" and "operation opn = Op_connect"
    and "run_out (sys_so_error E (fd f)) m = (r, val, m1)" and "0 \<le> r"
  shows "Socket_doOperation E this s w h m =
      obind (invoke E (op_cb opn) (if val = 0 then 0 else -1)
        (put_op this s (opn\<lparr>operation := Op_none\<rparr>) (m1\<lparr>errno := val\<rparr>))) (\<lambda>_ m2. ret DONE m2) \<and>
    Socket_handleHup E this s w m =
      invoke E (op_cb opn) (if val = 0 then 0 else -1)
        (put_op this s (opn\<lparr>operation := Op_none\<rparr>) (m1\<lparr>errno := val\<rparr>))"
  using assms
  by (simp add: Socket_doOperation_def Socket_handleHup_def with_op_Some [OF op_at_file [OF assms(1)]]
      finish_connect_def with_file_Some)

theorem connect_reports_so_error_witness:
  "Socket_doOperation pipe_env 1 Wr True False
     (socket_machine 5 empty_op (pending Op_connect 0 0 0 False Log) 4 (pipe_world [111] [])) =
   ret DONE (note_result (-1)
     ((socket_machine 5 empty_op ((pending Op_connect 0 0 0 False Log)\<lparr>operation := Op_none\<rparr>) 4
       (pipe_world [111] []))\<lparr>errno := 111\<rparr>))"
proof -
  let ?m = "socket_machine 5 empty_op (pending Op_connect 0 0 0 False Log) 4 (pipe_world [111] [])"
  have "run_out (sys_so_error pipe_env 5) ?m = (0, 111, ?m)"
    by (simp add: run_out_def pipe_env_def kernel_env_def allowance_def pipe_world_def)
  then show ?thesis
    using connect_reports_so_error [where E = pipe_env and this = 1 and s = Wr and m = ?m
        and f = "pipe_file 5 empty_op (pending Op_connect 0 0 0 False Log)" and w = True and h = False]
    by simp
qed

section \<open>Accepting repeatedly\<close>

text \<open>
  \<open>waiting w\<close> is the list of connections that the kernel holds for the listening socket, given
  out one per \<open>accept4\<close>; without any, the call fails with \<open>EAGAIN\<close>.
\<close>

definition accepts_from :: "('w, 'cb) env \<Rightarrow> ('w \<Rightarrow> int list) \<Rightarrow> ('w \<Rightarrow> int list) \<Rightarrow> bool" where
  "accepts_from E waiting heard \<longleftrightarrow> (\<forall>d flags w. case sys E (Sys_accept4 d flags) w of ((r, e), w') \<Rightarrow>
     heard w' = heard w \<and>
     (case waiting w of [] \<Rightarrow> r < 0 \<and> e = Some EAGAIN
      | c # cs \<Rightarrow> r = c \<and> 0 \<le> c \<and> waiting w' = cs))"

text \<open>A callback that notes its argument and neither cancels the operation nor touches the queue.\<close>

definition hears ::
  "('w, 'cb) env \<Rightarrow> 'cb \<Rightarrow> ptr \<Rightarrow> ('w \<Rightarrow> int list) \<Rightarrow> ('w \<Rightarrow> int list) \<Rightarrow> bool" where
  "hears E c this waiting heard \<longleftrightarrow> (\<forall>d m f. file_at m this = Some f \<longrightarrow> (\<exists>m'. usr E c d m = ret () m' \<and>
     file_at m' this = Some f \<and> waiting (world m') = waiting (world m) \<and>
     heard (world m') = heard (world m) @ [d]))"

lemma accept_step:
  assumes "accepts_from E waiting heard" and "file_at m this = Some f"
  obtains r m1 where "Socket_accept E this m = ret r m1" and "file_at m1 this = Some f"
    and "heard (world m1) = heard (world m)"
    and "case waiting (world m) of [] \<Rightarrow> r < 0 \<and> isWouldBlock m1
      | c # cs \<Rightarrow> r = c \<and> 0 \<le> c \<and> waiting (world m1) = cs"
proof -
  obtain r e w where call: "sys E (Sys_accept4 (fd f) SOCK_FLAGS) (world m) = ((r, e), w)"
    by (metis prod.exhaust)
  have k: "heard w = heard (world m)" "case waiting (world m) of [] \<Rightarrow> r < 0 \<and> e = Some EAGAIN
      | c # cs \<Rightarrow> r = c \<and> 0 \<le> c \<and> waiting w = cs"
    using assms(1) call unfolding accepts_from_def by (auto split: prod.splits dest!: spec)
  show ?thesis
  proof (rule that)
    show "Socket_accept E this m = ret r (set_errno e (m\<lparr>world := w\<rparr>))"
      using call by (simp add: Socket_accept_def with_file_Some [OF assms(2)] run_call_def)
  qed (use k assms(2) in \<open>auto simp: isWouldBlock_def errno_defs split: list.splits\<close>)
qed

text \<open>
  C22. A readiness event on a listening socket with a pending repeated \<open>accept\<close>: every waiting
  connection is handed to the callback once, in order, the loop ends, and the operation stays
  pending.
\<close>

theorem repeated_accept_hands_out_all:
  assumes "accepts_from E waiting heard" and "hears E c this waiting heard"
    and "file_at m this = Some f" and "operation (pendingOps f s) = Op_accept"
    and "repeating (pendingOps f s)" and "op_cb (pendingOps f s) = Some c"
  shows "\<exists>m'. Socket_doOperation E this s w h m = ret CONTINUE m' \<and>
    heard (world m') = heard (world m) @ waiting (world m) \<and> file_at m' this = Some f"
proof -
  have "\<exists>m'. accept_loop E this s m = ret CONTINUE m' \<and>
      heard (world m') = heard (world m) @ waiting (world m) \<and> file_at m' this = Some f"
    using assms(3)
  proof (induction "waiting (world m)" arbitrary: m)
    case Nil
    obtain r m1 where m1: "Socket_accept E this m = ret r m1" "file_at m1 this = Some f"
        "heard (world m1) = heard (world m)" "r < 0 \<and> isWouldBlock m1"
      by (rule accept_step [OF assms(1) Nil.prems]) (use Nil.hyps in auto)
    then show ?case
      by (subst accept_loop.simps) (simp add: with_op_Some [OF op_at_file [OF m1(2)]] Nil.hyps [symmetric])
  next
    case (Cons d ds)
    obtain r m1 where m1: "Socket_accept E this m = ret r m1" "file_at m1 this = Some f"
        "heard (world m1) = heard (world m)" "case waiting (world m) of [] \<Rightarrow> r < 0 \<and> isWouldBlock m1
           | c # cs \<Rightarrow> r = c \<and> 0 \<le> c \<and> waiting (world m1) = cs"
      by (rule accept_step [OF assms(1) Cons.prems])
    then have d: "r = d" "0 \<le> d" "waiting (world m1) = ds" using Cons.hyps(2) by (auto split: list.splits)
    obtain m2 where m2: "usr E c d m1 = ret () m2" "file_at m2 this = Some f"
        "waiting (world m2) = ds" "heard (world m2) = heard (world m1) @ [d]"
      using assms(2) m1(2) d(3) unfolding hears_def by metis
    obtain m' where "accept_loop E this s m2 = ret CONTINUE m'"
        "heard (world m') = heard (world m2) @ ds" "file_at m' this = Some f"
      using Cons.hyps(1) [of m2] m2(2,3) by auto
    then show ?case
      using m1(1,3) d m2 assms(4,6) Cons.hyps(2) [symmetric]
      by (subst accept_loop.simps)
        (simp add: with_op_Some [OF op_at_file [OF m1(2)]] with_op_Some [OF op_at_file [OF m2(2)]])
  qed
  then show ?thesis
    using assms(4,5) by (simp add: Socket_doOperation_def with_op_Some [OF op_at_file [OF assms(3)]])
qed

lemma pipe_accepts: "accepts_from pipe_env (\<lambda>w. takeWhile (\<lambda>k. 0 < k) (script w)) logged"
  by (auto simp: accepts_from_def pipe_sys_def allowance_def split: list.splits if_splits)

lemma log_hears: "hears pipe_env Log this (\<lambda>w. takeWhile (\<lambda>k. 0 < k) (script w)) logged"
  by (simp add: hears_def note_result_def)

theorem repeated_accept_hands_out_all_witness:
  "\<exists>m'. Socket_doOperation pipe_env 1 Rd False False
      (socket_machine 5 (pending Op_accept 0 0 0 True Log) empty_op 1 (pipe_world [21, 22] [])) = ret CONTINUE m' \<and>
    logged (world m') = [21, 22]"
  using repeated_accept_hands_out_all [OF pipe_accepts log_hears, where this = 1 and s = Rd and w = False
      and h = False and f = "pipe_file 5 (pending Op_accept 0 0 0 True Log) empty_op"
      and m = "socket_machine 5 (pending Op_accept 0 0 0 True Log) empty_op 1 (pipe_world [21, 22] [])"]
  by (auto simp: pipe_world_def)

section \<open>Descriptors\<close>

text \<open>
  \<open>open_fds w\<close> is the set of open descriptors. \<open>socket\<close> gives a descriptor that was not open, or a
  negative result; \<open>close\<close> closes its argument; the other calls made here open and close nothing.
\<close>

definition opens_nothing :: "syscall \<Rightarrow> bool" where
  "opens_nothing c \<longleftrightarrow> (case c of Sys_setsockopt d x \<Rightarrow> True | Sys_bind d a n \<Rightarrow> True | Sys_connect d a n \<Rightarrow> True
     | Sys_fcntl_getfl d \<Rightarrow> True | Sys_fcntl_setfl d x \<Rightarrow> True | _ \<Rightarrow> False)"

definition counts_descriptors :: "('w, 'cb) env \<Rightarrow> ('w \<Rightarrow> int set) \<Rightarrow> bool" where
  "counts_descriptors E open_fds \<longleftrightarrow>
     (\<forall>d t p w. case sys E (Sys_socket d t p) w of ((r, e), w') \<Rightarrow>
        if r < 0 then open_fds w' = open_fds w else r \<notin> open_fds w \<and> open_fds w' = insert r (open_fds w)) \<and>
     (\<forall>d w. open_fds (snd (sys E (Sys_close d) w)) = open_fds w - {d}) \<and>
     (\<forall>c w. opens_nothing c \<longrightarrow> open_fds (snd (sys E c w)) = open_fds w)"

lemma world_run_call: "world (snd (run_call E c m)) = snd (sys E c (world m))"
  by (cases "sys E c (world m)"; cases "fst (sys E c (world m))") (simp add: run_call_def)

text \<open>The result of taking one descriptor: it was closed before, and is now open and the object's.\<close>

definition took_one :: "('w \<Rightarrow> int set) \<Rightarrow> ptr \<Rightarrow> ('w, 'cb) machine \<Rightarrow> ('w, 'cb) machine \<Rightarrow> bool" where
  "took_one open_fds this m m' \<longleftrightarrow> (\<exists>g. file_at m' this = Some g \<and> 0 \<le> fd g \<and> fd g \<notin> open_fds (world m) \<and>
     open_fds (world m') = insert (fd g) (open_fds (world m)))"

definition took_none :: "('w \<Rightarrow> int set) \<Rightarrow> ptr \<Rightarrow> ('w, 'cb) machine \<Rightarrow> ('w, 'cb) machine \<Rightarrow> bool" where
  "took_none open_fds this m m' \<longleftrightarrow> file_at m' this = file_at m this \<and> open_fds (world m') = open_fds (world m)"

lemma took_trans:
  "took_none open_fds this m m1 \<Longrightarrow> took_none open_fds this m1 m2 \<Longrightarrow> took_none open_fds this m m2"
  "took_none open_fds this m m1 \<Longrightarrow> took_one open_fds this m1 m2 \<Longrightarrow> took_one open_fds this m m2"
  by (simp_all add: took_none_def took_one_def)

locale descriptor_ledger =
  fixes E :: "('w, 'cb) env" and open_fds :: "'w \<Rightarrow> int set"
  assumes ledger: "counts_descriptors E open_fds"
begin

lemma socket_call:
  assumes "run_call E (Sys_socket d t p) m = (r, m1)"
  shows "if r < 0 then open_fds (world m1) = open_fds (world m)
    else r \<notin> open_fds (world m) \<and> open_fds (world m1) = insert r (open_fds (world m))"
proof -
  obtain e w where "sys E (Sys_socket d t p) (world m) = ((r, e), w)" "world m1 = w"
    using assms by (auto simp: run_call_def split: prod.splits)
  moreover have "case sys E (Sys_socket d t p) (world m) of ((r, e), w') \<Rightarrow> if r < 0
      then open_fds w' = open_fds (world m)
      else r \<notin> open_fds (world m) \<and> open_fds w' = insert r (open_fds (world m))"
    by (rule ledger [unfolded counts_descriptors_def, THEN conjunct1, THEN spec, THEN spec, THEN spec, THEN spec])
  ultimately show ?thesis by simp
qed

lemma close_call: "open_fds (world (snd (run_call E (Sys_close d) m))) = open_fds (world m) - {d}"
  unfolding world_run_call
  by (rule ledger [unfolded counts_descriptors_def, THEN conjunct2, THEN conjunct1, THEN spec, THEN spec])

lemma other_call_snd:
  assumes "opens_nothing c"
  shows "open_fds (world (snd (run_call E c m))) = open_fds (world m)"
  unfolding world_run_call
  by (rule ledger [unfolded counts_descriptors_def, THEN conjunct2, THEN conjunct2, rule_format, OF assms])

lemma other_call:
  "opens_nothing c \<Longrightarrow> run_call E c m = (r, m1) \<Longrightarrow> open_fds (world m1) = open_fds (world m)"
  using other_call_snd [of c m] by simp

lemma setBlocking_call: "open_fds (world (FD_setBlocking E d b m)) = open_fds (world m)"
proof -
  obtain x m1 where x: "run_call E (Sys_fcntl_getfl d) m = (x, m1)" by fastforce
  then have "open_fds (world m1) = open_fds (world m)" by (rule other_call [rotated]) (simp add: opens_nothing_def)
  then show ?thesis using x by (simp add: FD_setBlocking_def Let_def other_call_snd opens_nothing_def)
qed

lemma init_call:
  assumes "file_at m this = Some f" and "fd f = -1"
  obtains m1 where "File_init E this d m = ret () m1" and "file_at m1 this = Some (f\<lparr>fd := d\<rparr>)"
    and "open_fds (world m1) = open_fds (world m)"
proof
  have keep: "file_at (snd (run_call E c x)) this = file_at x this" for c x
    by (cases "run_call E c x") (simp add: run_call_frame)
  show "File_init E this d m = ret () (FD_setBlocking E d False (put_file this (f\<lparr>fd := d\<rparr>) m))"
    using assms by (simp add: File_init_def with_file_Some)
  have "file_at (FD_setBlocking E d b x) this = file_at x this" for b x
    using keep [of "Sys_fcntl_getfl d" x]
    by (cases "run_call E (Sys_fcntl_getfl d) x") (simp add: FD_setBlocking_def Let_def keep)
  then show "file_at (FD_setBlocking E d False (put_file this (f\<lparr>fd := d\<rparr>) m)) this = Some (f\<lparr>fd := d\<rparr>)"
    using assms(1) by simp
qed (simp add: setBlocking_call)

text \<open>One address: \<open>socket\<close>, other calls on it, and then either \<open>init\<close> or \<open>close\<close>.\<close>

lemma failed_socket:
  assumes "run_call E (Sys_socket d t p) m = (r, m1)" and "r < 0"
  shows "took_none open_fds this m m1"
  using socket_call [OF assms(1)] assms run_call_frame(3) [OF assms(1)] by (simp add: took_none_def)

lemma closed_socket:
  assumes "run_call E (Sys_socket d t p) m = (r, m1)" and "\<not> r < 0"
    and "open_fds (world m2) = open_fds (world m1)" and "file_at m2 this = file_at m1 this"
  shows "took_none open_fds this m (snd (run_call E (Sys_close r) m2))"
  using socket_call [OF assms(1)] assms(2-4) run_call_frame(3) [OF assms(1)]
    run_call_frame(3) [of E "Sys_close r" m2 "fst (run_call E (Sys_close r) m2)"]
  by (simp add: took_none_def close_call)

lemma kept_socket:
  assumes "run_call E (Sys_socket d t p) m = (r, m1)" and "\<not> r < 0"
    and "open_fds (world m2) = open_fds (world m1)" and "file_at m2 this = file_at m1 this"
    and "file_at m this = Some f" and "fd f = -1"
  obtains m3 where "File_init E this r m2 = ret () m3" and "took_one open_fds this m m3"
proof -
  have "file_at m2 this = Some f" using run_call_frame(3) [OF assms(1)] assms(4,5) by simp
  then obtain m3 where "File_init E this r m2 = ret () m3" "file_at m3 this = Some (f\<lparr>fd := r\<rparr>)"
      "open_fds (world m3) = open_fds (world m2)"
    using assms(6) by (rule init_call)
  then show ?thesis using that socket_call [OF assms(1)] assms(2,3) by (simp add: took_one_def)
qed

lemma quiet_call:
  assumes "run_call E c m = (r, m1)" and "opens_nothing c"
  shows "open_fds (world m1) = open_fds (world m)" and "file_at m1 this = file_at m this"
  using other_call [OF assms(2,1)] run_call_frame(3) [OF assms(1)] by simp_all

lemma bind_ledger:
  assumes "None \<notin> set hosts" and "file_at m this = Some f" and "fd f = -1"
  shows "\<exists>m'. (bind_hosts E this st pr reuse hosts m = ret () m' \<and> took_one open_fds this m m') \<or>
    (\<exists>x. bind_hosts E this st pr reuse hosts m = Some (Throw x m') \<and> took_none open_fds this m m')"
  using assms
proof (induction hosts arbitrary: m)
  case Nil
  then show ?case by (simp add: took_none_def)
next
  case (Cons h hosts)
  obtain ep where ep: "h = Some ep" using Cons.prems(1) by (cases h) auto
  have again: ?case if n: "took_none open_fds this m m'" "bind_hosts E this st pr reuse (h # hosts) m =
      bind_hosts E this st pr reuse hosts m'" for m'
    using Cons.IH [of m'] Cons.prems n took_trans [OF n(1)] by (metis list.set_intros(2) took_none_def)
  obtain sock m1 where s: "run_call E (Sys_socket (EndPoint_addressFamily ep) (st OR SOCK_FLAGS) pr) m = (sock, m1)"
    by fastforce
  obtain a2 m2 where m2: "run_call E (Sys_setsockopt sock SO_REUSEADDR) m1 = (a2, m2)" by fastforce
  obtain a3 m3 where m3: "(if reuse then run_call E (Sys_setsockopt sock SO_REUSEPORT) m2 else (0, m2)) = (a3, m3)"
    by fastforce
  obtain r m4 where m4: "run_call E (Sys_bind sock (EndPoint_getSockAddr (little_endian E) ep)
      (EndPoint_getSockAddrSize ep)) m3 = (r, m4)" by fastforce
  have e: "open_fds (world m4) = open_fds (world m1)" "file_at m4 this = file_at m1 this"
    using quiet_call [OF m2] quiet_call [OF m4] m3 quiet_call [of "Sys_setsockopt sock SO_REUSEPORT" m2 a3 m3]
    by (simp_all add: opens_nothing_def split: if_splits)
  show ?case
  proof (cases "sock < 0")
    case True
    then show ?thesis using again [OF failed_socket [OF s True]] s ep by simp
  next
    case False
    show ?thesis
    proof (cases "r = 0")
      case True
      obtain m5 where "File_init E this sock m4 = ret () m5" "took_one open_fds this m m5"
        by (rule kept_socket [OF s False e Cons.prems(2,3)])
      then show ?thesis using ep s False m2 m3 m4 True by auto
    next
      case no: False
      then show ?thesis using again [OF closed_socket [OF s False e]] ep s False m2 m3 m4 by simp
    qed
  qed
qed

lemma connect_sync_ledger:
  assumes "None \<notin> set hosts" and "file_at m this = Some f" and "fd f = -1"
  shows "\<exists>m' r. (connect_hosts_sync E this st pr hosts m = ret r m' \<and>
      took_one open_fds this m m') \<or>
    (\<exists>x. connect_hosts_sync E this st pr hosts m = Some (Throw x m') \<and> took_none open_fds this m m')"
  using assms
proof (induction hosts arbitrary: m)
  case Nil
  then show ?case by (simp add: took_none_def)
next
  case (Cons h hosts)
  obtain ep where ep: "h = Some ep" using Cons.prems(1) by (cases h) auto
  have again: ?case if n: "took_none open_fds this m m'" "connect_hosts_sync E this st pr (h # hosts) m =
      connect_hosts_sync E this st pr hosts m'" for m'
    using Cons.IH [of m'] Cons.prems n took_trans [OF n(1)] by (metis list.set_intros(2) took_none_def)
  obtain sock m1 where s: "run_call E (Sys_socket (EndPoint_addressFamily ep) (st OR SOCK_CLOEXEC) pr) m = (sock, m1)"
    by fastforce
  obtain r m2 where m2: "run_call E (Sys_connect sock (EndPoint_getSockAddr (little_endian E) ep)
      (EndPoint_getSockAddrSize ep)) m1 = (r, m2)" by fastforce
  have e: "open_fds (world m2) = open_fds (world m1)" "file_at m2 this = file_at m1 this"
    using quiet_call [OF m2] by (simp_all add: opens_nothing_def)
  show ?case
  proof (cases "sock < 0")
    case True
    then show ?thesis using again [OF failed_socket [OF s True]] s ep by simp
  next
    case False
    show ?thesis
    proof (cases "0 \<le> r \<or> errno m2 = EINPROGRESS")
      case True
      obtain m3 where "File_init E this sock m2 = ret () m3" "took_one open_fds this m m3"
        by (rule kept_socket [OF s False e Cons.prems(2,3)])
      then show ?thesis using ep s False m2 True by auto
    next
      case no: False
      then show ?thesis using again [OF closed_socket [OF s False e]] ep s False m2 by simp
    qed
  qed
qed

lemma connect_ledger:
  assumes "None \<notin> set hosts" and "file_at m this = Some f" and "fd f = -1"
  shows "\<exists>m' r. (connect_hosts E this c st pr hosts m \<in> {invoke E c r m', set_connect this c m'} \<and>
      took_one open_fds this m m') \<or>
    (\<exists>x. connect_hosts E this c st pr hosts m = Some (Throw x m') \<and> took_none open_fds this m m')"
  using assms
proof (induction hosts arbitrary: m)
  case Nil
  have "took_none open_fds this m m" by (simp add: took_none_def)
  then show ?case by auto
next
  case (Cons h hosts)
  obtain ep where ep: "h = Some ep" using Cons.prems(1) by (cases h) auto
  have again: ?case if n: "took_none open_fds this m m'" "connect_hosts E this c st pr (h # hosts) m =
      connect_hosts E this c st pr hosts m'" for m'
    using Cons.IH [of m'] Cons.prems n took_trans [OF n(1)] by (metis list.set_intros(2) took_none_def)
  obtain sock m1 where s: "run_call E (Sys_socket (EndPoint_addressFamily ep) (st OR SOCK_FLAGS) pr) m = (sock, m1)"
    by fastforce
  obtain r m2 where m2: "run_call E (Sys_connect sock (EndPoint_getSockAddr (little_endian E) ep)
      (EndPoint_getSockAddrSize ep)) m1 = (r, m2)" by fastforce
  have e: "open_fds (world m2) = open_fds (world m1)" "file_at m2 this = file_at m1 this"
    using quiet_call [OF m2] by (simp_all add: opens_nothing_def)
  show ?case
  proof (cases "sock < 0")
    case True
    then show ?thesis using again [OF failed_socket [OF s True]] s ep by simp
  next
    case False
    show ?thesis
    proof (cases "0 \<le> r \<or> errno m2 = EINPROGRESS")
      case True
      obtain m3 where "File_init E this sock m2 = ret () m3" "took_one open_fds this m m3"
        by (rule kept_socket [OF s False e Cons.prems(2,3)])
      then show ?thesis using ep s False m2 True by auto
    next
      case no: False
      then show ?thesis using again [OF closed_socket [OF s False e]] ep s False m2 by simp
    qed
  qed
qed

end

lemma pipe_counts: "counts_descriptors pipe_env (\<lambda>w. set (opened w))"
proof -
  have "x \<le> foldr max xs (19::int)" if "x \<in> set xs" for x xs using that by (induction xs) auto
  then have "foldr max xs 19 + 1 \<notin> set xs" for xs :: "int list" by force
  moreover have "0 \<le> foldr max xs (19::int) + 1" for xs by (induction xs) auto
  ultimately show ?thesis
    by (auto simp: counts_descriptors_def pipe_sys_def opens_nothing_def not_less [symmetric] split: syscall.splits)
qed

interpretation pipe_ledger: descriptor_ledger pipe_env "\<lambda>w. set (opened w)"
  by unfold_locales (rule pipe_counts)

text \<open>
  C21. Binding and connecting by host name leak no descriptor: each of the three loops over a host's
  addresses either throws with every socket it made closed again and the object unchanged, or ends
  with exactly one more descriptor open, the object's; the nonblocking form then calls the callback
  or leaves a \<open>connect\<close> pending.
\<close>

theorem hosts_leak_nothing:
  assumes "counts_descriptors E open_fds" and "None \<notin> set hosts"
    and "file_at m this = Some f" and "fd f = -1"
  shows "(\<exists>m'. (bind_hosts E this st pr reuse hosts m = ret () m' \<and> took_one open_fds this m m') \<or>
      (\<exists>x. bind_hosts E this st pr reuse hosts m = Some (Throw x m') \<and> took_none open_fds this m m')) \<and>
    (\<exists>m' r. (connect_hosts_sync E this st pr hosts m = ret r m' \<and> took_one open_fds this m m') \<or>
      (\<exists>x. connect_hosts_sync E this st pr hosts m = Some (Throw x m') \<and> took_none open_fds this m m')) \<and>
    (\<exists>m' r. (connect_hosts E this c st pr hosts m \<in> {invoke E c r m', set_connect this c m'} \<and>
        took_one open_fds this m m') \<or>
      (\<exists>x. connect_hosts E this c st pr hosts m = Some (Throw x m') \<and> took_none open_fds this m m'))"
  using descriptor_ledger.bind_ledger [OF descriptor_ledger.intro [OF assms(1)] assms(2-4)]
    descriptor_ledger.connect_sync_ledger [OF descriptor_ledger.intro [OF assms(1)] assms(2-4)]
    descriptor_ledger.connect_ledger [OF descriptor_ledger.intro [OF assms(1)] assms(2-4)]
  by (intro conjI) assumption+

text \<open>Two addresses of a host, the first of which is refused.\<close>

definition two_hosts :: "EndPoint option list" where
  "two_hosts = [Some (EP_IP \<lparr>ip_addressFamily = 2, ip_address = 1, ip_port = 80\<rparr>),
     Some (EP_IP \<lparr>ip_addressFamily = 2, ip_address = 2, ip_port = 80\<rparr>)]"

theorem hosts_leak_nothing_witness:
  "\<exists>m'. (bind_hosts pipe_env 1 1 0 True two_hosts (socket_machine (-1) empty_op empty_op 0 (pipe_world [0, 1] []))
       = ret () m' \<and> took_one (\<lambda>w. set (opened w)) 1
         (socket_machine (-1) empty_op empty_op 0 (pipe_world [0, 1] [])) m') \<or>
    (\<exists>x. bind_hosts pipe_env 1 1 0 True two_hosts (socket_machine (-1) empty_op empty_op 0 (pipe_world [0, 1] []))
       = Some (Throw x m') \<and> took_none (\<lambda>w. set (opened w)) 1
         (socket_machine (-1) empty_op empty_op 0 (pipe_world [0, 1] [])) m')"
proof -
  have "None \<notin> set two_hosts" by (simp add: two_hosts_def)
  from hosts_leak_nothing [OF pipe_counts this, where this = 1 and f = "pipe_file (-1) empty_op empty_op"
      and m = "socket_machine (-1) empty_op empty_op 0 (pipe_world [0, 1] [])" and st = 1 and pr = 0 and reuse = True]
  show ?thesis by simp
qed

end
