(* ===== verification/CPoll_Values.thy ===== *)
theory CPoll_Values
  imports CPoll_Pipe CPoll_Util
begin

text \<open>
  Properties of the components that compute with values: timer intervals, addresses, endpoints
  and their text form.
\<close>

section \<open>Timer intervals\<close>

text \<open>
  C39. Setting an interval in milliseconds stores a normalised \<open>timespec\<close> from which the same number
  of milliseconds can be read back; the timer counts as running exactly when the number is not 0.
\<close>

theorem timer_interval_roundtrip:
  assumes "timer_at m this = Some t"
  shows "\<exists>m' t'. Timer_doSetInterval_ms E this ms m = ret () m' \<and> timer_at m' this = Some t' \<and>
    timer_fd t' = timer_fd t \<and> timer_cb t' = timer_cb t \<and>
    0 \<le> tv_nsec (Timer_getInterval t') \<and> tv_nsec (Timer_getInterval t') < 1000000000 \<and>
    tv_sec (Timer_getInterval t') * 1000 + tv_nsec (Timer_getInterval t') div 1000000 = uint ms \<and>
    (Timer_running t' \<longleftrightarrow> ms \<noteq> 0)"
proof -
  let ?t = "t\<lparr>interval := ms_timespec ms\<rparr>"
  let ?m = "snd (run_call E (Sys_timerfd_settime (timer_fd t) (ms_timespec ms) (ms_timespec ms)) (put_timer this ?t m))"
  have parts: "x div 1000 = 0 \<and> x mod 1000 * 1000000 = 0 \<longleftrightarrow> x = 0" for x :: int
  proof
    assume "x div 1000 = 0 \<and> x mod 1000 * 1000000 = 0"
    then have "x div 1000 = 0" "x mod 1000 = 0" by simp_all
    then show "x = 0" by (metis div_mult_mod_eq add_0 mult_zero_left)
  qed simp
  have iv: "interval ?t = ms_timespec ms" by simp
  have "Timer_running ?t \<longleftrightarrow> \<not> (uint ms div 1000 = 0 \<and> uint ms mod 1000 * 1000000 = 0)"
    unfolding Timer_running_def iv uint_ms_parts by blast
  then have run: "Timer_running ?t \<longleftrightarrow> ms \<noteq> 0" unfolding parts uint_0_iff .
  have nsec: "0 \<le> tv_nsec (ms_timespec ms)" "tv_nsec (ms_timespec ms) < 1000000000"
    using pos_mod_bound [of 1000 "uint ms"] by (simp_all add: uint_ms_parts)
  have sum: "tv_sec (ms_timespec ms) * 1000 + tv_nsec (ms_timespec ms) div 1000000 = uint ms"
    unfolding uint_ms_parts by (simp add: div_mult_mod_eq)
  show ?thesis
  proof (intro exI conjI)
    show "Timer_doSetInterval_ms E this ms m = ret () ?m"
      using assms by (simp add: Timer_doSetInterval_ms_def with_timer_def Let_def)
    show "timer_at ?m this = Some ?t" by simp
  qed (use run nsec sum in \<open>simp_all add: Timer_getInterval_def\<close>)
qed

theorem timer_interval_roundtrip_witness:
  "\<exists>m' t'. Timer_doSetInterval_ms pipe_env 3 1500 (pipe_machine empty_op empty_op 0 (pipe_world [] [])) = ret () m' \<and>
    timer_at m' 3 = Some t' \<and> Timer_running t'"
  using timer_interval_roundtrip [where E = pipe_env and this = 3 and ms = 1500
      and m = "pipe_machine empty_op empty_op 0 (pipe_world [] [])"
      and t = "\<lparr>timer_fd = 7, timer_cb = Some Log, interval = \<lparr>tv_sec = 1, tv_nsec = 0\<rparr>\<rparr>"]
  by (fastforce simp: timer_at_def object_machine_def)

section \<open>Endpoints\<close>

text \<open>
  C26. An endpoint survives the way through a \<open>sockaddr\<close>, in either byte order: \<open>fromSockAddr\<close> of its
  address is an equal object, \<open>setSockAddr\<close> on another object of its class makes it equal, and on
  one of another class throws. \<open>getSockAddr\<close> writes exactly the bytes that \<open>getSockAddrSize\<close> says.
\<close>

theorem endpoint_roundtrip:
  assumes "EndPoint_ok e" and "EndPoint_ok e'"
  shows "EndPoint_fromSockAddr le (EndPoint_getSockAddr le e) = Some (Some e) \<and>
    (if EndPoint_addressFamily e = EndPoint_addressFamily e'
     then EndPoint_setSockAddr le (EndPoint_getSockAddr le e) e' = Some (Inr e)
     else \<exists>x. EndPoint_setSockAddr le (EndPoint_getSockAddr le e) e' = Some (Inl x)) \<and>
    sockaddr_extent (EndPoint_getSockAddr le e) = EndPoint_getSockAddrSize e"
proof -
  have differ: "\<exists>x. EndPoint_setSockAddr le a e' = Some (Inl x)" if "sa_family a \<noteq> EndPoint_addressFamily e'" for a
    using that assms(2) ip_codec.set_other [of a le] ip6_codec.set_other [of a le] un_codec.set_other [of a]
    by (cases e') (fastforce simp: IPEndPoint_ok_def IPv6EndPoint_ok_def UNIXEndPoint_ok_def)+
  have fam: "sa_family (EndPoint_getSockAddr le e) = EndPoint_addressFamily e"
    using assms(1) ip_codec.get_family ip6_codec.get_family un_codec.get_family
    by (cases e) (simp_all add: IPEndPoint_ok_def IPv6EndPoint_ok_def UNIXEndPoint_ok_def)
  have same: "EndPoint_setSockAddr le (EndPoint_getSockAddr le e) e' = Some (Inr e)"
    if "EndPoint_addressFamily e = EndPoint_addressFamily e'"
    using that assms
    by (cases e; cases e')
      (simp_all add: ip_codec.set_get ip6_codec.set_get un_codec.set_get,
       simp_all add: IPEndPoint_ok_def IPv6EndPoint_ok_def UNIXEndPoint_ok_def af_defs)
  show ?thesis
    using fromSockAddr_getSockAddr [OF assms(1)] getSockAddr_extent same differ fam by auto
qed

theorem endpoint_roundtrip_witness:
  "EndPoint_fromSockAddr True (EndPoint_getSockAddr True (EP_UNIX (UNIXEndPoint_make ''/run/x''))) =
     Some (Some (EP_UNIX (UNIXEndPoint_make ''/run/x'')))"
  using endpoint_roundtrip [of "EP_UNIX (UNIXEndPoint_make ''/run/x'')" "EP_UNIX (UNIXEndPoint_make [])" True]
  by (simp add: UNIXEndPoint_make_def UNIXEndPoint_ok_def)

section \<open>Addresses\<close>

text \<open>
  C38. The text of an IPv4 address always fits its buffer. That of an IPv6 address of 16 to 45
  characters is written past the end of its buffer: \<open>tmp\<close> has \<open>INET_ADDRSTRLEN\<close> bytes, and
  \<open>inet_ntop\<close> is told \<open>INET6_ADDRSTRLEN\<close>.
\<close>

theorem address_text_bounds:
  "IPAddress_toStr le err a = Inr (dotted (ntohl le a)) \<and>
   (IPv6Address_toStr ntop6 err b = None \<longleftrightarrow> 16 \<le> length (ntop6 b) \<and> length (ntop6 b) \<le> 45)"
proof -
  have "length (dotted (ntohl le a)) + 1 \<le> INET_ADDRSTRLEN"
    using length_dotted [of "ntohl le a"] by (simp add: INET_ADDRSTRLEN_def)
  then show ?thesis
    by (auto simp: IPAddress_toStr_def inet_ntop4_def Let_def IPv6Address_toStr_def INET_ADDRSTRLEN_def
        INET6_ADDRSTRLEN_def)
qed

text \<open>
  Octets, as memory has them: octet \<open>i\<close> of a word of \<open>n\<close> bytes is its byte \<open>i\<close> on a little endian
  machine, and byte \<open>n - 1 - i\<close> on a big endian one. \<open>network_number\<close> is the number that these octets are
  in network order, the most significant first: for an address, what \<open>a.b.c.d\<close> stands for. Neither
  mentions a conversion of byte order.
\<close>

definition octet :: "bool \<Rightarrow> nat \<Rightarrow> 'a::len word \<Rightarrow> int" where
  "octet le i w = uint w div 256 ^ (if le then i else LENGTH('a) div 8 - 1 - i) mod 256"

definition network_number :: "bool \<Rightarrow> 'a::len word \<Rightarrow> int" where
  "network_number le (w :: 'a word) =
     (\<Sum>i < LENGTH('a) div 8. octet le i w * 256 ^ (LENGTH('a) div 8 - 1 - i))"

lemma digits_256: "(\<Sum>i < n. x div 256 ^ i mod 256 * 256 ^ i) = x mod 256 ^ n" for x :: int
proof (induction n)
  case (Suc n)
  have "x mod (256 ^ n * 256) = 256 ^ n * (x div 256 ^ n mod 256) + x mod 256 ^ n" by (rule zmod_zmult2_eq) simp
  then show ?case using Suc.IH by (simp add: mult.commute)
qed simp

lemma word_digits:
  assumes "LENGTH('a::len) = 8 * n"
  shows "(\<Sum>i < n. uint (w :: 'a word) div 256 ^ i mod 256 * 256 ^ i) = uint w"
proof -
  have "(256 :: int) ^ n = 2 ^ LENGTH('a)" unfolding assms by (simp add: power_mult)
  then show ?thesis unfolding digits_256 by simp
qed

lemma uint_byte_of: "uint (byte_of i (w :: 'a::len word)) = uint w div 256 ^ i mod 256"
proof -
  have "take_bit LENGTH('a) (uint w) = uint w" by (simp add: take_bit_int_eq_self_iff)
  then have "uint (byte_of i w) = take_bit 8 (drop_bit (8 * i) (uint w))"
    unfolding unsigned_take_bit_eq unsigned_drop_bit_eq by (rule arg_cong)
  also have "\<dots> = uint w div 256 ^ i mod 256" by (simp add: drop_bit_eq_div take_bit_eq_mod power_mult)
  finally show ?thesis .
qed

lemma network_number_big:
  assumes "LENGTH('a::len) = 8 * n"
  shows "network_number False (w :: 'a word) = uint w"
  using sum.nat_diff_reindex [of "\<lambda>i. uint w div 256 ^ i mod 256 * 256 ^ i" n] word_digits [OF assms, of w] assms
  by (simp add: network_number_def octet_def)

lemma network_number_little:
  assumes "LENGTH('a::len) = 8 * n" and "0 < n"
    and "\<And>i. i < n \<Longrightarrow> byte_of i (v :: 'a word) = byte_of (n - Suc i) w"
  shows "network_number True w = uint v"
proof -
  have "uint v div 256 ^ (n - Suc i) mod 256 = uint w div 256 ^ i mod 256" if "i < n" for i
    using assms(3) [of "n - Suc i"] that uint_byte_of [of "n - Suc i" v] uint_byte_of [of i w] by simp
  then have "network_number True w = (\<Sum>i < n. uint v div 256 ^ (n - Suc i) mod 256 * 256 ^ (n - Suc i))"
    using assms(1) by (simp add: network_number_def octet_def)
  also have "\<dots> = uint v"
    using sum.nat_diff_reindex [of "\<lambda>i. uint v div 256 ^ i mod 256 * 256 ^ i" n] word_digits [OF assms(1), of v]
    by simp
  finally show ?thesis .
qed

lemma byteswap16_bytes: "byte_of 0 (byteswap16 x) = byte_of 1 x" "byte_of 1 (byteswap16 x) = byte_of 0 x"
  by (rule bit_word_eqI; auto simp: bit_byteswap16 bit_take_bit_iff bit_drop_bit_eq add.commute)+

lemma byteswap32_bytes:
  "byte_of 0 (byteswap32 x) = byte_of 3 x" "byte_of 1 (byteswap32 x) = byte_of 2 x"
  "byte_of 2 (byteswap32 x) = byte_of 1 x" "byte_of 3 (byteswap32 x) = byte_of 0 x"
  by (rule bit_word_eqI; auto simp: bit_byteswap32 bit_take_bit_iff bit_drop_bit_eq add.commute)+

lemma ntohll_bytes:
  "byte_of 0 (ntohll True x) = byte_of 7 x" "byte_of 1 (ntohll True x) = byte_of 6 x"
  "byte_of 2 (ntohll True x) = byte_of 5 x" "byte_of 3 (ntohll True x) = byte_of 4 x"
  "byte_of 4 (ntohll True x) = byte_of 3 x" "byte_of 5 (ntohll True x) = byte_of 2 x"
  "byte_of 6 (ntohll True x) = byte_of 1 x" "byte_of 7 (ntohll True x) = byte_of 0 x"
  by (rule bit_word_eqI; auto simp: bit_ntohll bit_take_bit_iff bit_drop_bit_eq add.commute)+

lemma bytes_swapped:
  "i < 2 \<Longrightarrow> byte_of i (byteswap16 x) = byte_of (2 - Suc i) x"
  "i < 4 \<Longrightarrow> byte_of i (byteswap32 y) = byte_of (4 - Suc i) y"
  "i < 8 \<Longrightarrow> byte_of i (ntohll True z) = byte_of (8 - Suc i) z"
proof -
  assume "i < 2"
  then have "i = 0 \<or> i = 1" by arith
  then show "byte_of i (byteswap16 x) = byte_of (2 - Suc i) x" using byteswap16_bytes [of x] by auto
next
  assume "i < 4"
  then have "i = 0 \<or> i = 1 \<or> i = 2 \<or> i = 3" by arith
  then show "byte_of i (byteswap32 y) = byte_of (4 - Suc i) y" using byteswap32_bytes [of y] by auto
next
  assume "i < 8"
  then have "i = 0 \<or> i = 1 \<or> i = 2 \<or> i = 3 \<or> i = 4 \<or> i = 5 \<or> i = 6 \<or> i = 7" by arith
  then show "byte_of i (ntohll True z) = byte_of (8 - Suc i) z" using ntohll_bytes [of z] by auto
qed

lemma network_numbers:
  "uint (htons le p) = network_number le p" "uint (htonl le a) = network_number le a"
  "uint (ntohll le v) = network_number le v"
  using network_number_little [of 2, OF _ _ bytes_swapped(1)] network_number_little [of 4, OF _ _ bytes_swapped(2)]
    network_number_little [of 8, OF _ _ bytes_swapped(3)]
  by (cases le; simp add: htons_def htonl_def ntohll_def network_number_big [of 2] network_number_big [of 4]
      network_number_big [of 8])+

text \<open>
  C40. Byte order and address arithmetic, whatever the machine's byte order: \<open>htons\<close>, \<open>htonl\<close> and \<open>ntohll\<close>
  give the number that the octets in memory are in network order (and applied again, the word back).
  Addresses are added and subtracted, also with an \<open>int\<close>, as these numbers modulo \<open>2 ^ 32\<close>, and compared
  as these numbers.
\<close>

theorem address_arithmetic:
  "uint (htons le p) = network_number le p \<and> uint (htonl le a) = network_number le a \<and>
   uint (ntohll le v) = network_number le v \<and> ntohll le (ntohll le v) = v \<and>
   network_number le (IPAddress_add le a b) = (network_number le a + network_number le b) mod 2 ^ 32 \<and>
   network_number le (IPAddress_sub le a b) = (network_number le a - network_number le b) mod 2 ^ 32 \<and>
   network_number le (IPAddress_add_int le a i) = (network_number le a + i) mod 2 ^ 32 \<and>
   network_number le (IPAddress_sub_int le a i) = (network_number le a - i) mod 2 ^ 32 \<and>
   (IPAddress_lt le a b \<longleftrightarrow> network_number le a < network_number le b) \<and>
   (IPAddress_gt le a b \<longleftrightarrow> network_number le a > network_number le b) \<and>
   (IPAddress_le le a b \<longleftrightarrow> network_number le a \<le> network_number le b) \<and>
   (IPAddress_ge le a b \<longleftrightarrow> network_number le a \<ge> network_number le b) \<and>
   (IPAddress_eq a b \<longleftrightarrow> network_number le a = network_number le b)"
  unfolding network_numbers [symmetric] IPAddress_defs htonl_htonl ntohll_ntohll
  by (simp add: word_less_alt word_le_def uint_word_ariths uint_word_of_int mod_simps flip: word_uint_eq_iff)

end
