(* ===== verification/CPoll_Text.thy ===== *)
theory CPoll_Text
  imports CPoll_String
begin

text \<open>
  Properties of \<open>string_builder\<close>: any sequence of its modifying operations refines the same
  sequence on a mathematical string, when \<open>reserve\<close> returns, and the range check of \<open>substr\<close>.
\<close>

section \<open>Sequences of operations\<close>

datatype sb_op =
    Append_chars string
  | Append_char char
  | Append_format string
  | Assign string
  | Clear

fun sb_exec :: "allocator \<Rightarrow> sb_op \<Rightarrow> string_builder \<Rightarrow> unit sb_result" where
  "sb_exec A (Append_chars s) b = append_chars A s b"
| "sb_exec A (Append_char c) b = append_char A c b"
| "sb_exec A (Append_format t) b = obind (append_format A (Some t) b) (\<lambda>_ b1. ret () b1)"
| "sb_exec A (Assign s) b = assign_from A s b"
| "sb_exec A Clear b = ret () (clear b)"

text \<open>The same operation on the string that the builder stands for.\<close>

fun text_step :: "sb_op \<Rightarrow> string \<Rightarrow> string" where
  "text_step (Append_chars s) x = x @ s"
| "text_step (Append_char c) x = x @ [c]"
| "text_step (Append_format t) x = x @ t"
| "text_step (Assign s) x = s"
| "text_step Clear x = []"

text \<open>The room an operation needs; \<open>append_format\<close> asks for at least 32 characters.\<close>

fun text_room :: "sb_op \<Rightarrow> string \<Rightarrow> nat" where
  "text_room (Append_chars s) x = length x + length s"
| "text_room (Append_char c) x = length x + 1"
| "text_room (Append_format t) x = length x + max 32 (length t)"
| "text_room (Assign s) x = length s"
| "text_room Clear x = 0"

fun text_fits :: "sb_op list \<Rightarrow> string \<Rightarrow> bool" where
  "text_fits [] x \<longleftrightarrow> True"
| "text_fits (p # ps) x \<longleftrightarrow> text_room p x < limit \<and> text_fits ps (text_step p x)"

lemma clear_ok: "sb_wf b \<Longrightarrow> sb_wf (clear b) \<and> content (clear b) = []"
  by (auto simp: sb_wf_def clear_def content_def split: option.splits)

lemma sb_exec_ok:
  assumes "sb_wf b" and "text_room p (content b) < limit"
  shows "outcome_ok b (sb_exec A p b) (\<lambda>_ b'. content b' = text_step p (content b))"
proof (cases p)
  case (Append_format t)
  then have "outcome_ok b (append_format A (Some t) b) (\<lambda>n b'. n = word_of_nat (length t) \<and> content b' = content b @ t)"
    using assms append_format_ok by simp
  then show ?thesis
    using Append_format by (auto intro: outcome_ok_bind outcome_ok_ret)
next
  case Clear
  then show ?thesis using clear_ok [OF assms(1)] by (auto intro: outcome_ok_ret)
qed (use assms append_chars_ok append_char_ok assign_ok in auto)

text \<open>
  C20. Data refinement: a program of appends, formatted appends, assignments and \<open>clear\<close> on a
  well-formed builder does what the same program does on a plain string, and keeps the builder
  well formed, as long as every intermediate length stays below \<open>2 ^ 31\<close>. If the allocator refuses,
  \<open>bad_alloc\<close> is thrown, with the text of the operations done so far intact.
\<close>

theorem builder_refines_string:
  assumes "sb_wf b" and "text_fits ps (content b)"
  shows "(\<exists>b'. put_all (sb_exec A) ps b = ret () b' \<and> sb_wf b' \<and> content b' = fold text_step ps (content b)) \<or>
    (\<exists>b' k. put_all (sb_exec A) ps b = Some (Throw Bad_alloc b') \<and> k < length ps \<and> sb_wf b' \<and>
       content b' = fold text_step (take k ps) (content b))"
  using assms
proof (induction ps arbitrary: b)
  case (Cons p ps)
  have "outcome_ok b (sb_exec A p b) (\<lambda>_ b'. content b' = text_step p (content b))"
    using Cons.prems by (intro sb_exec_ok) simp_all
  then consider b1 where "sb_exec A p b = ret () b1" "sb_wf b1" "content b1 = text_step p (content b)"
    | b1 where "sb_exec A p b = Some (Throw Bad_alloc b1)" "sb_wf b1" "content b1 = content b"
    unfolding outcome_ok_def by auto
  then show ?case
  proof cases
    case 1
    then have "text_fits ps (content b1)" using Cons.prems(2) by simp
    from Cons.IH [OF 1(2) this] show ?thesis
    proof (elim disjE exE conjE)
      fix b' k assume "put_all (sb_exec A) ps b1 = Some (Throw Bad_alloc b')" "k < length ps" "sb_wf b'"
        "content b' = fold text_step (take k ps) (content b1)"
      then show ?thesis using 1 by (intro disjI2 exI [where x = b'] exI [where x = "Suc k"]) simp
    qed (use 1 in simp)
  next
    case 2
    then show ?thesis by (intro disjI2 exI [where x = b1] exI [where x = 0]) simp
  qed
qed simp

definition generous :: allocator where
  "generous = \<lparr>grants = (\<lambda>n. True), fresh = (\<lambda>i. CHR 0x00)\<rparr>"

theorem builder_refines_string_witness:
  "(\<exists>b'. put_all (sb_exec generous) [Append_chars ''ab'', Append_format ''x=1'', Append_char (CHR ''!'')] empty_builder =
       ret () b' \<and> sb_wf b' \<and> content b' = ''abx=1!'') \<or>
   (\<exists>b' k. put_all (sb_exec generous) [Append_chars ''ab'', Append_format ''x=1'', Append_char (CHR ''!'')] empty_builder =
       Some (Throw Bad_alloc b') \<and> k < 3 \<and> sb_wf b' \<and>
       content b' = fold text_step (take k [Append_chars ''ab'', Append_format ''x=1'', Append_char (CHR ''!'')]) [])"
  using builder_refines_string [where A = generous and b = empty_builder
      and ps = "[Append_chars ''ab'', Append_format ''x=1'', Append_char (CHR ''!'')]"]
  by (simp add: limit_def numeral_3_eq_3 del: put_all.simps)

section \<open>Reserving\<close>

lemma unat_less_32: "unat (w :: 32 word) < 2 ^ 32"
proof -
  have "unat w < 2 ^ LENGTH(32)" by (rule unsigned_less)
  then show ?thesis by simp
qed

lemma capacity_bound:
  assumes "sb_wf b"
  shows "unat (bufferCapacity b) \<le> 2 ^ 31"
proof (cases "buffer b")
  case None
  then show ?thesis using assms by (simp add: sb_wf_def)
next
  case (Some bs)
  from sb_wf_Some [OF assms Some] obtain k where k: "k < 32" "unat (bufferCapacity b) = 2 ^ k" by blast
  then have "(2::nat) ^ k \<le> 2 ^ 31" by (intro power_increasing) simp_all
  then show ?thesis using k(2) by simp
qed

lemma capacity_power:
  assumes "sb_wf b"
  shows "\<exists>k. (if bufferCapacity b < minCapacity then minCapacity else bufferCapacity b) = 2 ^ k"
proof (cases "buffer b")
  case None
  then show ?thesis using assms by (intro exI [where x = 8]) (simp add: sb_wf_def minCapacity_def)
next
  case (Some bs)
  from sb_wf_Some [OF assms Some] obtain k where k: "k < 32" "unat (bufferCapacity b) = 2 ^ k" by blast
  then have "bufferCapacity b = 2 ^ k" using unat_two_power [of k] by (simp add: word_unat_eq_iff)
  moreover have "minCapacity = 2 ^ 8" by (simp add: minCapacity_def)
  ultimately show ?thesis by metis
qed

text \<open>
  C36. When \<open>reserve\<close> returns: for a count below \<open>2 ^ 31\<close> it ends (growing, or with \<open>bad_alloc\<close>);
  from there on the doubled capacity wraps to 0 and the loop never ends, except for the largest
  count, whose \<open>count + 1\<close> wraps to 0, so that nothing is reserved.
\<close>

theorem reserve_returns_iff:
  assumes "sb_wf b"
  shows "reserve A count b \<noteq> None \<longleftrightarrow> unat count < 2 ^ 31 \<or> count = - 1"
proof -
  consider "unat count < 2 ^ 31" | "count = - 1" | "2 ^ 31 \<le> unat count" "count \<noteq> - 1" by fastforce
  then show ?thesis
  proof cases
    case 1
    then show ?thesis using reserve_ok [OF assms, of count A] by (auto simp: outcome_ok_def limit_def)
  next
    case 2
    then show ?thesis by (simp add: reserve_def)
  next
    case 3
    have "unat count < 2 ^ 32" by (rule unat_less_32)
    moreover have "unat (- 1 :: 32 word) = 2 ^ 32 - 1"
      by (simp add: unsigned_minus_1_eq_mask mask_eq_exp_minus_1)
    then have "unat count \<noteq> 2 ^ 32 - 1" using 3(2) by (metis word_unat_eq_iff)
    ultimately have "unat (count + 1) = unat count + 1"
      using unat_plus_small [of count 1] by simp
    then have big: "unat (count + 1) > 2 ^ 31" using 3(1) by simp
    then have "\<not> count + 1 \<le> bufferCapacity b" using capacity_bound [OF assms] by (simp add: word_le_nat_alt)
    moreover obtain k where "(if bufferCapacity b < minCapacity then minCapacity else bufferCapacity b) = 2 ^ k"
      using capacity_power [OF assms] by blast
    ultimately have "reserve A count b = None" using grow_diverges [OF big, of k] by (simp add: reserve_def)
    moreover have "\<not> unat count < 2 ^ 31" using 3(1) by simp
    ultimately show ?thesis using 3(2) by blast
  qed
qed

theorem reserve_returns_iff_witness: "reserve generous (2 ^ 31) empty_builder = None"
  using reserve_returns_iff [OF empty_builder_wf(1), of generous "2 ^ 31"] by simp

section \<open>Views\<close>

text \<open>
  C37. The range check of \<open>substr\<close> with an explicit length: a view that ends exactly at the end of the
  text is refused, although it lies inside; and a length so large that \<open>pos + count\<close> wraps is
  always accepted, although the view lies outside.
\<close>

theorem substr_range_check:
  assumes "unat pos \<le> unat (bufferLength b)" and "count \<noteq> npos"
  shows "(if unat pos + unat count = unat (bufferLength b)
      then substr pos count b = Some (Throw (Out_of_range ''string_builder .substr() out of bounds'') b)
      else if unat pos + unat count < unat (bufferLength b) \<or> 2 ^ 32 \<le> unat pos + unat count
      then substr pos count b = ret (pos, count) b
      else substr pos count b = Some (Throw (Out_of_range ''string_builder .substr() out of bounds'') b))"
proof -
  have len: "unat (bufferLength b) < 2 ^ 32" "unat count < 2 ^ 32"
    by (rule unat_less_32)+
  have small: "unat (pos + count) = unat pos + unat count" if "unat pos + unat count < 2 ^ 32"
    using that by (rule unat_plus_small)
  have wrap: "unat (pos + count) < unat (bufferLength b)" if "2 ^ 32 \<le> unat pos + unat count"
  proof -
    have "unat (pos + count) = (unat pos + unat count) mod 2 ^ 32" by (simp add: unat_word_ariths)
    also have "\<dots> = unat pos + unat count - 2 ^ 32"
      using that len assms(1) by (subst mod_if) (simp add: le_mod_geq)
    finally show ?thesis using that len assms(1) by simp
  qed
  have le: "pos > bufferLength b \<longleftrightarrow> False" using assms(1) by (simp add: word_less_nat_alt)
  have ge: "pos + count \<ge> bufferLength b \<longleftrightarrow> unat (bufferLength b) \<le> unat (pos + count)"
    by (simp add: word_le_nat_alt)
  show ?thesis
    unfolding substr_def le ge
    using assms(2) small wrap len by (cases "2 ^ 32 \<le> unat pos + unat count") auto
qed

theorem substr_range_check_witness:
  "substr 3 (- 2) \<lparr>buffer = Some (replicate 256 (CHR ''a'')), bufferLength = 5, bufferCapacity = 256\<rparr> =
   ret (3, - 2) \<lparr>buffer = Some (replicate 256 (CHR ''a'')), bufferLength = 5, bufferCapacity = 256\<rparr>"
  using substr_range_check [of 3 "\<lparr>buffer = Some (replicate 256 (CHR ''a'')), bufferLength = 5, bufferCapacity = 256\<rparr>" "- 2"]
  by (simp add: npos_def)

end
