(* ===== verification/CPoll_Proxy.thy ===== *)
theory CPoll_Proxy
  imports CPoll_Surface CPoll_Sessions CPoll_Loop
begin

text \<open>
  src/examples/bitflip_proxy.C: a proxy between two connections that shifts every byte. Its handlers
  are user code of the library, so this theory runs the library's model with the proxy's callbacks.
\<close>

section \<open>State\<close>

text \<open>
  The callbacks, with the handler they capture (\<open>this\<close>) as a number. A handler's sockets are
  objects of the machine; its buffers are addresses. The static \<open>ep\<close> and the configuration are in
  \<open>conf\<close>; \<open>place\<close> says where \<open>operator new\<close> puts a new handler, its two sockets and its buffers.
\<close>

datatype proxy_cb =
    HandleConnection
  | ConnectCB nat
  | Read1cb nat
  | Read2cb nat
  | Write1cb nat
  | Write2cb nat

record handler =
  h_s :: ptr
  h_s2 :: ptr
  h_buf1 :: addr
  h_buf2 :: addr
  stopped1_2 :: bool
  stopped2_1 :: bool

record 'k proxy_world =
  kernel :: 'k
  handlers :: "nat \<Rightarrow> handler option"
  user_bytes :: "addr \<Rightarrow> byte"

type_synonym 'k proxy_machine = "('k proxy_world, proxy_cb) machine"
type_synonym 'k proxy_env = "('k proxy_world, proxy_cb) env"

record 'k conf =
  conf_ep :: ptr
  conf_fwd :: IPEndPoint
  conf_r :: bool
  place :: "'k proxy_machine \<Rightarrow> nat \<times> ptr \<times> ptr \<times> addr \<times> addr"

definition bufSize :: int where "bufSize = 4096"
definition SHUT_WR :: int where "SHUT_WR = 1"

definition with_handler ::
  "nat \<Rightarrow> 'k proxy_machine \<Rightarrow> (handler \<Rightarrow> ('a, 'k proxy_machine) result) \<Rightarrow> ('a, 'k proxy_machine) result" where
  "with_handler h m k = (case handlers (world m) h of None \<Rightarrow> Some (Fault Bad_pointer) | Some x \<Rightarrow> k x)"

definition put_handler :: "nat \<Rightarrow> handler option \<Rightarrow> 'k proxy_machine \<Rightarrow> 'k proxy_machine" where
  "put_handler h x m = m\<lparr>world := (world m)\<lparr>handlers := (handlers (world m))(h := x)\<rparr>\<rparr>"

section \<open>The handler\<close>

text \<open>\<open>delete this\<close> destroys the members \<open>s2\<close> and \<open>s\<close>, in this order, and frees the memory.\<close>

definition handler_delete ::
  "'k proxy_env \<Rightarrow> nat \<Rightarrow> 'k proxy_machine \<Rightarrow> (unit, 'k proxy_machine) result" where
  "handler_delete E h m = with_handler h m (\<lambda>x.
     obind (File_destroy E (h_s2 x) m) (\<lambda>_ m1.
     obind (File_destroy E (h_s x) m1) (\<lambda>_ m2. ret () (put_handler h None m2))))"

definition handler_stop ::
  "'k proxy_env \<Rightarrow> 'k conf \<Rightarrow> nat \<Rightarrow> 'k proxy_machine \<Rightarrow> (unit, 'k proxy_machine) result" where
  "handler_stop E cfg h m = with_handler h m (\<lambda>x.
     obind (EPoll_remove E (conf_ep cfg) (h_s x) m) (\<lambda>_ m1.
     obind (EPoll_remove E (conf_ep cfg) (h_s2 x) m1) (\<lambda>_ m2. handler_delete E h m2)))"

definition handler_closed ::
  "'k proxy_env \<Rightarrow> 'k conf \<Rightarrow> nat \<Rightarrow> int \<Rightarrow> 'k proxy_machine \<Rightarrow> (unit, 'k proxy_machine) result" where
  "handler_closed E cfg h i m = handler_stop E cfg h m"

definition handler_transform :: "'k conf \<Rightarrow> addr \<Rightarrow> int \<Rightarrow> 'k proxy_machine \<Rightarrow> 'k proxy_machine" where
  "handler_transform cfg buf len m = m\<lparr>world := (world m)\<lparr>user_bytes :=
     store_bytes (user_bytes (world m)) buf
       (proxy_transform (conf_r cfg) (nat len) (load_bytes (user_bytes (world m)) buf (nat len)))\<rparr>\<rparr>"

definition handler_read1 :: "'k proxy_env \<Rightarrow> nat \<Rightarrow> 'k proxy_machine \<Rightarrow> (unit, 'k proxy_machine) result" where
  "handler_read1 E h m = with_handler h m (\<lambda>x.
     File_recv E (h_s x) (h_buf1 x) bufSize 0 (Some (Read1cb h)) False m)"

definition handler_read2 :: "'k proxy_env \<Rightarrow> nat \<Rightarrow> 'k proxy_machine \<Rightarrow> (unit, 'k proxy_machine) result" where
  "handler_read2 E h m = with_handler h m (\<lambda>x.
     File_recv E (h_s2 x) (h_buf2 x) bufSize 0 (Some (Read2cb h)) False m)"

definition handler_write1 ::
  "'k proxy_env \<Rightarrow> nat \<Rightarrow> int \<Rightarrow> 'k proxy_machine \<Rightarrow> (unit, 'k proxy_machine) result" where
  "handler_write1 E h i m = with_handler h m (\<lambda>x.
     File_sendAll E (h_s2 x) (h_buf1 x) i 0 (Some (Write1cb h)) m)"

definition handler_write2 ::
  "'k proxy_env \<Rightarrow> nat \<Rightarrow> int \<Rightarrow> 'k proxy_machine \<Rightarrow> (unit, 'k proxy_machine) result" where
  "handler_write2 E h i m = with_handler h m (\<lambda>x.
     File_sendAll E (h_s x) (h_buf2 x) i 0 (Some (Write2cb h)) m)"

definition handler_read1cb ::
  "'k proxy_env \<Rightarrow> 'k conf \<Rightarrow> nat \<Rightarrow> int \<Rightarrow> 'k proxy_machine \<Rightarrow> (unit, 'k proxy_machine) result" where
  "handler_read1cb E cfg h r m = with_handler h m (\<lambda>x.
     if r \<le> 0 then
       obind (Socket_shutdown E (h_s2 x) SHUT_WR m) (\<lambda>_ m1. with_handler h m1 (\<lambda>x1.
         let m2 = put_handler h (Some (x1\<lparr>stopped1_2 := True\<rparr>)) m1 in
         if stopped2_1 x1 then handler_stop E cfg h m2 else ret () m2))
     else handler_write1 E h r (handler_transform cfg (h_buf1 x) r m))"

definition handler_read2cb ::
  "'k proxy_env \<Rightarrow> 'k conf \<Rightarrow> nat \<Rightarrow> int \<Rightarrow> 'k proxy_machine \<Rightarrow> (unit, 'k proxy_machine) result" where
  "handler_read2cb E cfg h r m = with_handler h m (\<lambda>x.
     if r \<le> 0 then
       obind (Socket_shutdown E (h_s x) SHUT_WR m) (\<lambda>_ m1. with_handler h m1 (\<lambda>x1.
         let m2 = put_handler h (Some (x1\<lparr>stopped2_1 := True\<rparr>)) m1 in
         if stopped1_2 x1 then handler_stop E cfg h m2 else ret () m2))
     else handler_write2 E h r (handler_transform cfg (h_buf2 x) r m))"

definition handler_write1cb ::
  "'k proxy_env \<Rightarrow> 'k conf \<Rightarrow> nat \<Rightarrow> int \<Rightarrow> 'k proxy_machine \<Rightarrow> (unit, 'k proxy_machine) result" where
  "handler_write1cb E cfg h r m = (if r \<le> 0 then handler_stop E cfg h m else handler_read1 E h m)"

definition handler_write2cb ::
  "'k proxy_env \<Rightarrow> 'k conf \<Rightarrow> nat \<Rightarrow> int \<Rightarrow> 'k proxy_machine \<Rightarrow> (unit, 'k proxy_machine) result" where
  "handler_write2cb E cfg h r m = (if r \<le> 0 then handler_stop E cfg h m else handler_read2 E h m)"

definition handler_connectCB ::
  "'k proxy_env \<Rightarrow> 'k conf \<Rightarrow> nat \<Rightarrow> int \<Rightarrow> 'k proxy_machine \<Rightarrow> (unit, 'k proxy_machine) result" where
  "handler_connectCB E cfg h r m =
     (if r < 0 then handler_stop E cfg h m
      else obind (handler_read1 E h m) (\<lambda>_ m1. handler_read2 E h m1))"

definition handler_start ::
  "'k proxy_env \<Rightarrow> 'k conf \<Rightarrow> nat \<Rightarrow> 'k proxy_machine \<Rightarrow> (unit, 'k proxy_machine) result" where
  "handler_start E cfg h m = with_handler h m (\<lambda>x.
     obind (EPoll_add E (conf_ep cfg) (h_s x) m) (\<lambda>_ m1.
     obind (EPoll_add E (conf_ep cfg) (h_s2 x) m1) (\<lambda>_ m2.
       Socket_connect_ep E (h_s2 x) (EP_IP (conf_fwd cfg)) (Some (ConnectCB h)) m2)))"

text \<open>The constructor: \<open>s\<close> takes the accepted descriptor, \<open>s2\<close> a new one.\<close>

definition handler_construct ::
  "'k proxy_env \<Rightarrow> 'k conf \<Rightarrow> int \<Rightarrow> 'k proxy_machine \<Rightarrow> (nat, 'k proxy_machine) result" where
  "handler_construct E cfg sock m = (case place cfg m of (h, p, p2, b1, b2) \<Rightarrow>
     obind (Socket_construct_new E p2 AF_INET SOCK_STREAM 0 (Socket_construct_fd E p sock m)) (\<lambda>_ m1.
       ret h (put_handler h (Some \<lparr>h_s = p, h_s2 = p2, h_buf1 = b1, h_buf2 = b2,
          stopped1_2 = False, stopped2_1 = False\<rparr>) m1)))"

definition handleConnection ::
  "'k proxy_env \<Rightarrow> 'k conf \<Rightarrow> int \<Rightarrow> 'k proxy_machine \<Rightarrow> (unit, 'k proxy_machine) result" where
  "handleConnection E cfg sock m =
     obind (handler_construct E cfg sock m) (\<lambda>h m1. handler_start E cfg h m1)"

text \<open>What the callbacks do; the proxy's environment is one whose user code is this.\<close>

fun proxy_usr ::
  "'k proxy_env \<Rightarrow> 'k conf \<Rightarrow> proxy_cb \<Rightarrow> int \<Rightarrow> 'k proxy_machine \<Rightarrow> (unit, 'k proxy_machine) result" where
  "proxy_usr E cfg HandleConnection r m = handleConnection E cfg r m"
| "proxy_usr E cfg (ConnectCB h) r m = handler_connectCB E cfg h r m"
| "proxy_usr E cfg (Read1cb h) r m = handler_read1cb E cfg h r m"
| "proxy_usr E cfg (Read2cb h) r m = handler_read2cb E cfg h r m"
| "proxy_usr E cfg (Write1cb h) r m = handler_write1cb E cfg h r m"
| "proxy_usr E cfg (Write2cb h) r m = handler_write2cb E cfg h r m"

text \<open>\<open>main\<close> after the arguments have been read: the listening socket is at \<open>srv\<close>.\<close>

definition proxy_main ::
  "'k proxy_env \<Rightarrow> 'k conf \<Rightarrow> ptr \<Rightarrow> string \<Rightarrow> string \<Rightarrow> 'k proxy_machine \<Rightarrow> (unit, 'k proxy_machine) result"
where
  "proxy_main E cfg srv host port m =
     obind (Socket_bind_host E srv host port 0 SOCK_STREAM 0 True (Socket_construct E srv m)) (\<lambda>_ m1.
     obind (EPoll_add E (conf_ep cfg) srv m1) (\<lambda>_ m2.
     obind (Socket_listen E srv 16 m2) (\<lambda>_ m3.
     obind (Socket_repeatAccept E srv (Some HandleConnection) m3) (\<lambda>_ m4.
       EPoll_loop E (conf_ep cfg) m4))))"

section \<open>Relaying\<close>

definition shift_byte :: "bool \<Rightarrow> byte \<Rightarrow> byte" where
  "shift_byte r b = (if r then b - 69 else b + 69)"

lemma proxy_transform_all: "length bs = n \<Longrightarrow> proxy_transform r n bs = map (shift_byte r) bs"
  by (simp add: proxy_transform_def shift_byte_def fun_eq_iff cong: map_cong)

lemma shift_shift: "map (shift_byte (\<not> r)) (map (shift_byte r) bs) = bs"
  by (cases r) (simp_all add: shift_byte_def comp_def)

lemma transform_bytes:
  assumes "0 \<le> k"
  shows "load_bytes (user_bytes (world (handler_transform cfg buf k m))) buf (nat k) =
    map (shift_byte (conf_r cfg)) (load_bytes (user_bytes (world m)) buf (nat k))"
  using load_store_bytes [of "user_bytes (world m)" buf
      "map (shift_byte (conf_r cfg)) (load_bytes (user_bytes (world m)) buf (nat k))"]
  by (simp add: handler_transform_def proxy_transform_all)

lemma handler_transform_frame [simp]:
  "file_at (handler_transform cfg buf k m) p = file_at m p"
  "handlers (world (handler_transform cfg buf k m)) = handlers (world m)"
  by (simp_all add: handler_transform_def)

text \<open>
  C27. The proxy relays. When \<open>k\<close> bytes have been received from the client, they are shifted in place, and
  the shifted bytes go to the server: over any sequence of readiness events, what has been sent is always
  the first bytes of them, once and in order; \<open>write1cb\<close> is called at most once, and when it is called with
  \<open>v > 0\<close>, the first \<open>v\<close> have been sent. If no \<open>send\<close> fails or sends nothing and no event reports an
  error, it is called with \<open>k\<close>: all bytes have been sent. A second proxy that shifts the other way
  (\<open>cfg.r\<close>) and has these bytes in a buffer turns them into the bytes that the first one had received.
\<close>

theorem proxy_relays:
  assumes "handlers (world m) h = Some x" and "file_at m (h_s2 x) = Some f"
    and "operation (pendingOps f Wr) = Op_none" and "in_s32 k" and "0 < k"
    and "\<forall>flags. writes_to E (\<lambda>b n. Sys_send (fd f) b n flags) outp user_bytes"
    and "harmless outp user_bytes evs"
  shows "let m1 = handler_transform cfg (h_buf1 x) k m;
      received = load_bytes (user_bytes (world m)) (h_buf1 x) (nat k);
      sent = load_bytes (user_bytes (world m1)) (h_buf1 x) (nat k);
      P = written_so_far outp user_bytes (h_buf1 x) (world m1);
      W = all_waiting P (h_s2 x) Wr (fd f) Op_sendAll (rw_flags (readWrite (pendingOps f Wr))) (h_buf1 x) k (Write1cb h)
    in transfers E P (h_s2 x) Wr True k (Write1cb h) W (handler_read1cb E cfg h k m) evs \<and>
    ((\<forall>flags. never_ends E (\<lambda>b n. Sys_send (fd f) b n flags) (h_buf1 x) k P) \<and> (\<forall>(err, g) \<in> set evs. \<not> err) \<longrightarrow>
      transfers E (\<lambda>v w. P v w \<and> v = k) (h_s2 x) Wr True k (Write1cb h) W (handler_read1cb E cfg h k m) evs) \<and>
    sent = map (shift_byte (conf_r cfg)) received \<and>
    (\<forall>cfg2 b m2. conf_r cfg2 \<noteq> conf_r cfg \<and> load_bytes (user_bytes (world m2)) b (nat k) = sent \<longrightarrow>
      load_bytes (user_bytes (world (handler_transform cfg2 b k m2))) b (nat k) = received)"
proof -
  let ?m = "handler_transform cfg (h_buf1 x) k m"
  have eq: "handler_read1cb E cfg h k m = File_sendAll E (h_s2 x) (h_buf1 x) k 0 (Some (Write1cb h)) ?m"
    using assms(1,5) by (simp add: handler_read1cb_def with_handler_def handler_write1_def)
  have sent: "load_bytes (user_bytes (world ?m)) (h_buf1 x) (nat k) =
      map (shift_byte (conf_r cfg)) (load_bytes (user_bytes (world m)) (h_buf1 x) (nat k))"
    using assms(5) by (intro transform_bytes) simp
  have restored: "load_bytes (user_bytes (world (handler_transform cfg2 b k m2))) b (nat k) =
      load_bytes (user_bytes (world m)) (h_buf1 x) (nat k)"
    if "conf_r cfg2 \<noteq> conf_r cfg"
      "load_bytes (user_bytes (world m2)) b (nat k) = load_bytes (user_bytes (world ?m)) (h_buf1 x) (nat k)" for cfg2 b m2
  proof -
    have "conf_r cfg2 = (\<not> conf_r cfg)" using that(1) by blast
    then show ?thesis using transform_bytes [of k cfg2 b m2] assms(5) that(2) sent shift_shift by simp
  qed
  have "file_at ?m (h_s2 x) = Some f" using assms(2) by simp
  note relay = sendAll_outcome [where m = ?m and buf = "h_buf1 x", OF this assms(3) _ refl _ assms(4,5,7) refl]
  show ?thesis
    unfolding Let_def eq
    by (intro conjI impI allI relay(1) relay(2) sent restored) (use assms(6) in blast)+
qed

text \<open>
  A kernel for the proxy: every \<open>recv\<close> gives the bytes 1 and 2; \<open>send\<close> takes everything, or fails when
  the server is gone. The user code is the proxy's, with \<open>n\<close> levels of callbacks inside callbacks.
\<close>

definition proxy_sys ::
  "bool \<Rightarrow> syscall \<Rightarrow> byte list proxy_world \<Rightarrow> (int \<times> int option) \<times> byte list proxy_world" where
  "proxy_sys gone c w = (case c of
      Sys_recv d b n fl \<Rightarrow> ((2, None), w\<lparr>user_bytes := store_bytes (user_bytes w) b [1, 2]\<rparr>)
    | Sys_send d b n fl \<Rightarrow>
        (if gone \<or> n \<le> 0 then ((-1, Some EPIPE), w)
         else ((n, None), w\<lparr>kernel := kernel w @ load_bytes (user_bytes w) b (nat n)\<rparr>))
    | _ \<Rightarrow> ((0, None), w))"

definition shifting :: "byte list conf" where
  "shifting = \<lparr>conf_ep = 9, conf_fwd = IPEndPoint_make 0 80, conf_r = False, place = (\<lambda>m. (0, 1, 2, 100, 200))\<rparr>"

fun proxy_env :: "bool \<Rightarrow> nat \<Rightarrow> byte list proxy_env" where
  "proxy_env gone 0 = \<lparr>sys = proxy_sys gone,
     sys_epoll_wait = (\<lambda>d n t w. ((0, None, []), w)),
     sys_so_error = (\<lambda>d w. ((0, None, 0), w)),
     sys_timer_read = (\<lambda>d w. ((8, None, 0), w)),
     sys_timer_gettime = (\<lambda>d w. ((0, None, \<lparr>tv_sec = 0, tv_nsec = 0\<rparr>), w)),
     sys_sockname = (\<lambda>p d w. ((0, None, Sockaddr_other 0, 2), w)),
     sys_recvfrom = (\<lambda>d b n fl sz w. ((-1, Some EAGAIN, Sockaddr_other 0), w)),
     host_answer = (\<lambda>h p a b c w. ((0, []), w)),
     little_endian = True, uninitialised = 0, strerror = (\<lambda>e. ''error''), gai_strerror = (\<lambda>e. ''gai''),
     usr = (\<lambda>k r m. ret () m)\<rparr>"
| "proxy_env gone (Suc n) = (proxy_env gone 0)\<lparr>usr := proxy_usr (proxy_env gone n) shifting\<rparr>"

lemma proxy_env_simps [simp]:
  "sys (proxy_env gone n) = proxy_sys gone"
  "usr (proxy_env gone (Suc n)) = proxy_usr (proxy_env gone n) shifting"
  by (cases n) simp_all

declare proxy_env.simps(2) [simp del]

text \<open>A client at object 1 and the server at object 2, whose \<open>connect\<close> is being dispatched.\<close>

definition connected :: "byte list proxy_machine" where
  "connected = \<lparr>heap = [1 \<mapsto> Socket_object (new_File 0\<lparr>fd := 5\<rparr>), 2 \<mapsto> Socket_object (new_File 0\<lparr>fd := 6\<rparr>),
      9 \<mapsto> EPoll_object \<lparr>epoll_fd = 4, currCycleNotifications = [\<lparr>ev_events = 4, ev_ptr = 2\<rparr>],
        currCycleNotificationsCount = 1\<rparr>],
    errno = 0, iovs = (\<lambda>a. \<lparr>iov_base = 0, iov_len = 0\<rparr>),
    world = \<lparr>kernel = [], handlers = [0 \<mapsto> \<lparr>h_s = 1, h_s2 = 2, h_buf1 = 100, h_buf2 = 200,
      stopped1_2 = False, stopped2_1 = False\<rparr>], user_bytes = (\<lambda>a. word_of_int a)\<rparr>\<rparr>"

lemma connected_simps [simp]:
  "file_at connected (Suc 0) = Some (new_File 0\<lparr>fd := 5\<rparr>)" "file_at connected 2 = Some (new_File 0\<lparr>fd := 6\<rparr>)"
  "handlers (world connected) 0 = Some \<lparr>h_s = 1, h_s2 = 2, h_buf1 = 100, h_buf2 = 200,
      stopped1_2 = False, stopped2_1 = False\<rparr>"
  by (simp_all add: connected_def file_at_def)

lemma conf_shifting [simp]: "conf_r shifting = False" "conf_ep shifting = 9"
  by (simp_all add: shifting_def)

lemma proxy_sends: "writes_to (proxy_env gone n) (\<lambda>b n. Sys_send d b n flags) kernel user_bytes"
  by (auto simp: writes_to_def proxy_sys_def split: if_splits)

lemma fresh_op_free: "operation (pendingOps (new_File g\<lparr>fd := d\<rparr>) s) = Op_none"
  by (simp add: new_File_def)

lemma proxy_never_ends:
  "never_ends (proxy_env False n) (\<lambda>b n. Sys_send d b n flags) buf len P"
  by (auto simp: never_ends_def goes_on_def proxy_sys_def)

theorem proxy_relays_witness:
  "let P = written_so_far kernel user_bytes 100 (world (handler_transform shifting 100 2 connected)) in
   transfers (proxy_env False 1) (\<lambda>v w. P v w \<and> v = 2) 2 Wr True 2 (Write1cb 0)
     (all_waiting P 2 Wr 6 Op_sendAll 0 100 2 (Write1cb 0))
     (handler_read1cb (proxy_env False 1) shifting 0 2 connected) [(False, id)] \<and>
   load_bytes (user_bytes (world (handler_transform (shifting\<lparr>conf_r := True\<rparr>) 100 2
     (handler_transform shifting 100 2 connected)))) 100 2 = load_bytes (user_bytes (world connected)) 100 2"
proof -
  let ?m1 = "handler_transform shifting 100 2 connected"
  have "transfers (proxy_env False 1) (\<lambda>v w. written_so_far kernel user_bytes 100 (world ?m1) v w \<and> v = 2)
      2 Wr True 2 (Write1cb 0) (all_waiting (written_so_far kernel user_bytes 100 (world ?m1)) 2 Wr 6 Op_sendAll 0 100 2
        (Write1cb 0)) (handler_read1cb (proxy_env False 1) shifting 0 2 connected) [(False, id)] \<and>
    (\<forall>cfg2 b m2. conf_r cfg2 \<and> load_bytes (user_bytes (world m2)) b 2 = load_bytes (user_bytes (world ?m1)) 100 2 \<longrightarrow>
      load_bytes (user_bytes (world (handler_transform cfg2 b 2 m2))) b 2 = load_bytes (user_bytes (world connected)) 100 2)"
    using proxy_relays [where m = connected and h = 0 and k = 2 and E = "proxy_env False 1" and outp = kernel
        and evs = "[(False, id)]" and cfg = shifting and f = "new_File 0\<lparr>fd := 6\<rparr>"
        and x = "\<lparr>h_s = 1, h_s2 = 2, h_buf1 = 100, h_buf2 = 200, stopped1_2 = False, stopped2_1 = False\<rparr>"]
    by (simp only: Let_def) (use proxy_never_ends in \<open>auto simp: proxy_sends proxy_never_ends new_File_def empty_op_def in_s32_def harmless_def simp del: One_nat_def\<close>)
  moreover have "conf_r (shifting\<lparr>conf_r := True\<rparr>)" by simp
  ultimately show ?thesis unfolding Let_def by blast
qed

section \<open>Connecting\<close>

lemma handler_stop_ret:
  assumes "handler_stop E cfg h m = ret () m'"
  shows "handlers (world m') h = None"
  using assms
  by (auto simp: handler_stop_def handler_delete_def with_handler_def put_handler_def
      split: option.splits elim!: obind_RetE)

text \<open>
  C35. \<open>connectCB\<close> uses a handler that it may have deleted: when the client's first bytes are there at
  once and sending them fails, \<open>read1\<close> has run \<open>read1cb\<close>, \<open>write1cb\<close> and \<open>stop\<close> before it returns, and
  \<open>read2\<close> is called on the freed handler.
\<close>

theorem connectCB_uses_deleted_handler:
  assumes "0 \<le> r" and "handlers (world m) h = Some x" and "file_at m (h_s x) = Some f"
    and "operation (pendingOps f Rd) = Op_none" and "\<not> skipSynchronousAttempt (pendingOps f Rd)"
    and "run_call E (Sys_recv (fd f) (h_buf1 x) bufSize 0) m = (k, m1)" and "0 < k" and "in_s32 k"
    and "handlers (world m1) h = Some x" and "file_at m1 (h_s2 x) = Some f2"
    and "run_call E (Sys_send (fd f2) (h_buf1 x) k 0) (handler_transform cfg (h_buf1 x) k m1) = (-1, m2)"
    and "\<not> isWouldBlock m2" and "handler_stop E cfg h m2 = ret () m3"
    and "usr E (Read1cb h) k m1 = handler_read1cb E cfg h k m1"
    and "usr E (Write1cb h) (-1) m2 = handler_write1cb E cfg h (-1) m2"
  shows "handler_connectCB E cfg h r m = Some (Fault Bad_pointer)"
proof -
  have "File_sendAll E (h_s2 x) (h_buf1 x) k 0 (Some (Write1cb h)) (handler_transform cfg (h_buf1 x) k m1) = ret () m3"
    using assms(7,8,10-13,15)
    by (simp add: File_sendAll_def try2_then_set_def with_file_Some File_tryOperation2_def
        tryOperation2_loop.simps [of E _ _ _ k 0] handler_write1cb_def)
  then have "usr E (Read1cb h) k m1 = ret () m3"
    using assms(7,9,14) by (simp add: handler_read1cb_def with_handler_def handler_write1_def)
  then have "handler_read1 E h m = ret () m3"
    using assms(2-7)
    by (simp add: handler_read1_def with_handler_def File_recv_def try_then_add_def when_free_def
        with_op_Some [OF op_at_file [OF assms(3)]] with_file_Some [OF assms(3)] File_tryOperation_def)
  then show ?thesis
    using assms(1) handler_stop_ret [OF assms(13)]
    by (simp add: handler_connectCB_def handler_read2_def with_handler_def)
qed

lemma proxy_env_calls:
  "run_call (proxy_env gone (Suc n)) = run_call (proxy_env gone 0)"
  "checkError (proxy_env gone (Suc n)) = checkError (proxy_env gone 0)"
  by (intro ext, simp add: run_call_def,
      intro ext, simp add: checkError_def CPollException_errno_def proxy_env.simps(2))

lemma handler_stop_env: "handler_stop (proxy_env gone n) cfg h m = handler_stop (proxy_env gone 0) cfg h m"
proof (cases n)
  case (Suc k)
  show ?thesis
    unfolding Suc handler_stop_def handler_delete_def EPoll_remove_def File_destroy_def File_close_def
      proxy_env_calls ..
qed simp

abbreviation received :: "byte list proxy_machine" where
  "received \<equiv> connected\<lparr>world := (world connected)\<lparr>user_bytes := store_bytes word_of_int 100 [1, 2]\<rparr>\<rparr>"

abbreviation refused :: "byte list proxy_machine" where
  "refused \<equiv> (handler_transform shifting 100 2 received)\<lparr>errno := EPIPE\<rparr>"

lemma refused_send:
  "run_call (proxy_env True n) (Sys_send 6 100 2 0) (handler_transform shifting 100 2 received) = (-1, refused)"
  by (simp add: run_call_def proxy_sys_def set_errno_def)

lemma refused_read1cb:
  "handler_read1cb (proxy_env True (Suc n)) shifting 0 2 received = handler_stop (proxy_env True 0) shifting 0 refused"
proof -
  have unit: "obind z (\<lambda>_ m. ret () m) = z" for z :: "(unit, byte list proxy_machine) result"
    by (cases z) (auto simp: obind_def split: outcome.splits)
  have at: "file_at (handler_transform shifting 100 2 received) 2 = Some (new_File 0\<lparr>fd := 6\<rparr>)" by simp
  have "handler_read1cb (proxy_env True (Suc n)) shifting 0 2 received =
      File_sendAll (proxy_env True (Suc n)) 2 100 2 0 (Some (Write1cb 0)) (handler_transform shifting 100 2 received)"
    by (simp add: handler_read1cb_def with_handler_def handler_write1_def)
  also have "\<dots> = obind (handler_stop (proxy_env True n) shifting 0 refused) (\<lambda>_ m. ret () m)"
    using refused_send [of "Suc n"]
    by (simp add: File_sendAll_def try2_then_set_def with_file_Some [OF at] File_tryOperation2_def in_s32_def
        tryOperation2_loop.simps [of _ _ _ 100 2 0] handler_write1cb_def obind_assoc isWouldBlock_def errno_defs)
  finally show ?thesis unfolding unit handler_stop_env [of True n] .
qed

lemma refused_stop: "\<exists>m3. handler_stop (proxy_env True 0) shifting 0 refused = ret () m3"
  by (simp add: handler_stop_def handler_delete_def with_handler_def EPoll_remove_def with_epoll_def epoll_at_def
      connected_def handler_transform_def EVENTSPERCYCLE_def Let_def fd_of_def put_epoll_def run_call_def
      proxy_sys_def set_errno_def File_destroy_def File_close_def with_file_def file_at_def put_file_def
      free_object_def put_handler_def new_File_def)

theorem connectCB_uses_deleted_handler_witness:
  "handler_connectCB (proxy_env True 2) shifting 0 0 connected = Some (Fault Bad_pointer)"
proof -
  obtain m3 where m3: "handler_stop (proxy_env True 0) shifting 0 refused = ret () m3" using refused_stop by blast
  have recv: "run_call (proxy_env True 2) (Sys_recv 5 100 bufSize 0) connected = (2, received)"
    by (simp add: run_call_def proxy_sys_def set_errno_def connected_def)
  have two: "proxy_env True 2 = proxy_env True (Suc 1)" by (simp add: numeral_2_eq_2)
  have r1: "usr (proxy_env True 2) (Read1cb 0) 2 received = handler_read1cb (proxy_env True 2) shifting 0 2 received"
    unfolding two proxy_env_simps proxy_usr.simps One_nat_def refused_read1cb ..
  have w1: "usr (proxy_env True 2) (Write1cb 0) (-1) refused = handler_write1cb (proxy_env True 2) shifting 0 (-1) refused"
    unfolding two proxy_env_simps by (simp add: handler_write1cb_def handler_stop_env [of True "Suc _"])
  show ?thesis
    by (rule connectCB_uses_deleted_handler [where E = "proxy_env True 2" and m = connected and h = 0 and k = 2
          and x = "\<lparr>h_s = 1, h_s2 = 2, h_buf1 = 100, h_buf2 = 200, stopped1_2 = False, stopped2_1 = False\<rparr>"
          and f = "new_File 0\<lparr>fd := 5\<rparr>" and ?f2.0 = "new_File 0\<lparr>fd := 6\<rparr>" and cfg = shifting
          and ?m1.0 = received and ?m2.0 = refused and ?m3.0 = m3 and r = 0])
      (use m3 r1 w1 recv refused_send handler_stop_env [of True 2] in
        \<open>simp_all add: new_File_def empty_op_def in_s32_def isWouldBlock_def errno_defs\<close>)
qed

end
