(* ===== verification/CPoll_Composed.thy ===== *)
theory CPoll_Composed
  imports CPoll_Loop CPoll_Sessions
begin

text \<open>
  The parts together: a request for a transfer, the slot in which it waits, the kernel, and the event
  loop of \<open>EPoll\<close>. From the request on, the loop brings the transfer to its end.
\<close>

section \<open>What an event leaves alone\<close>

text \<open>A \<open>*All\<close> operation that goes on waiting has changed nothing but the world and its slot.\<close>

lemma doOperation_all_frame:
  assumes wait: "waiting_at this s d opr fl buf len c k m"
    and opr: "is_all opr" "\<not> is_rwv opr" and len: "in_s32 len"
    and res: "File_doOperation E this s isWrite hup m = ret CONTINUE m'"
  shows "\<exists>x m1. m' = put_op this s x m1 \<and> heap m1 = heap m"
proof -
  obtain f where f: "file_at m this = Some f" "fd f = d" and o: "operation (pendingOps f s) = opr"
      "\<not> repeating (pendingOps f s)" "op_cb (pendingOps f s) = Some c"
    and i: "rw_flags (readWrite (pendingOps f s)) = fl" "rw_buf (readWrite (pendingOps f s)) = buf"
      "rw_len (readWrite (pendingOps f s)) = len" "rw_lenDone (readWrite (pendingOps f s)) = k"
    and k: "0 \<le> k" "k < len"
    using wait unfolding waiting_at_def Let_def by blast
  have "s32 (len - k) = len - k" using k len by (intro s32_id) (simp add: in_s32_def)
  obtain r m1 where call: "run_call E (all_call opr fl d (buf + k) (len - k)) m = (r, m1)"
    by (cases "run_call E (all_call opr fl d (buf + k) (len - k)) m")
  with \<open>s32 (len - k) = len - k\<close> have att: "all_attempt E (fd f) (pendingOps f s) m = Some (r, m1)"
    using opr o(1) f(2) i by (simp add: all_attempt_call)
  obtain o1 where rec: "all_record (pendingOps f s) r (iovs m1) = (o1, iovs m1)"
    using opr o(1) by (simp add: all_record_def)
  have h: "heap m1 = heap m" using run_call_frame [OF call] by simp
  note eq = doOperation_all [OF f(1) refl _ o(2) att rec, unfolded o, OF opr(1), of isWrite hup]
  show ?thesis
    using res h unfolding eq by (auto simp: Let_def split: if_splits elim!: obind_eq_RetE)
qed

section \<open>One notification\<close>

text \<open>The virtual calls of a file or socket.\<close>

definition doOp_of ::
  "bool \<Rightarrow> ('w, 'cb) env \<Rightarrow> ptr \<Rightarrow> slot \<Rightarrow> bool \<Rightarrow> bool \<Rightarrow> ('w, 'cb) machine \<Rightarrow>
     (OperationResult, ('w, 'cb) machine) result" where
  "doOp_of sock = (if sock then Socket_doOperation else File_doOperation)"

definition hh_of ::
  "bool \<Rightarrow> ('w, 'cb) env \<Rightarrow> ptr \<Rightarrow> slot \<Rightarrow> bool \<Rightarrow> ('w, 'cb) machine \<Rightarrow> (unit, ('w, 'cb) machine) result" where
  "hh_of sock = (if sock then Socket_handleHup else File_handleHup)"

lemma virtual_dispatch_of:
  assumes "file_at m p \<noteq> None"
  shows "virtual_dispatch E p ref m =
    dispatch_slots (doOp_of (is_socket m p) E p) (hh_of (is_socket m p) E p) ref m"
  using assms
  by (auto simp: virtual_dispatch_def file_at_def is_socket_def doOp_of_def hh_of_def File_dispatch_def
      Socket_dispatch_def split: option.splits fd_object.splits)

lemma doOp_of_File:
  assumes "op_at m p s = Some x" and "operation x \<noteq> Op_accept" and "operation x \<noteq> Op_connect"
  shows "doOp_of sock E p s w h m = File_doOperation E p s w h m"
  using Socket_doOperation_File [OF assms] by (simp add: doOp_of_def)

text \<open>
  What is left of a cycle with one notification after the operation in slot \<open>s\<close> has been performed:
  the second half of \<open>dispatch\<close>, if it was a reading operation, and the end of the loop in \<open>run\<close>.
\<close>

definition rest_of_cycle ::
  "('w, 'cb) env \<Rightarrow> bool \<Rightarrow> ptr \<Rightarrow> ptr \<Rightarrow> slot \<Rightarrow> ('w, 'cb) machine \<Rightarrow> (unit, ('w, 'cb) machine) result" where
  "rest_of_cycle E sock ep p s m = obind
     (case s of
        Rd \<Rightarrow> with_events (Notification ep 0) m (\<lambda>ev.
          if has_event ev EPOLLOUT then obind (doOp_of sock E p Wr True (has_event ev EPOLLERR) m) (\<lambda>_ m'. ret () m')
          else if has_event ev EPOLLERR then hh_of sock E p Wr True m
          else ret () m)
      | Wr \<Rightarrow> ret () m)
     (\<lambda>_ m1. EPoll_cycle E (Next ep 1) m1)"

definition other :: "slot \<Rightarrow> slot" where
  "other s = (case s of Rd \<Rightarrow> Wr | Wr \<Rightarrow> Rd)"

definition readiness :: "slot \<Rightarrow> 32 word" where
  "readiness s = (case s of Rd \<Rightarrow> EPOLLIN | Wr \<Rightarrow> EPOLLOUT)"

text \<open>
  A transfer waits in slot \<open>s\<close> of the file or socket \<open>p\<close>, whose other slot is free, and \<open>ep\<close> is an
  \<open>EPoll\<close> object with descriptor \<open>epfd\<close>.
\<close>

definition watched :: "ptr \<Rightarrow> int \<Rightarrow> ptr \<Rightarrow> slot \<Rightarrow> ('w, 'cb) machine \<Rightarrow> bool" where
  "watched ep epfd p s m \<longleftrightarrow> p \<noteq> 0 \<and> file_at m p \<noteq> None \<and>
     (\<exists>x. op_at m p (other s) = Some x \<and> operation x = Op_none) \<and>
     (\<exists>e. epoll_at m ep = Some e \<and> epoll_fd e = epfd \<and> length (currCycleNotifications e) = EVENTSPERCYCLE)"

definition loop_waits ::
  "ptr \<Rightarrow> int \<Rightarrow> ptr \<Rightarrow> slot \<Rightarrow> int \<Rightarrow> Operations \<Rightarrow> int \<Rightarrow> addr \<Rightarrow> int \<Rightarrow> 'cb \<Rightarrow> int \<Rightarrow> ('w, 'cb) machine \<Rightarrow> bool" where
  "loop_waits ep epfd p s d opr fl buf len c k m \<longleftrightarrow>
     waiting_at p s d opr fl buf len c k m \<and> watched ep epfd p s m"

lemma other_slot [simp]: "other s \<noteq> s" "s \<noteq> other s"
  by (cases s; simp add: other_def)+

lemma watched_epoll_other:
  assumes "watched ep epfd p s m"
  shows "p \<noteq> ep"
  using assms by (auto simp: watched_def epoll_at_def file_at_def split: option.splits fd_object.splits)

lemma put_epoll_frame:
  assumes "p \<noteq> ep" and "heap m1 = heap m"
  shows "file_at (put_epoll ep e m1) p = file_at m p" and "op_at (put_epoll ep e m1) p s = op_at m p s"
    and "is_socket (put_epoll ep e m1) p = is_socket m p"
  using assms by (simp_all add: put_epoll_def file_at_def op_at_def is_socket_def)

lemma waiting_at_file:
  "file_at m' p = file_at m p \<Longrightarrow> waiting_at p s d opr fl buf len c k m' = waiting_at p s d opr fl buf len c k m"
  by (simp add: waiting_at_def)

lemma loop_waits_put_epoll:
  assumes "loop_waits ep epfd p s d opr fl buf len c k m" and "heap m1 = heap m"
    and "epoll_fd e = epfd" and "length (currCycleNotifications e) = EVENTSPERCYCLE"
  shows "loop_waits ep epfd p s d opr fl buf len c k (put_epoll ep e m1)"
proof -
  have "p \<noteq> ep" using assms(1) watched_epoll_other unfolding loop_waits_def by blast
  note fr = put_epoll_frame [OF this assms(2), of e]
  show ?thesis using assms(1,3,4) unfolding loop_waits_def watched_def waiting_at_file [OF fr(1)] fr by simp
qed

lemma loop_waits_put_op:
  assumes "loop_waits ep epfd p s d opr fl buf len c k m" and "operation x = Op_none"
  shows "loop_waits ep epfd p s d opr fl buf len c k (put_op p (other s) x m)"
  using assms unfolding loop_waits_def watched_def waiting_at_def by (auto simp: file_at_put_op Let_def)

lemma waiting_op:
  assumes "waiting_at p s d opr fl buf len c k m"
  obtains x where "op_at m p s = Some x" and "operation x = opr"
  using assms by (auto simp: waiting_at_def op_at_def Let_def)

lemma not_socket_op [simp]: "is_all opr \<Longrightarrow> opr \<noteq> Op_accept" "is_all opr \<Longrightarrow> opr \<noteq> Op_connect"
  by (auto simp: less_eq_Operations_def)

text \<open>A cycle in which \<open>epoll_wait\<close> says that \<open>p\<close> is ready for the transfer comes to perform it.\<close>

lemma run_performs:
  assumes w: "loop_waits ep epfd p s d opr fl buf len c k m" and opr: "is_all opr"
    and out: "sys_epoll_wait E epfd (int EVENTSPERCYCLE) t (world m) =
        ((1, er, [\<lparr>ev_events = ev, ev_ptr = p\<rparr>]), w')"
    and ev: "has_event ev (readiness s)" "\<not> has_event ev EPOLLERR" "\<not> has_event ev EPOLLHUP"
  obtains m2 e2 where "loop_waits ep epfd p s d opr fl buf len c k m2" and "world m2 = w'"
    and "events_at m2 (Notification ep 0) = Some ev"
    and "epoll_at m2 ep = Some e2" and "currCycleNotificationsCount e2 = 1"
    and "EPoll_run E ep t m =
      obind (File_doOperation E p s (s = Wr) False m2) (\<lambda>_. rest_of_cycle E (is_socket m p) ep p s)"
    and "is_socket m2 p = is_socket m p"
proof -
  let ?k = "is_socket m p"
  obtain e where e: "epoll_at m ep = Some e" "epoll_fd e = epfd" "length (currCycleNotifications e) = EVENTSPERCYCLE"
    using w by (auto simp: loop_waits_def watched_def)
  let ?m1 = "set_errno er (m\<lparr>world := w'\<rparr>)"
  have h: "heap ?m1 = heap m" "world ?m1 = w'" by simp_all
  let ?e1 = "e\<lparr>currCycleNotifications := [\<lparr>ev_events = ev, ev_ptr = p\<rparr>] @ drop 1 (currCycleNotifications e)\<rparr>"
  let ?e2 = "?e1\<lparr>currCycleNotificationsCount := 1\<rparr>"
  define m2 where "m2 = put_epoll ep ?e2 ?m1"
  have twice: "put_epoll ep b (put_epoll ep a x) = put_epoll ep b x" for a b and x :: "('w, 'cb) machine"
    by (simp add: put_epoll_def)
  have wait: "EPoll_wait E ep t m = ret () m2"
    using out by (simp add: EPoll_wait_def with_epoll_Some [OF e(1)] run_out_def e(2) checkError_def store_events_def
        EVENTSPERCYCLE_def twice m2_def)
  have l: "length (currCycleNotifications ?e2) = EVENTSPERCYCLE" using e(3) by (simp add: EVENTSPERCYCLE_def)
  have p: "p \<noteq> 0" "p \<noteq> ep" using w watched_epoll_other unfolding loop_waits_def watched_def by blast+
  note fr = put_epoll_frame [OF p(2) h(1), of ?e2, folded m2_def]
  have w2: "loop_waits ep epfd p s d opr fl buf len c k m2"
    unfolding m2_def by (rule loop_waits_put_epoll [OF w h(1)]) (use e(2) l in simp_all)
  have at: "events_at m2 (Notification ep 0) = Some ev" "epoll_at m2 ep = Some ?e2" by (simp_all add: m2_def)
  have wd: "world m2 = w'" using h(2) by (simp add: m2_def put_epoll_def)
  have there: "file_at m2 p \<noteq> None" using w2 by (simp add: loop_waits_def watched_def)
  have run: "EPoll_run E ep t m =
      obind (dispatch_slots (doOp_of ?k E p) (hh_of ?k E p) (Notification ep 0) m2) (\<lambda>_ m3. EPoll_cycle E (Next ep 1) m3)"
    using cycle_dispatch [OF at(2), of 0 p E] l p(1) wait
    by (simp add: cycle_start virtual_dispatch_of [OF there] fr(3) EVENTSPERCYCLE_def)
  show ?thesis
  proof (cases s)
    case Rd
    have "waiting_at p Rd d opr fl buf len c k m2" using w2 Rd by (simp add: loop_waits_def)
    then obtain x where x: "op_at m2 p Rd = Some x" "operation x = opr" by (rule waiting_op)
    have "doOp_of ?k E p Rd False False m2 = File_doOperation E p Rd False False m2"
      by (rule doOp_of_File [OF x(1)]) (use x(2) opr in simp_all)
    then have "obind (dispatch_slots (doOp_of ?k E p) (hh_of ?k E p) (Notification ep 0) m2)
          (\<lambda>_ m3. EPoll_cycle E (Next ep 1) m3) =
        obind (File_doOperation E p Rd False False m2) (\<lambda>_. rest_of_cycle E ?k ep p Rd)"
      unfolding dispatch_slots_def with_events_Some [OF at(1)] rest_of_cycle_def slot.case obind_assoc
      using ev unfolding readiness_def Rd slot.case by (simp add: obind_assoc)
    then have "EPoll_run E ep t m =
        obind (File_doOperation E p s (s = Wr) False m2) (\<lambda>_. rest_of_cycle E ?k ep p s)"
      using run Rd by simp
    with that [OF w2 wd at] fr(3) show ?thesis by simp
  next
    case Wr
    obtain y where y: "op_at m2 p Rd = Some y" "operation y = Op_none"
      using w2 Wr by (auto simp: loop_waits_def watched_def other_def)
    define m3 where "m3 = (if has_event ev EPOLLIN then put_op p Rd (y\<lparr>skipSynchronousAttempt := False\<rparr>) m2 else m2)"
    have w3: "loop_waits ep epfd p s d opr fl buf len c k m3"
      using loop_waits_put_op [OF w2, of "y\<lparr>skipSynchronousAttempt := False\<rparr>"] w2 y(2) Wr
      by (simp add: m3_def other_def)
    have at3: "events_at m3 (Notification ep 0) = Some ev" "epoll_at m3 ep = Some ?e2" "world m3 = w'"
      using at wd by (simp_all add: m3_def)
    have "waiting_at p Wr d opr fl buf len c k m3" using w3 Wr by (simp add: loop_waits_def)
    then obtain x where x: "op_at m3 p Wr = Some x" "operation x = opr" by (rule waiting_op)
    have "doOp_of ?k E p Wr True False m3 = File_doOperation E p Wr True False m3"
      by (rule doOp_of_File [OF x(1)]) (use x(2) opr in simp_all)
    moreover have "doOp_of ?k E p Rd False False m2 = ret DONE_PERMANENT (put_op p Rd (y\<lparr>skipSynchronousAttempt := False\<rparr>) m2)"
      using doOp_of_File [OF y(1)] File_doOperation_idle [OF y] y(2) by simp
    then have half: "(if has_event ev EPOLLIN
        then obind (doOp_of ?k E p Rd False (has_event ev EPOLLERR \<or> has_event ev EPOLLHUP) m2) (\<lambda>_ m'. ret () m')
        else if has_event ev EPOLLERR \<or> has_event ev EPOLLHUP then hh_of ?k E p Rd False m2
        else ret () m2) = ret () m3"
      using ev by (simp add: m3_def)
    ultimately have "dispatch_slots (doOp_of ?k E p) (hh_of ?k E p) (Notification ep 0) m2 =
        obind (File_doOperation E p Wr True False m3) (\<lambda>_ m'. ret () m')"
      unfolding dispatch_slots_def with_events_Some [OF at(1)] half obind_simps with_events_Some [OF at3(1)]
      using ev unfolding readiness_def Wr slot.case by simp
    then have "obind (dispatch_slots (doOp_of ?k E p) (hh_of ?k E p) (Notification ep 0) m2)
          (\<lambda>_ m3. EPoll_cycle E (Next ep 1) m3) =
        obind (File_doOperation E p Wr True False m3) (\<lambda>_. rest_of_cycle E ?k ep p Wr)"
      by (simp add: obind_assoc rest_of_cycle_def [abs_def])
    then have "EPoll_run E ep t m =
        obind (File_doOperation E p s (s = Wr) False m3) (\<lambda>_. rest_of_cycle E ?k ep p s)"
      using run Wr by simp
    with that [OF w3 at3(3,1,2)] fr(3) show ?thesis by (simp add: m3_def)
  qed
qed

section \<open>The loop and a waiting transfer\<close>

text \<open>
  What epoll promises for an edge triggered descriptor that is the only one registered: if the transfer
  has not moved everything and its last call has exhausted the stream (\<open>Q\<close>: it would have blocked, or
  moved less than it was asked for), waiting returns one notification that says that its object is
  ready (the other direction may be ready, too), and then the next call moves something. Nothing is
  promised otherwise: while there is something left from before, there may be no new edge.
\<close>

definition announced ::
  "('w, 'cb) env \<Rightarrow> int \<Rightarrow> ptr \<Rightarrow> slot \<Rightarrow> syscall \<Rightarrow> ('w \<Rightarrow> bool) \<Rightarrow> 'w \<Rightarrow> bool" where
  "announced E epfd p s call Q w \<longleftrightarrow>
     (\<exists>ev e w'. sys_epoll_wait E epfd (int EVENTSPERCYCLE) (-1) w = ((1, e, [\<lparr>ev_events = ev, ev_ptr = p\<rparr>]), w') \<and>
        has_event ev (readiness s) \<and> \<not> has_event ev EPOLLERR \<and> \<not> has_event ev EPOLLHUP \<and> Q w' \<and>
        0 < fst (fst (sys E call w')))"

definition wakes ::
  "('w, 'cb) env \<Rightarrow> int \<Rightarrow> ptr \<Rightarrow> slot \<Rightarrow> (addr \<Rightarrow> int \<Rightarrow> syscall) \<Rightarrow> addr \<Rightarrow> int \<Rightarrow>
     (int \<Rightarrow> 'w \<Rightarrow> bool) \<Rightarrow> ('w \<Rightarrow> bool) \<Rightarrow> bool" where
  "wakes E epfd p s call buf len P Q \<longleftrightarrow> (\<forall>k w. 0 \<le> k \<longrightarrow> k < len \<longrightarrow> P k w \<longrightarrow> Q w \<longrightarrow>
     announced E epfd p s (call (buf + k) (len - k)) (P k) w)"

lemma announced_mono:
  assumes "announced E epfd p s call Q w" and "\<And>w'. Q w' \<Longrightarrow> Q' w'"
  shows "announced E epfd p s call Q' w"
  using assms unfolding announced_def by blast

lemma rest_returns:
  assumes w: "loop_waits ep epfd p s d opr fl buf len c k m" and ev: "events_at m (Notification ep 0) = Some ev"
    and err: "\<not> has_event ev EPOLLERR" and e: "epoll_at m ep = Some e" "currCycleNotificationsCount e = 1"
  shows "\<exists>m'. rest_of_cycle E sock ep p s m = ret () m' \<and> loop_waits ep epfd p s d opr fl buf len c k m' \<and>
    world m' = world m \<and> is_socket m' p = is_socket m p"
proof -
  obtain x where x: "op_at m p (other s) = Some x" "operation x = Op_none"
    using w by (auto simp: loop_waits_def watched_def)
  define m1 where "m1 = (if s = Rd \<and> has_event ev EPOLLOUT
    then put_op p (other s) (x\<lparr>skipSynchronousAttempt := False\<rparr>) m else m)"
  have m1: "loop_waits ep epfd p s d opr fl buf len c k m1" "epoll_at m1 ep = Some e" "world m1 = world m"
      "is_socket m1 p = is_socket m p"
    using loop_waits_put_op [OF w, of "x\<lparr>skipSynchronousAttempt := False\<rparr>"] w e(1) x(2) by (auto simp: m1_def)
  have l: "epoll_fd e = epfd" "length (currCycleNotifications e) = EVENTSPERCYCLE"
    using w e(1) by (auto simp: loop_waits_def watched_def)
  have p: "p \<noteq> ep" using w watched_epoll_other unfolding loop_waits_def by blast
  have idle: "doOp_of sock E p (other s) True False m = ret DONE_PERMANENT (put_op p (other s) (x\<lparr>skipSynchronousAttempt := False\<rparr>) m)"
    using doOp_of_File [OF x(1)] File_doOperation_idle [OF x] x(2) by simp
  have "rest_of_cycle E sock ep p s m = EPoll_cycle E (Next ep 1) m1"
  proof (cases s)
    case Rd
    then show ?thesis using err idle
      by (simp add: rest_of_cycle_def with_events_Some [OF ev] m1_def other_def)
  next
    case Wr
    then show ?thesis by (simp add: rest_of_cycle_def m1_def)
  qed
  also have "\<dots> = ret () (put_epoll ep (e\<lparr>currCycleNotificationsCount := 0\<rparr>) m1)"
    using e(2) by (intro cycle_end [OF m1(2)]) simp
  finally show ?thesis
    using loop_waits_put_epoll [OF m1(1) refl] l m1(3) m1(4) put_epoll_frame(3) [OF p refl]
    by (auto simp: put_epoll_def)
qed

text \<open>
  The callback is about to be called with everything moved; the slot is free, and the next request in it
  will attempt its call at once.
\<close>

definition all_moved :: "ptr \<Rightarrow> slot \<Rightarrow> (int \<Rightarrow> 'w \<Rightarrow> bool) \<Rightarrow> int \<Rightarrow> ('w, 'cb) machine \<Rightarrow> bool" where
  "all_moved p s P len m \<longleftrightarrow> P len (world m) \<and>
     (\<exists>x. op_at m p s = Some x \<and> operation x = Op_none \<and> \<not> skipSynchronousAttempt x)"

lemma run_advances:
  assumes w: "loop_waits ep epfd p s d opr fl buf len c k m" and P: "P k (world m)" and Q: "Q (world m)"
    and opr: "is_all opr" "\<not> is_rwv opr" and len: "in_s32 len"
    and mv: "moves E (all_call opr fl d) buf P" and ex: "exhausts E (all_call opr fl d) buf len P Q"
    and wk: "wakes E epfd p s (all_call opr fl d) buf len P Q"
  shows "(\<exists>m' j. EPoll_run E ep (-1) m = ret () m' \<and> k < j \<and> P j (world m') \<and> Q (world m') \<and> is_socket m' p = is_socket m p \<and>
            loop_waits ep epfd p s d opr fl buf len c j m') \<or>
         (\<exists>m'. EPoll_run E ep (-1) m = obind (usr E c len m') (\<lambda>_. rest_of_cycle E (is_socket m p) ep p s) \<and>
            all_moved p s P len m')"
proof -
  have k: "0 \<le> k" "k < len" using w by (simp_all add: loop_waits_def waiting_at_def)
  obtain ev er w' where out: "sys_epoll_wait E epfd (int EVENTSPERCYCLE) (-1) (world m) =
        ((1, er, [\<lparr>ev_events = ev, ev_ptr = p\<rparr>]), w')"
    and ev: "has_event ev (readiness s)" "\<not> has_event ev EPOLLERR" "\<not> has_event ev EPOLLHUP"
    and P': "P k w'" and some: "0 < fst (fst (sys E (all_call opr fl d (buf + k) (len - k)) w'))"
    using wk k P Q unfolding wakes_def announced_def by blast
  obtain m2 e2 where w2: "loop_waits ep epfd p s d opr fl buf len c k m2" and wd: "world m2 = w'"
    and at: "events_at m2 (Notification ep 0) = Some ev"
    and e2: "epoll_at m2 ep = Some e2" "currCycleNotificationsCount e2 = 1"
    and run: "EPoll_run E ep (-1) m =
      obind (File_doOperation E p s (s = Wr) False m2) (\<lambda>_. rest_of_cycle E (is_socket m p) ep p s)"
    and k2: "is_socket m2 p = is_socket m p"
    by (rule run_performs [OF w opr(1) out ev])
  have wait: "waiting_at p s d opr fl buf len c k m2" using w2 by (simp add: loop_waits_def)
  from doOperation_all_moved [where P = P, OF wait _ opr len mv, of "s = Wr"] P' some
  have "(\<exists>m' j. File_doOperation E p s (s = Wr) False m2 = ret CONTINUE m' \<and> k < j \<and>
            waiting_at p s d opr fl buf len c j m' \<and> P j (world m') \<and> Q (world m')) \<or>
         (\<exists>w'. clear_report E p s c len w' DONE (File_doOperation E p s (s = Wr) False m2) \<and> P len w')"
    unfolding wd using ex by blast
  then show ?thesis
  proof (elim disjE exE conjE)
    fix m3 j
    assume m3: "File_doOperation E p s (s = Wr) False m2 = ret CONTINUE m3" and j: "k < j"
      and at3: "waiting_at p s d opr fl buf len c j m3" and P3: "P j (world m3)" "Q (world m3)"
    obtain x m4 where x: "m3 = put_op p s x m4" "heap m4 = heap m2"
      using doOperation_all_frame [OF wait opr len m3] by blast
    have same: "op_at m3 p (other s) = op_at m2 p (other s)" "epoll_at m3 q = epoll_at m2 q"
      "is_socket m3 p = is_socket m2 p" for q
      unfolding x(1) using op_at_heap [OF x(2)] epoll_at_heap [OF x(2)] is_socket_heap [OF x(2)] by simp_all
    have there: "file_at m3 p \<noteq> None" using at3 by (auto simp: waiting_at_def)
    have w3: "loop_waits ep epfd p s d opr fl buf len c j m3" "epoll_at m3 ep = Some e2"
      using w2 at3 e2 there unfolding loop_waits_def watched_def same by simp_all
    have "events_at m3 (Notification ep 0) = Some ev" using at same(2) by simp
    from rest_returns [OF w3(1) this ev(2) w3(2) e2(2), of E "is_socket m p"] obtain m5 where m5:
      "rest_of_cycle E (is_socket m p) ep p s m3 = ret () m5" "loop_waits ep epfd p s d opr fl buf len c j m5"
      "world m5 = world m3" "is_socket m5 p = is_socket m3 p" by blast
    then show ?thesis using j P3 same(3) k2
      by (intro disjI1 exI [where x = m5] exI [where x = j]) (simp add: run m3)
  next
    fix v
    assume "clear_report E p s c len v DONE (File_doOperation E p s (s = Wr) False m2)" and "P len v"
    then show ?thesis unfolding clear_report_def all_moved_def run by (intro disjI2) (auto simp: obind_assoc)
  qed
qed

lemma loop_completes:
  assumes "loop_waits ep epfd p s d opr fl buf len c k m" and "P k (world m)" and "Q (world m)"
    and "is_all opr" "\<not> is_rwv opr" and "in_s32 len"
    and "moves E (all_call opr fl d) buf P" and "exhausts E (all_call opr fl d) buf len P Q"
    and "wakes E epfd p s (all_call opr fl d) buf len P Q"
  shows "\<exists>m'. all_moved p s P len m' \<and> EPoll_loop E ep m =
    obind (usr E c len m') (\<lambda>_ m1. obind (rest_of_cycle E (is_socket m p) ep p s m1) (\<lambda>_. EPoll_loop E ep))"
  using assms(1-3)
proof (induction "nat (len - k)" arbitrary: k m rule: less_induct)
  case less
  have k: "k < len" using less.prems(1) by (simp add: loop_waits_def waiting_at_def)
  from run_advances [where P = P and Q = Q, OF less.prems assms(4-9)] show ?case
  proof (elim disjE exE conjE)
    fix m1 j
    assume run: "EPoll_run E ep (-1) m = ret () m1" and j: "k < j" and sock: "is_socket m1 p = is_socket m p"
      and w: "loop_waits ep epfd p s d opr fl buf len c j m1" "P j (world m1)" "Q (world m1)"
    have "nat (len - j) < nat (len - k)" using j k by simp
    from less.hyps [OF this w] show ?thesis using run unfolding sock by (simp add: EPoll_loop.simps [of E ep m])
  next
    fix m1
    assume "EPoll_run E ep (-1) m = obind (usr E c len m1) (\<lambda>_. rest_of_cycle E (is_socket m p) ep p s)"
      and "all_moved p s P len m1"
    then show ?thesis by (intro exI [where x = m1]) (simp add: EPoll_loop.simps [of E ep m] obind_assoc)
  qed
qed

section \<open>From the request to its callback\<close>

lemma try2_then_add_waits:
  assumes w: "watched ep epfd p s m" and f: "file_at m p = Some f" and free: "operation (pendingOps f s) = Op_none"
    and mv: "moves E (call (fd f)) buf P" and start: "P 0 (world m)" and len: "in_s32 len" "0 < len"
    and on: "never_ends E (call (fd f)) buf len P" and ex: "exhausts E (call (fd f)) buf len P Q"
    and skip: "skipSynchronousAttempt (pendingOps f s) \<longrightarrow> Q (world m)"
  shows "(\<exists>k m1. try2_then_add E p s opr call buf len (Some c) m = ret () m1 \<and>
            loop_waits ep epfd p s (fd f) opr 0 buf len c k m1 \<and> P k (world m1) \<and> Q (world m1) \<and> is_socket m1 p = is_socket m p) \<or>
         (\<exists>m1. try2_then_add E p s opr call buf len (Some c) m = obind (usr E c len m1) (\<lambda>_ m2. ret () m2) \<and>
            all_moved p s P len m1)"
  using try2_then_add_outcome [where call = call and P = P and c = c and opr = opr,
      OF op_at_file [OF f] free f mv start len]
proof (elim disjE exE conjE)
  fix k m1
  assume eq: "try2_then_add E p s opr call buf len (Some c) m =
      ret () (put_op p s (all_op opr 0 buf len c k (pendingOps f s)) m1)"
    and k: "0 \<le> k" "k < len" and P: "P k (world m1)" and h: "heap m1 = heap m"
    and "\<forall>Q. exhausts E (call (fd f)) buf len P Q \<longrightarrow>
      (skipSynchronousAttempt (pendingOps f s) \<longrightarrow> Q (world m)) \<longrightarrow> Q (world m1)"
  then have Q: "Q (world m1)" using ex skip by blast
  let ?m = "put_op p s (all_op opr 0 buf len c k (pendingOps f s)) m1"
  have f1: "file_at m1 p = Some f" using f file_at_heap [OF h] by simp
  have "watched ep epfd p s ?m"
    using w f1 unfolding watched_def by (simp add: op_at_heap [OF h] epoll_at_heap [OF h] file_at_put_op)
  then have "loop_waits ep epfd p s (fd f) opr 0 buf len c k ?m"
    using waiting_at_all_op [OF f1 k] by (simp add: loop_waits_def)
  then show ?thesis using eq P Q is_socket_heap [OF h]
    by (intro disjI1 exI [where x = k] exI [where x = ?m]) simp
next
  fix v m1
  assume eq: "try2_then_add E p s opr call buf len (Some c) m = obind (usr E c v m1) (\<lambda>_ m2. ret () m2)"
    and P: "P (max 0 v) (world m1)" and h: "heap m1 = heap m" and v: "never_ends E (call (fd f)) buf len P \<longrightarrow> v = len"
    and sk: "\<not> skipSynchronousAttempt (pendingOps f s)"
  have "v = len" using v on by simp
  moreover have "op_at m1 p s = Some (pendingOps f s)" using op_at_heap [OF h] op_at_file [OF f] by simp
  ultimately show ?thesis using eq P free sk len(2) by (intro disjI2 exI [where x = m1]) (simp add: all_moved_def max_def)
qed

text \<open>
  \<open>x\<close> is a request followed by \<open>loop\<close>: everything is moved, then the callback is called with \<open>len\<close>,
  either by the request itself, and then the loop runs, or by a cycle of the loop, which ends and
  goes on.
\<close>

definition completes ::
  "('w, 'cb) env \<Rightarrow> ptr \<Rightarrow> ptr \<Rightarrow> slot \<Rightarrow> bool \<Rightarrow> (int \<Rightarrow> 'w \<Rightarrow> bool) \<Rightarrow> int \<Rightarrow> 'cb \<Rightarrow>
     (unit, ('w, 'cb) machine) result \<Rightarrow> bool" where
  "completes E ep p s sock P len c x \<longleftrightarrow> (\<exists>m'. all_moved p s P len m' \<and>
     (x = obind (usr E c len m') (\<lambda>_. EPoll_loop E ep) \<or>
      x = obind (usr E c len m') (\<lambda>_ m1. obind (rest_of_cycle E sock ep p s m1) (\<lambda>_. EPoll_loop E ep))))"

lemma request_completes:
  assumes w: "watched ep epfd p s m" and f: "file_at m p = Some f" and free: "operation (pendingOps f s) = Op_none"
    and opr: "is_all opr" "\<not> is_rwv opr" and call: "call (fd f) = all_call opr 0 (fd f)"
    and mv: "moves E (all_call opr 0 (fd f)) buf P" and start: "P 0 (world m)" and len: "in_s32 len" "0 < len"
    and on: "never_ends E (all_call opr 0 (fd f)) buf len P"
    and ex: "exhausts E (all_call opr 0 (fd f)) buf len P Q"
    and wk: "wakes E epfd p s (all_call opr 0 (fd f)) buf len P Q"
    and skip: "skipSynchronousAttempt (pendingOps f s) \<longrightarrow> Q (world m)"
  shows "completes E ep p s (is_socket m p) P len c
    (obind (try2_then_add E p s opr call buf len (Some c) m) (\<lambda>_. EPoll_loop E ep))"
  using try2_then_add_waits [where call = call and P = P and Q = Q and c = c and opr = opr,
      OF w f free mv [folded call] start len on [folded call] ex [folded call] skip]
proof (elim disjE exE conjE)
  fix k m1
  assume eq: "try2_then_add E p s opr call buf len (Some c) m = ret () m1" and sock: "is_socket m1 p = is_socket m p"
    and w1: "loop_waits ep epfd p s (fd f) opr 0 buf len c k m1" "P k (world m1)" "Q (world m1)"
  from loop_completes [where P = P and Q = Q, OF w1 opr len(1) mv ex wk] show ?thesis
    unfolding completes_def eq obind_simps sock by blast
next
  fix m1
  assume "try2_then_add E p s opr call buf len (Some c) m = obind (usr E c len m1) (\<lambda>_ m2. ret () m2)"
    and "all_moved p s P len m1"
  then show ?thesis unfolding completes_def by (intro exI [where x = m1]) (simp add: obind_assoc)
qed

text \<open>
  What a live stream and an edge triggered epoll promise, for a reader and a writer. \<open>idle w\<close>: what
  has come for the reader is read (for the writer: the peer's buffer is full), so that the next arrival
  is an edge. \<open>feeds\<close>: while the peer has bytes for the reader, a read neither fails nor ends (it moves
  something or would block); one that would block or moves less than asked leaves the stream idle (the
  two signs of an exhausted stream that epoll(7) gives); and waiting on an idle stream returns when
  some bytes have come, so that the next read moves something. \<open>drains\<close>: the same for a writer whose
  peer reads on.
\<close>

definition feeds ::
  "('w, 'cb) env \<Rightarrow> int \<Rightarrow> int \<Rightarrow> ptr \<Rightarrow> ('w \<Rightarrow> byte list) \<Rightarrow> ('w \<Rightarrow> addr \<Rightarrow> byte) \<Rightarrow> ('w \<Rightarrow> bool) \<Rightarrow> bool" where
  "feeds E epfd d p inp mem idle \<longleftrightarrow> (\<forall>b n w. inp w \<noteq> [] \<longrightarrow> 0 < n \<longrightarrow>
     goes_on (sys E (Sys_read d b n) w) \<and>
     (\<forall>r e w'. sys E (Sys_read d b n) w = ((r, e), w') \<longrightarrow> r < n \<longrightarrow> idle w') \<and>
     (idle w \<longrightarrow> announced E epfd p Rd (Sys_read d b n) (\<lambda>w'. inp w' = inp w \<and> mem w' = mem w) w))"

definition drains ::
  "('w, 'cb) env \<Rightarrow> int \<Rightarrow> int \<Rightarrow> ptr \<Rightarrow> ('w \<Rightarrow> byte list) \<Rightarrow> ('w \<Rightarrow> addr \<Rightarrow> byte) \<Rightarrow> ('w \<Rightarrow> bool) \<Rightarrow> bool" where
  "drains E epfd d p outp mem idle \<longleftrightarrow> (\<forall>b n w. 0 < n \<longrightarrow>
     goes_on (sys E (Sys_write d b n) w) \<and>
     (\<forall>r e w'. sys E (Sys_write d b n) w = ((r, e), w') \<longrightarrow> r < n \<longrightarrow> idle w') \<and>
     (idle w \<longrightarrow> announced E epfd p Wr (Sys_write d b n) (\<lambda>w'. outp w' = outp w \<and> mem w' = mem w) w))"

lemma read_so_far_left:
  assumes "read_so_far inp mem buf w0 k w" and "0 \<le> k" and "k < len" and "len \<le> int (length (inp w0))"
  shows "inp w \<noteq> []"
  using assms by (auto simp: read_so_far_def)

lemma feeds_stream:
  assumes "feeds E epfd d p inp mem idle" and "len \<le> int (length (inp w0))"
  shows "wakes E epfd p Rd (Sys_read d) buf len (read_so_far inp mem buf w0) idle"
    and "never_ends E (Sys_read d) buf len (read_so_far inp mem buf w0)"
    and "exhausts E (Sys_read d) buf len (read_so_far inp mem buf w0) idle"
proof -
  have *: "goes_on (sys E (Sys_read d (buf + k) (len - k)) w) \<and>
      (\<forall>r e w'. sys E (Sys_read d (buf + k) (len - k)) w = ((r, e), w') \<longrightarrow> r < len - k \<longrightarrow> idle w') \<and>
      (idle w \<longrightarrow> announced E epfd p Rd (Sys_read d (buf + k) (len - k)) (\<lambda>w'. inp w' = inp w \<and> mem w' = mem w) w)"
    if "0 \<le> k" "k < len" "read_so_far inp mem buf w0 k w" for k w
    using assms(1) [unfolded feeds_def, rule_format, OF read_so_far_left [OF that(3,1,2) assms(2)],
        of "len - k" "buf + k"] that(2) by auto
  then show "never_ends E (Sys_read d) buf len (read_so_far inp mem buf w0)"
    unfolding never_ends_def by blast
  show "exhausts E (Sys_read d) buf len (read_so_far inp mem buf w0) idle"
    using * unfolding exhausts_def by blast
  show "wakes E epfd p Rd (Sys_read d) buf len (read_so_far inp mem buf w0) idle"
    unfolding wakes_def
  proof (intro allI impI)
    fix k w
    assume k: "0 \<le> k" "k < len" and P: "read_so_far inp mem buf w0 k w" and Q: "idle w"
    show "announced E epfd p Rd (Sys_read d (buf + k) (len - k)) (read_so_far inp mem buf w0 k) w"
      by (rule announced_mono [OF * [OF k P, THEN conjunct2, THEN conjunct2, rule_format, OF Q]])
        (use P in \<open>simp add: read_so_far_def\<close>)
  qed
qed

lemma drains_stream:
  assumes "drains E epfd d p outp mem idle"
  shows "wakes E epfd p Wr (Sys_write d) buf len (written_so_far outp mem buf w0) idle"
    and "never_ends E (Sys_write d) buf len (written_so_far outp mem buf w0)"
    and "exhausts E (Sys_write d) buf len (written_so_far outp mem buf w0) idle"
proof -
  have *: "goes_on (sys E (Sys_write d (buf + k) (len - k)) w) \<and>
      (\<forall>r e w'. sys E (Sys_write d (buf + k) (len - k)) w = ((r, e), w') \<longrightarrow> r < len - k \<longrightarrow> idle w') \<and>
      (idle w \<longrightarrow> announced E epfd p Wr (Sys_write d (buf + k) (len - k)) (\<lambda>w'. outp w' = outp w \<and> mem w' = mem w) w)"
    if "k < len" for k w
    using assms(1) [unfolded drains_def, rule_format, of "len - k" "buf + k" w] that by auto
  then show "never_ends E (Sys_write d) buf len (written_so_far outp mem buf w0)"
    unfolding never_ends_def by blast
  show "exhausts E (Sys_write d) buf len (written_so_far outp mem buf w0) idle"
    using * unfolding exhausts_def by blast
  show "wakes E epfd p Wr (Sys_write d) buf len (written_so_far outp mem buf w0) idle"
    unfolding wakes_def
  proof (intro allI impI)
    fix k w
    assume k: "0 \<le> k" "k < len" and P: "written_so_far outp mem buf w0 k w" and Q: "idle w"
    show "announced E epfd p Wr (Sys_write d (buf + k) (len - k)) (written_so_far outp mem buf w0 k) w"
      by (rule announced_mono [OF * [OF k(2), THEN conjunct2, THEN conjunct2, rule_format, OF Q]])
        (use P in \<open>simp add: written_so_far_def\<close>)
  qed
qed

text \<open>
  C1. From the request to the callback: \<open>readAll\<close> on a file or socket with free slots, followed by
  \<open>loop\<close> of an \<open>EPoll\<close>, on an edge triggered descriptor. The peer has at least \<open>len\<close> bytes for the
  reader, which come in whatever pieces; epoll announces an arrival only if all that had come before has
  been read; and if the slot says that the attempt is to be skipped, then nothing is there to be read.
  The two together come to call the callback, with \<open>len\<close>, in a machine where the bytes are in the
  buffer in order, no more are gone from the stream, the slot is free and its next request will not
  skip the attempt. The callback runs either in the request, and the loop starts after it, or in a
  cycle, which ends and the loop goes on.
\<close>

theorem readAll_request_completes:
  assumes "watched ep epfd p Rd m" and "file_at m p = Some f" and "operation (pendingOps f Rd) = Op_none"
    and "skipSynchronousAttempt (pendingOps f Rd) \<longrightarrow> idle (world m)"
    and "reads_from E (Sys_read (fd f)) inp mem" and "feeds E epfd (fd f) p inp mem idle"
    and "len \<le> int (length (inp (world m)))" and "in_s32 len" and "0 < len"
  shows "completes E ep p Rd (is_socket m p) (read_so_far inp mem buf (world m)) len c
    (obind (File_readAll E p buf len (Some c) m) (\<lambda>_. EPoll_loop E ep))"
  unfolding File_readAll_def
  using request_completes [where call = Sys_read and P = "read_so_far inp mem buf (world m)" and Q = idle,
      OF assms(1-3) all_ops(1,5) _ _ read_start assms(8,9)] assms(4)
    reads_from_moves [OF assms(5)] feeds_stream [OF assms(6,7)] by simp

text \<open>
  C2. \<open>writeAll\<close> in the same way: when the peer reads on and epoll announces room only after a write that
  has found none or too little, the request and the loop come to call the callback, with \<open>len\<close>, in a
  machine where exactly the bytes of the buffer have been appended to the stream, in order, the slot is
  free and its next request will not skip the attempt.
\<close>

theorem writeAll_request_completes:
  assumes "watched ep epfd p Wr m" and "file_at m p = Some f" and "operation (pendingOps f Wr) = Op_none"
    and "skipSynchronousAttempt (pendingOps f Wr) \<longrightarrow> idle (world m)"
    and "writes_to E (Sys_write (fd f)) outp mem" and "drains E epfd (fd f) p outp mem idle"
    and "in_s32 len" and "0 < len"
  shows "completes E ep p Wr (is_socket m p) (written_so_far outp mem buf (world m)) len c
    (obind (File_writeAll E p buf len (Some c) m) (\<lambda>_. EPoll_loop E ep))"
  unfolding File_writeAll_def
  using request_completes [where call = Sys_write and P = "written_so_far outp mem buf (world m)" and Q = idle,
      OF assms(1-3) all_ops(2,6) _ _ written_start assms(7,8)] assms(4)
    writes_to_moves [OF assms(5)] drains_stream [OF assms(6)] by simp

section \<open>An edge triggered stream\<close>

text \<open>
  A kernel on the world of CPoll_Pipe: the head of \<open>script\<close> says how many bytes have come and not been
  read (for the writer: how many there is room for). When none are left, waiting ends with the arrival
  of two more, announced for object 1 in both directions; otherwise there is no edge, and waiting is
  only interrupted.
\<close>

definition edge_env :: "(pipe, user_code) env" where
  "edge_env = pipe_env\<lparr>sys := edge_sys,
     sys_epoll_wait := (\<lambda>d n t w. if allowance w \<le> 0
       then ((1, None, [\<lparr>ev_events = 5, ev_ptr = 1\<rparr>]), w\<lparr>script := [2]\<rparr>) else ((-1, Some EINTR, []), w))\<rparr>"

lemma edge_pipe:
  "reads_from edge_env (Sys_read d) incoming memory" "writes_to edge_env (Sys_write d) outgoing memory"
  by (auto simp: reads_from_def writes_to_def edge_env_def edge_sys_def edge_move_def Let_def min_def
      split: if_splits)

lemma edge_exhausts:
  "sys edge_env (Sys_read d b n) w = ((r, e), w') \<Longrightarrow> r < n \<Longrightarrow> all_taken w'"
  "sys edge_env (Sys_write d b n) w = ((r, e), w') \<Longrightarrow> r < n \<Longrightarrow> all_taken w'"
  by (auto simp: edge_env_def edge_sys_def edge_move_def all_taken_def allowance_def Let_def split: if_splits)

lemma edge_goes_on:
  "goes_on (sys edge_env (Sys_read d b n) w)" "goes_on (sys edge_env (Sys_write d b n) w)"
  by (auto simp: goes_on_def edge_env_def edge_sys_def edge_move_def Let_def)

lemma edge_announces:
  "incoming w \<noteq> [] \<Longrightarrow> 0 < n \<Longrightarrow> all_taken w \<Longrightarrow> announced edge_env 4 1 Rd (Sys_read d b n)
     (\<lambda>w'. incoming w' = incoming w \<and> memory w' = memory w) w"
  "0 < n \<Longrightarrow> all_taken w \<Longrightarrow> announced edge_env 4 1 Wr (Sys_write d b n)
     (\<lambda>w'. outgoing w' = outgoing w \<and> memory w' = memory w) w"
  by (simp_all add: announced_def edge_env_def edge_sys_def edge_move_def all_taken_def has_event_def readiness_def
      EPOLLIN_def EPOLLOUT_def EPOLLERR_def EPOLLHUP_def allowance_def Let_def)

lemma edge_stream: "feeds edge_env 4 d 1 incoming memory all_taken" "drains edge_env 4 d 1 outgoing memory all_taken"
  unfolding feeds_def drains_def
  by (intro allI impI conjI edge_goes_on edge_announces; (assumption | blast dest: edge_exhausts))+

definition edge_machine :: "(pipe, user_code) machine" where
  "edge_machine = put_epoll 9 \<lparr>epoll_fd = 4, currCycleNotifications = replicate EVENTSPERCYCLE \<lparr>ev_events = 0, ev_ptr = 0\<rparr>,
     currCycleNotificationsCount = 0\<rparr> (pipe_machine empty_op empty_op 1 (pipe_world [1] [7, 8, 9, 10]))"

lemma edge_machine_simps [simp]:
  "file_at edge_machine 1 = Some (pipe_file 5 empty_op empty_op)" "is_socket edge_machine 1 = False"
  "world edge_machine = pipe_world [1] [7, 8, 9, 10]" "watched 9 4 1 s edge_machine"
  by (simp_all add: edge_machine_def put_epoll_def object_machine_def pipe_file_def file_at_def is_socket_def
      watched_def op_at_def epoll_at_def other_def split: slot.split)

theorem readAll_request_completes_witness:
  "completes edge_env 9 1 Rd False (read_so_far incoming memory 100 (pipe_world [1] [7, 8, 9, 10])) 4 Log
    (obind (File_readAll edge_env 1 100 4 (Some Log) edge_machine) (\<lambda>_. EPoll_loop edge_env 9))"
  using readAll_request_completes [of 9 4 1 edge_machine, OF edge_machine_simps(4,1) _ _ edge_pipe(1),
      of all_taken 4 100 Log] edge_stream(1) by (simp add: in_s32_def pipe_world_def del: One_nat_def)

theorem writeAll_request_completes_witness:
  "completes edge_env 9 1 Wr False (written_so_far outgoing memory 64 (pipe_world [1] [7, 8, 9, 10])) 5 Log
    (obind (File_writeAll edge_env 1 64 5 (Some Log) edge_machine) (\<lambda>_. EPoll_loop edge_env 9))"
  using writeAll_request_completes [of 9 4 1 edge_machine, OF edge_machine_simps(4,1) _ _ edge_pipe(2),
      of all_taken 5 64 Log] edge_stream(2) by (simp add: in_s32_def del: One_nat_def)

end
