(* ===== verification/Spec2Isabelle.thy ===== *)
theory Spec2Isabelle
  imports CPoll_Live CPoll_Requests CPoll_SocketProps CPoll_Values CPoll_Text CPoll_Proxy CPoll_Composed
begin

text \<open>
  A model of cpoll-ng, a C++ library for asynchronous input and output on Linux descriptors
  with edge triggered epoll, and theorems about it.

  \<^bold>\<open>The program.\<close> A \<open>File\<close> (or \<open>Socket\<close>) has a slot for one reading and one for one writing
  operation. A request (\<open>read\<close>, \<open>writeAll\<close>, \<open>accept\<close> and so on) with a callback first tries its
  system call at once, unless the slot remembers that the descriptor is not ready
  (\<open>skipSynchronousAttempt\<close>); if the call would block, the request stays in the slot. An \<open>EPoll\<close>
  waits for events; for each one it calls \<open>dispatch\<close> of the object concerned, which performs the
  pending operations (\<open>doOperation\<close>), ends them when the peer is gone (\<open>handleHup\<close>) and calls
  their callbacks. A callback may start requests, remove and delete the object or run the loop
  again. That is why \<open>dispatch\<close> reads its events through a reference, which \<open>remove\<close> clears.
  \<open>Timer\<close> is a descriptor with a callback, \<open>EPoll\<close> itself is one too and can be nested. Beside
  these stand addresses and endpoints, the exceptions, and a string builder.

  \<^bold>\<open>How code becomes definitions.\<close> A piece of code is a function of the machine (record
  \<open>machine\<close>: the objects by address, \<open>errno\<close>, the arrays of \<open>iovec\<close> in the user's memory, and the
  world as a type variable) with a \<open>result\<close>: a value and a machine, an exception and a machine, a
  fault (failed assertion, access to an object that is gone, a notification of such an object, an
  index outside an array), or \<open>None\<close>, when it does not return.
  \<open>obind\<close> sequences. The kernel and the user's callbacks are the fields of the record \<open>env\<close>, which
  every definition takes: any kernel, any callbacks, which see and change the whole machine. A
  \<open>std::function\<close> is an identifier that \<open>usr\<close> interprets. Pointers are integers, 0 is null, and a
  deleted object is a missing entry of \<open>heap\<close>. The 32 bit \<open>int\<close> is an integer with \<open>s32\<close> where
  the code computes (the library is compiled with \<open>-fwrapv\<close>); masks of events are \<open>32 word\<close>s, the
  sizes of the string builder as well. The members of the union in \<open>OperationInfo\<close> are separate
  fields, which a new slot has uninitialised (\<open>fresh_op\<close>: an unknown value of the environment); where \<open>recvAll\<close> and \<open>sendAll\<close> leave \<open>flags\<close> as it is, the model has the flags of the
  last operation that wrote them, the code those or the bytes of another member.

  \<^bold>\<open>Bounds and termination.\<close> Loops of the code that may run for ever are \<open>partial_function\<close>s, so
  not returning is a value (\<open>None\<close>) and returning is a theorem. No code has fuel in the model and no
  data is bounded; \<open>EVENTSPERCYCLE\<close> is the code's 32. The nesting of callbacks is bounded in two
  environments: \<open>scripted\<close> in CPoll_Reach, by any number (an execution that ends nests its callbacks
  to some depth, and a bound of that depth does not change it), and \<open>proxy_env\<close> in CPoll_Proxy, at
  which the theorems about the proxy are applied; these theorems are about any environment.

  \<^bold>\<open>Theories and the code they model.\<close>
  \<^item> CPoll_Prelude: results, C integers, bytes in memory.
  \<^item> CPoll_Address: src/ipaddress.C and include/cpoll-ng/ipaddress.H. Byte order, addresses,
    endpoints and their \<open>sockaddr\<close>; locale \<open>endpoint_codec\<close>, interpreted by the three classes.
  \<^item> CPoll_Machine: the data of include/cpoll-ng/cpoll.H, the machine, the kernel's interface.
  \<^item> CPoll_Exceptions: src/exceptions.C, \<open>checkError\<close> and \<open>disableSignals\<close>.
  \<^item> CPoll_File: \<open>File::doOperation\<close>, \<open>handleHup\<close>, \<open>dispatch\<close> of src/cpoll.C.
  \<^item> CPoll_Async: the requests of \<open>File\<close>, its construction, destruction and synchronous calls.
  \<^item> CPoll_Socket: \<open>Socket\<close> with \<open>accept\<close>, \<open>connect\<close>, \<open>bind\<close> and host names.
  \<^item> CPoll_Timer and CPoll_EPoll: the classes of those names.
  \<^item> CPoll_String: include/cpoll-ng/string_builder.H for \<open>char\<close>; locale \<open>text_buffer\<close>.
  \<^item> CPoll_Util: \<open>sdbm\<close>, \<open>memrmem\<close>, \<open>listDirectory\<close>, the scoped lock (locale \<open>mutex\<close>), the byte
    transformation of the example.
  \<^item> CPoll_Surface: constructors, wrappers with some arguments fixed, threads, the rest of the
    string builder.
  \<^item> CPoll_Proxy: src/examples/bitflip_proxy.C, user code on top of the library's model.

  \<^bold>\<open>Theories of properties.\<close>
  \<^item> CPoll_FileProps, CPoll_Dispatch: the behaviour of \<open>doOperation\<close> and \<open>handleHup\<close> case by case;
    \<open>dispatch\<close> once for \<open>File\<close> and \<open>Socket\<close> in the locale \<open>fd_operations\<close>.
  \<^item> CPoll_Transfer, CPoll_Sessions, CPoll_Vector: transfers of a given length. One call moves a
    piece; a request and any sequence of events move every byte once, in order, and report once;
    an array of buffers is shortened by exactly the bytes that were moved.
  \<^item> CPoll_Events, CPoll_Hangup: one-shot and repeated operations, edge triggering, deletion by a
    callback, hang-up, cancelling. \<open>exhausting\<close> says what the kernel promises of a call that would block
    or is short, which an operation must have met to wait for the next edge.
  \<^item> CPoll_Serve: what one notification does to the objects when all requests are one-shot and the
    callbacks may remove and delete objects; locale \<open>served_object\<close>, interpreted by \<open>File\<close> and \<open>Socket\<close>.
  \<^item> CPoll_Loop: \<open>remove\<close>, and cycles of \<open>EPoll\<close>. Locale \<open>event_cycle\<close> proves the cycle from what
    it needs of \<open>dispatch\<close>, which CPoll_Serve gives.
  \<^item> CPoll_Composed: \<open>readAll\<close> and \<open>writeAll\<close> followed by \<open>loop\<close>, to the call of the callback, on a
    stream that goes on (\<open>feeds\<close>, \<open>drains\<close>: what a live peer and an edge triggered epoll promise, where
    an arrival is only announced when what had come before has been read).
  \<^item> CPoll_SocketProps: the end of \<open>connect\<close>, repeated \<open>accept\<close>, and the descriptors opened and
    closed on behalf of a host name (locale \<open>descriptor_ledger\<close>).
  \<^item> CPoll_Invariant: what an invariant of the machine needs so that every operation and the event loop
    keep it, as a contract (locale \<open>library_invariant\<close>) over the steps that change objects, with the
    proof for the whole library.
  \<^item> CPoll_Slots: an instance of it. The slots hold operations of their own direction, what does not
    support repetition does not repeat, and the counts of notifications stay within their arrays.
  \<^item> CPoll_Reach: the interface as a datatype of actions, programs and callbacks over it, a step
    relation and the machines it reaches from the empty one; an invariant holds in all of them, for
    programs that only take the actions it admits.
  \<^item> CPoll_Requests: requests on a slot that is in use and on a free one.
  \<^item> CPoll_Live: the other instance. What is registered with an \<open>EPoll\<close> (\<open>registry\<close>, the kernel's
    side) are objects that exist, and so are the objects of outstanding notifications, if the program
    deletes only objects that have none outstanding.
  \<^item> CPoll_Values, CPoll_Text: timers, addresses and endpoints; the string builder as a refinement
    of a string.
  \<^item> CPoll_Pipe: a concrete kernel (a byte stream in each direction, moved in pieces that a
    script gives) and concrete callbacks, at which theorems with hypotheses are applied.

  \<^bold>\<open>What modelling showed.\<close> Some theorems state behaviour that a user of the library has to know:
  a hang-up ends a repeated read before the stream is at its end (\<open>hangup_discards_repeated_read\<close>),
  reports a partly done transfer with two callbacks (\<open>hangup_reports_twice\<close>) and looks at the
  operation again after a callback that may have deleted it (\<open>hangup_touches_deleted_object\<close>); a
  repeated request on a descriptor that is always ready does not return
  (\<open>ready_repeat_never_returns\<close>); some entry points do not check that the slot is free
  (\<open>recvAll_ignores_pending_operation\<close>, \<open>readvAll_replaces_pending_operation\<close>); a nested \<open>run\<close> on
  the same object loses notifications (\<open>nested_run_drops_notifications\<close>); \<open>reserve\<close> does not return
  for counts from \<open>2 ^ 31\<close> on but one (\<open>reserve_returns_iff\<close>).

  \<^bold>\<open>Not modelled.\<close>
  \<^item> Code that is commented out (\<open>SignalFD\<close>, \<open>EventFD\<close>, asynchronous \<open>recvFrom\<close> and \<open>sendTo\<close>), the
    test program, the build files, and the parsing of the proxy's command line.
  \<^item> Parameters, because they are outside the repository: system calls, \<open>strerror\<close>,
    \<open>getaddrinfo\<close>, \<open>inet_pton\<close>, the text that \<open>inet_ntop\<close> gives an IPv6 address, \<open>snprintf\<close>'s
    text, \<open>pthread_create\<close>, \<open>readdir\<close>, the allocator and the sizes of classes.
  \<^item> Characters wider than a byte in the string builder; the library only uses \<open>char\<close>.
  \<^item> The lifetime of the closure in a \<open>std::function\<close>: the code calls \<open>op.cb\<close> in its place in the slot,
    and a callback that starts a new operation there assigns to the object that is running. In the
    model the callback is an identifier, and user code is called with it.
  \<^item> Threads running at the same time: the library has no shared state of its own, and the mutex is
    seen from the thread that holds it.
  \<^item> Memory that is not an object of the library is part of the world: reads and writes by system
    calls are the kernel's to describe (\<open>reads_from\<close>, \<open>writes_to\<close> in CPoll_Transfer).
\<close>

end
